(* ===== verification/Prelude.thy ===== *)
theory Prelude
  imports Main "HOL-Library.Word"
begin

text \<open>
  Shared vocabulary of the development: machine integers and bytes, the three ways a Go
  call can end (a value, an \<open>error\<close>, a panic), slices and \<open>copy\<close>, big-endian encoding
  (\<open>encoding/binary\<close>), the chunking loop that several components use, and the theorem
  collections that the component theories extend.
\<close>

section \<open>Integers, bytes and theorem collections\<close>

type_synonym byte = "8 word"
type_synonym u8 = "8 word"
type_synonym u32 = "32 word"
type_synonym u64 = "64 word"
type_synonym bytes = "byte list"

text \<open>
  \<open>outcome_simps\<close> evaluates the error plumbing, \<open>go_defs\<close> unfolds the definitions of the
  Go standard library, \<open>len_simps\<close> holds facts about lengths of encodings.
\<close>

named_theorems outcome_simps \<open>evaluation of sequenced fallible calls\<close>
named_theorems go_defs \<open>definitions of modelled standard library functions\<close>
named_theorems len_simps \<open>lengths of slices and encodings\<close>

text \<open>
  Go's \<open>int64\<close> and \<open>int\<close> are modelled by \<^typ>\<open>int\<close>, \<open>uint64\<close> by \<^typ>\<open>u64\<close>; a conversion
  between the two keeps the bit pattern.
\<close>

definition u64_of_int :: "int \<Rightarrow> u64" where
  "u64_of_int i = word_of_int i"

definition int_of_u64 :: "u64 \<Rightarrow> int" where
  "int_of_u64 w = sint w"

lemma u64_of_int_of_u64 [simp]: "u64_of_int (int_of_u64 w) = w"
  by (simp add: u64_of_int_def int_of_u64_def)

lemma int_of_u64_small:
  assumes "unat w < 2 ^ 63"
  shows "int_of_u64 w = int (unat w)"
proof -
  have u: "uint w = int (unat w)" by (rule uint_nat)
  have "int (unat w) < 2 ^ 63"
    using assms by (metis of_nat_less_iff of_nat_numeral of_nat_power)
  moreover have "- (2 ^ 63) \<le> int (unat w)"
    by (rule order_trans [of _ 0]) simp_all
  ultimately have "signed_take_bit 63 (uint w) = uint w"
    unfolding u by (intro signed_take_bit_int_eq_self)
  then show ?thesis
    unfolding int_of_u64_def sint_uint u by simp
qed

section \<open>Errors, panics and results\<close>

text \<open>
  \<open>Errorf m\<close> is \<open>fmt.Errorf(m)\<close> (or an error made by a called package), \<open>Wrapf m e\<close> is
  \<open>fmt.Errorf("m: %w", e)\<close>. The formatted arguments of a message are not kept: no
  code branches on them. A panic is a run-time failure that no function here recovers from.
\<close>

datatype go_error = Errorf string | Wrapf string go_error

datatype go_panic =
  IndexOutOfRange | SliceOutOfRange | NilDereference | DivideByZero
  | CloseOfClosedChannel | TypeAssertion | SendOnClosedChannel

datatype 'a outcome = Ok 'a | Err go_error | Panic go_panic

text \<open>\<open>and_then\<close> sequences two calls and returns early on an error or a panic.\<close>

fun and_then :: "'a outcome \<Rightarrow> ('a \<Rightarrow> 'b outcome) \<Rightarrow> 'b outcome" where
  "and_then (Ok x) k = k x"
| "and_then (Err e) k = Err e"
| "and_then (Panic p) k = Panic p"

text \<open>\<open>wrapf\<close> is the idiom \<open>if err != nil { return nil, fmt.Errorf("m: %w", err) }\<close>.\<close>

fun wrapf :: "string \<Rightarrow> 'a outcome \<Rightarrow> 'a outcome" where
  "wrapf m (Ok x) = Ok x"
| "wrapf m (Err e) = Err (Wrapf m e)"
| "wrapf m (Panic p) = Panic p"

fun is_ok :: "'a outcome \<Rightarrow> bool" where
  "is_ok (Ok _) = True"
| "is_ok (Err _) = False"
| "is_ok (Panic _) = False"

fun is_panic :: "'a outcome \<Rightarrow> bool" where
  "is_panic (Panic _) = True"
| "is_panic (Ok _) = False"
| "is_panic (Err _) = False"

declare and_then.simps [outcome_simps] wrapf.simps [outcome_simps]

lemma and_then_Ok_iff [outcome_simps]:
  "and_then m k = Ok y \<longleftrightarrow> (\<exists>x. m = Ok x \<and> k x = Ok y)"
  by (cases m) auto

lemma wrapf_Ok_iff [outcome_simps]: "wrapf s m = Ok y \<longleftrightarrow> m = Ok y"
  by (cases m) auto

lemma and_then_is_panic [outcome_simps]:
  "is_panic (and_then m k) \<longleftrightarrow> is_panic m \<or> (\<exists>x. m = Ok x \<and> is_panic (k x))"
  by (cases m) auto

lemma wrapf_is_panic [outcome_simps]: "is_panic (wrapf s m) = is_panic m"
  by (cases m) auto

lemma is_ok_iff: "is_ok m \<longleftrightarrow> (\<exists>x. m = Ok x)"
  by (cases m) auto

lemma and_then_assoc: "and_then (and_then m f) g = and_then m (\<lambda>x. and_then (f x) g)"
  by (cases m) auto

lemma and_then_cong [fundef_cong]:
  "m = m' \<Longrightarrow> (\<And>x. m' = Ok x \<Longrightarrow> k x = k' x) \<Longrightarrow> and_then m k = and_then m' k'"
  by (cases m') auto

text \<open>\<open>collect f xs\<close> calls \<open>f\<close> on every element in turn and stops at the first failure.\<close>

fun collect :: "('a \<Rightarrow> 'b outcome) \<Rightarrow> 'a list \<Rightarrow> 'b list outcome" where
  "collect f [] = Ok []"
| "collect f (x # xs) = and_then (f x) (\<lambda>y. and_then (collect f xs) (\<lambda>ys. Ok (y # ys)))"

lemma collect_Ok_iff [outcome_simps]:
  "collect f xs = Ok ys \<longleftrightarrow> length ys = length xs \<and> (\<forall>i < length xs. f (xs ! i) = Ok (ys ! i))"
proof (induction xs arbitrary: ys)
  case (Cons x xs)
  show ?case
  proof
    assume "collect f (x # xs) = Ok ys"
    then obtain y zs where "f x = Ok y" "collect f xs = Ok zs" "ys = y # zs"
      by (auto simp: and_then_Ok_iff)
    with Cons show "length ys = length (x # xs) \<and> (\<forall>i < length (x # xs). f ((x # xs) ! i) = Ok (ys ! i))"
      by (auto simp: nth_Cons split: nat.splits)
  next
    assume r: "length ys = length (x # xs) \<and> (\<forall>i < length (x # xs). f ((x # xs) ! i) = Ok (ys ! i))"
    then obtain y zs where ys: "ys = y # zs" by (cases ys) auto
    have "f x = Ok y" using r ys by force
    moreover have "collect f xs = Ok zs" unfolding Cons using r ys by force
    ultimately show "collect f (x # xs) = Ok ys" using ys by simp
  qed
qed auto

section \<open>Slices\<close>

text \<open>
  \<open>sub_slice xs i j\<close> is \<open>xs[i:j]\<close> and \<open>index_at xs i\<close> is \<open>xs[i]\<close>, with the panic Go raises
  when the bounds do not fit; \<open>copy_to dst src\<close> is the contents of \<open>dst\<close> after
  \<open>copy(dst, src)\<close>.
\<close>

definition sub_slice :: "'a list \<Rightarrow> nat \<Rightarrow> nat \<Rightarrow> 'a list outcome" where
  "sub_slice xs i j =
     (if i \<le> j \<and> j \<le> length xs then Ok (take (j - i) (drop i xs)) else Panic SliceOutOfRange)"

definition index_at :: "'a list \<Rightarrow> nat \<Rightarrow> 'a outcome" where
  "index_at xs i = (if i < length xs then Ok (xs ! i) else Panic IndexOutOfRange)"

definition copy_to :: "'a list \<Rightarrow> 'a list \<Rightarrow> 'a list" where
  "copy_to dst src =
     (let n = min (length dst) (length src) in take n src @ drop n dst)"

lemma length_copy_to [simp, len_simps]: "length (copy_to dst src) = length dst"
  by (simp add: copy_to_def Let_def min_def)

lemma copy_to_same_length [simp]: "length src = length dst \<Longrightarrow> copy_to dst src = src"
  by (simp add: copy_to_def)

lemma sub_slice_ok [outcome_simps]:
  "i \<le> j \<Longrightarrow> j \<le> length xs \<Longrightarrow> sub_slice xs i j = Ok (take (j - i) (drop i xs))"
  by (simp add: sub_slice_def)

lemma index_at_ok [outcome_simps]: "i < length xs \<Longrightarrow> index_at xs i = Ok (xs ! i)"
  by (simp add: index_at_def)

lemma index_at_not_err [simp]: "index_at xs i \<noteq> Err e"
  by (simp add: index_at_def)

lemma sub_slice_not_err [simp]: "sub_slice xs i j \<noteq> Err e"
  by (simp add: sub_slice_def)

section \<open>Big-endian encoding\<close>

text \<open>
  \<open>binary.BigEndian.Uint64\<close> reads the first eight bytes, most significant first;
  \<open>binary.BigEndian.PutUint64\<close> writes them.
\<close>

definition be_nat :: "bytes \<Rightarrow> nat" where
  "be_nat bs = foldl (\<lambda>a b. a * 256 + unat b) 0 bs"

fun be_bytes :: "nat \<Rightarrow> nat \<Rightarrow> bytes" where
  "be_bytes 0 n = []"
| "be_bytes (Suc k) n = be_bytes k (n div 256) @ [of_nat (n mod 256)]"

definition BigEndian_Uint64 :: "bytes \<Rightarrow> u64" where
  "BigEndian_Uint64 bs = of_nat (be_nat (take 8 bs))"

definition BigEndian_PutUint64 :: "u64 \<Rightarrow> bytes" where
  "BigEndian_PutUint64 w = be_bytes 8 (unat w)"

lemma be_nat_Nil [simp]: "be_nat [] = 0"
  by (simp add: be_nat_def)

lemma be_nat_snoc [simp]: "be_nat (bs @ [b]) = be_nat bs * 256 + unat b"
  by (simp add: be_nat_def)

lemma length_be_bytes [simp, len_simps]: "length (be_bytes k n) = k"
  by (induction k n rule: be_bytes.induct) auto

lemma length_PutUint64 [simp, len_simps]: "length (BigEndian_PutUint64 w) = 8"
  by (simp add: BigEndian_PutUint64_def)

lemma byte_of_nat_unat: "n < 256 \<Longrightarrow> unat (of_nat n :: byte) = n"
  by (simp add: unat_of_nat)

lemma be_nat_be_bytes: "be_nat (be_bytes k n) = n mod 256 ^ k"
proof (induction k n rule: be_bytes.induct)
  case (2 k n)
  have "n mod (256 * 256 ^ k) = 256 * (n div 256 mod 256 ^ k) + n mod 256"
    by (rule mod_mult2_eq)
  with 2 show ?case by (simp add: byte_of_nat_unat)
qed simp

lemma be_nat_bound: "be_nat bs < 256 ^ length bs"
proof (induction bs rule: rev_induct)
  case (snoc b bs)
  have "unat b < 256" using unsigned_less [of b, where ?'a = nat] by simp
  with snoc show ?case by simp
qed simp

lemma be_bytes_be_nat: "be_bytes (length bs) (be_nat bs) = bs"
proof (induction bs rule: rev_induct)
  case (snoc b bs)
  have "unat b < 256" using unsigned_less [of b, where ?'a = nat] by simp
  with snoc show ?case by simp
qed simp

lemma be_nat_Cons: "be_nat (b # bs) = unat b * 256 ^ length bs + be_nat bs"
proof (induction bs rule: rev_induct)
  case (snoc c bs)
  have "be_nat (b # bs @ [c]) = be_nat ((b # bs) @ [c])" by simp
  also have "\<dots> = be_nat (b # bs) * 256 + unat c" by (simp only: be_nat_snoc)
  finally show ?case using snoc by (simp add: algebra_simps)
qed (simp add: be_nat_def)

lemma Uint64_PutUint64 [simp]: "BigEndian_Uint64 (BigEndian_PutUint64 w) = w"
proof -
  have "unat w < 2 ^ 64" using unsigned_less [of w, where ?'a = nat] by simp
  then have "unat w mod 256 ^ 8 = unat w" by simp
  then show ?thesis
    by (simp add: BigEndian_Uint64_def BigEndian_PutUint64_def be_nat_be_bytes)
qed

lemma unat_Uint64: "length bs = 8 \<Longrightarrow> unat (BigEndian_Uint64 bs) = be_nat bs"
proof -
  assume l: "length bs = 8"
  have "be_nat bs < 2 ^ 64" using be_nat_bound [of bs] l by simp
  then show ?thesis using l by (simp add: BigEndian_Uint64_def unat_of_nat)
qed

lemma PutUint64_Uint64: "length bs = 8 \<Longrightarrow> BigEndian_PutUint64 (BigEndian_Uint64 bs) = bs"
  using be_bytes_be_nat [of bs] by (simp add: BigEndian_PutUint64_def unat_Uint64)

section \<open>Ranges of heights\<close>

text \<open>Go's loop \<open>for h := a; h <= b; h++\<close> visits \<open>[a..b]\<close>; adjacent ranges join.\<close>

lemma upto_append: "a \<le> b + 1 \<Longrightarrow> b \<le> c \<Longrightarrow> [a..b] @ [b + 1..c] = [a..c]"
  using upto_split2 [of a b c] by (cases "a = b + 1") simp_all

section \<open>The chunking loop\<close>

text \<open>
  The loop \<open>for i := 0; i < len(xs); i += batchSize { end := i + batchSize; if end > len(xs)
  { end = len(xs) }; \<dots> xs[i:end] \<dots> }\<close>. A zero batch size never leaves the loop and a
  negative one slices out of range in the first round, so the loop is a partial function:
  \<^const>\<open>None\<close> is \<open>does not return\<close>.
\<close>

partial_function (option) chunk_loop ::
  "int \<Rightarrow> 'a list \<Rightarrow> int \<Rightarrow> 'a list list \<Rightarrow> 'a list list outcome option" where
  "chunk_loop batchSize xs i acc =
     (if i < int (length xs) then
        let e = (if i + batchSize > int (length xs) then int (length xs) else i + batchSize) in
        if i < 0 \<or> e < i then Some (Panic SliceOutOfRange)
        else chunk_loop batchSize xs (i + batchSize)
               (acc @ [take (nat e - nat i) (drop (nat i) xs)])
      else Some (Ok acc))"

text \<open>The list of chunks a positive batch size yields, by structural means.\<close>

function chunks_of :: "nat \<Rightarrow> 'a list \<Rightarrow> 'a list list" where
  "chunks_of n xs = (if xs = [] \<or> n = 0 then [] else take n xs # chunks_of n (drop n xs))"
  by pat_completeness auto
termination
  by (relation "measure (\<lambda>(n, xs). length xs)") auto

declare chunks_of.simps [simp del]

lemma chunks_of_Nil [simp]: "chunks_of n [] = []"
  by (simp add: chunks_of.simps)

lemma chunks_of_step:
  "0 < n \<Longrightarrow> xs \<noteq> [] \<Longrightarrow> chunks_of n xs = take n xs # chunks_of n (drop n xs)"
  by (simp add: chunks_of.simps [of n xs])

lemma concat_chunks_of: "0 < n \<Longrightarrow> concat (chunks_of n xs) = xs"
proof (induction n xs rule: chunks_of.induct)
  case (1 n xs)
  show ?case
  proof (cases "xs = []")
    case False
    with 1 show ?thesis by (simp add: chunks_of_step)
  qed simp
qed

lemma chunks_of_sizes:
  "0 < n \<Longrightarrow> c \<in> set (chunks_of n xs) \<Longrightarrow> c \<noteq> [] \<and> length c \<le> n"
proof (induction n xs rule: chunks_of.induct)
  case (1 n xs)
  show ?case
  proof (cases "xs = []")
    case True
    with 1 show ?thesis by simp
  next
    case False
    with 1 show ?thesis by (auto simp: chunks_of_step)
  qed
qed

lemma chunk_loop_chunks_of:
  assumes "0 < n" "i \<le> length xs"
  shows "chunk_loop (int n) xs (int i) acc = Some (Ok (acc @ chunks_of n (drop i xs)))"
  using assms
proof (induction "length xs - i" arbitrary: i acc rule: less_induct)
  case less
  show ?case
  proof (cases "i < length xs")
    case False
    with less.prems show ?thesis by (simp add: chunk_loop.simps [of "int n"])
  next
    case True
    let ?c = "take n (drop i xs)"
    have ne: "drop i xs \<noteq> []" using True by simp
    have cut: "(if length xs < i + n then length xs - i else n) = min n (length xs - i)"
      by auto
    have tk: "take (nat (if int i + int n > int (length xs) then int (length xs)
                else int i + int n) - nat (int i)) (drop i xs) = ?c"
      by (auto simp: nat_add_distrib)
    have rest: "chunk_loop (int n) xs (int i + int n) (acc @ [?c])
        = Some (Ok ((acc @ [?c]) @ chunks_of n (drop (i + n) xs)))"
    proof (cases "i + n \<le> length xs")
      case True
      with less.hyps [of "i + n"] less.prems \<open>i < length xs\<close> show ?thesis
        by (simp add: add.commute)
    next
      case False
      then show ?thesis by (simp add: chunk_loop.simps [of "int n" xs "int i + int n"])
    qed
    show ?thesis
      using True less.prems ne rest tk
      by (subst chunk_loop.simps) (simp add: Let_def chunks_of_step add.commute)
  qed
qed

section \<open>Step relations\<close>

text \<open>
  Under an invariant, a system whose steps decrease in a well-founded order, and which can act until it is done, comes to
  an end.
\<close>

lemma runs_to_end:
  assumes "wf R" and "\<And>p. I p \<Longrightarrow> done_state p \<or> (\<exists>q. step p q)"
    and "\<And>p q. I p \<Longrightarrow> step p q \<Longrightarrow> I q \<and> (q, p) \<in> R" and "I p"
  shows "\<exists>q. step\<^sup>*\<^sup>* p q \<and> done_state q"
  using assms(1,4)
proof (induction p rule: wf_induct_rule)
  case (less p)
  from assms(2) [OF less(2)] show ?case
  proof
    assume "\<exists>q. step p q"
    then obtain q where q: "step p q" by blast
    with assms(3) [OF less(2)] less(1) have "\<exists>r. step\<^sup>*\<^sup>* q r \<and> done_state r" by blast
    with q show ?thesis by (meson converse_rtranclp_into_rtranclp)
  qed blast
qed

end
