(* ===== verification/GoStrings.thy ===== *)
theory GoStrings
  imports Prelude
begin

text \<open>
  The parts of Go's \<open>strings\<close>, \<open>strconv\<close>, \<open>fmt\<close> and \<open>encoding/hex\<close> that the indexer uses.
  A Go string is a sequence of bytes, modelled by \<^typ>\<open>string\<close>. Case folding is Go's on
  ASCII text, which is all the indexer folds: hexadecimal, checksummed addresses, and the
  address texts of gateway events; bytes above 127 are left as they are.
\<close>

section \<open>Case, prefixes, separators\<close>

definition lower_char :: "char \<Rightarrow> char" where
  "lower_char c =
     (let n = (of_char c :: nat) in if 65 \<le> n \<and> n \<le> 90 then char_of (n + 32) else c)"

definition ToLower :: "string \<Rightarrow> string" where
  "ToLower s = map lower_char s"

definition HasPrefix :: "string \<Rightarrow> string \<Rightarrow> bool" where
  "HasPrefix s p \<longleftrightarrow> take (length p) s = p"

definition TrimPrefix :: "string \<Rightarrow> string \<Rightarrow> string" where
  "TrimPrefix s p = (if HasPrefix s p then drop (length p) s else s)"

fun Split :: "char \<Rightarrow> string \<Rightarrow> string list" where
  "Split c [] = [[]]"
| "Split c (x # xs) =
     (if x = c then [] # Split c xs
      else (case Split c xs of [] \<Rightarrow> [[x]] | p # ps \<Rightarrow> (x # p) # ps))"

definition ReplaceAll_empty :: "char \<Rightarrow> string \<Rightarrow> string" where
  "ReplaceAll_empty c s = filter (\<lambda>x. x \<noteq> c) s"

lemma lower_char_idem [simp]: "lower_char (lower_char c) = lower_char c"
  by (simp add: lower_char_def Let_def)

lemma ToLower_idem [simp]: "ToLower (ToLower s) = ToLower s"
  by (simp add: ToLower_def)

lemma ToLower_append [simp]: "ToLower (s @ t) = ToLower s @ ToLower t"
  by (simp add: ToLower_def)

lemma length_ToLower [simp, len_simps]: "length (ToLower s) = length s"
  by (simp add: ToLower_def)

lemma HasPrefix_append [simp]: "HasPrefix (p @ s) p"
  by (simp add: HasPrefix_def)

lemma HasPrefix_iff: "HasPrefix s p \<longleftrightarrow> (\<exists>r. s = p @ r)"
  unfolding HasPrefix_def by (metis append_eq_conv_conj append_take_drop_id)

lemma TrimPrefix_append [simp]: "TrimPrefix (p @ s) p = s"
  by (simp add: TrimPrefix_def)

lemma Split_not_Nil [simp]: "Split c s \<noteq> []"
  by (cases s) (auto split: list.splits)

lemma Split_fresh: "c \<notin> set s \<Longrightarrow> Split c s = [s]"
  by (induction s) auto

lemma Split_append: "c \<notin> set a \<Longrightarrow> Split c (a @ c # b) = a # Split c b"
  by (induction a) auto

fun join_with :: "char \<Rightarrow> string list \<Rightarrow> string" where
  "join_with c [] = []"
| "join_with c [p] = p"
| "join_with c (p # q # ps) = p @ c # join_with c (q # ps)"

lemma join_with_Split: "join_with c (Split c s) = s"
proof (induction s)
  case (Cons x xs)
  obtain p ps where "Split c xs = p # ps"
    by (cases "Split c xs") auto
  with Cons show ?case by (cases ps) auto
qed simp

lemma Split_pair: "Split c s = [a, b] \<Longrightarrow> s = a @ c # b"
  using join_with_Split [of c s] by simp

section \<open>Decimal numbers\<close>

definition digit_char :: "nat \<Rightarrow> char" where
  "digit_char d = char_of (48 + d)"

text \<open>\<open>fmt.Sprintf("%d", n)\<close> for an unsigned \<open>n\<close>.\<close>

fun decimal :: "nat \<Rightarrow> string" where
  "decimal n = (if n < 10 then [digit_char n] else decimal (n div 10) @ [digit_char (n mod 10)])"

declare decimal.simps [simp del]

definition digit_val :: "char \<Rightarrow> nat option" where
  "digit_val c = (let n = (of_char c :: nat) in if 48 \<le> n \<and> n \<le> 57 then Some (n - 48) else None)"

text \<open>
  \<open>strconv.ParseUint(s, 10, bits)\<close>. The value that comes with an error is Go's too: 0 for a
  syntax error, the largest \<open>bits\<close>-bit number for an overflow.
\<close>

abbreviation ErrSyntax :: go_error where
  "ErrSyntax \<equiv> Errorf ''invalid syntax''"

abbreviation ErrRange :: go_error where
  "ErrRange \<equiv> Errorf ''value out of range''"

fun parse_digits :: "nat \<Rightarrow> nat \<Rightarrow> string \<Rightarrow> nat \<times> go_error option" where
  "parse_digits maxVal n [] = (n, None)"
| "parse_digits maxVal n (c # cs) =
     (case digit_val c of
        None \<Rightarrow> (0, Some ErrSyntax)
      | Some d \<Rightarrow>
          if n * 10 + d > maxVal then (maxVal, Some ErrRange)
          else parse_digits maxVal (n * 10 + d) cs)"

definition ParseUint :: "string \<Rightarrow> nat \<Rightarrow> nat \<times> go_error option" where
  "ParseUint s bits = (if s = [] then (0, Some ErrSyntax) else parse_digits (2 ^ bits - 1) 0 s)"

lemma digit_val_digit_char [simp]: "d < 10 \<Longrightarrow> digit_val (digit_char d) = Some d"
  by (simp add: digit_val_def digit_char_def)

lemma digit_val_less: "digit_val c = Some d \<Longrightarrow> d < 10"
  by (auto simp: digit_val_def Let_def split: if_splits)

lemma decimal_not_Nil [simp]: "decimal n \<noteq> []"
  by (simp add: decimal.simps [of n])

lemma decimal_digits: "c \<in> set (decimal n) \<Longrightarrow> \<exists>d < 10. c = digit_char d"
proof (induction n rule: decimal.induct)
  case (1 n)
  show ?case
  proof (cases "n < 10")
    case True
    with "1.prems" show ?thesis by (auto simp: decimal.simps [of n])
  next
    case False
    with "1.prems" have "c \<in> set (decimal (n div 10)) \<or> c = digit_char (n mod 10)"
      by (auto simp: decimal.simps [of n])
    moreover have "n mod 10 < 10" by simp
    ultimately show ?thesis using "1.IH" False by blast
  qed
qed

lemma digit_char_neq [simp]:
  "d < 10 \<Longrightarrow> digit_char d \<noteq> CHR ''|''" "d < 10 \<Longrightarrow> digit_char d \<noteq> CHR '',''"
  "d < 10 \<Longrightarrow> digit_char d \<noteq> CHR ''-''"
proof -
  have "digit_char d \<noteq> c" if "d < 10" "of_char c < (48::nat) \<or> of_char c > (57::nat)" for c
  proof
    assume "digit_char d = c"
    then have "of_char c = 48 + d" using that(1) unfolding digit_char_def by auto
    with that show False by simp
  qed
  note this [of "CHR ''|''"] this [of "CHR '',''"] this [of "CHR ''-''"]
  then show "d < 10 \<Longrightarrow> digit_char d \<noteq> CHR ''|''" "d < 10 \<Longrightarrow> digit_char d \<noteq> CHR '',''"
    "d < 10 \<Longrightarrow> digit_char d \<noteq> CHR ''-''" by simp_all
qed

lemma decimal_no_bar: "CHR ''|'' \<notin> set (decimal n)"
  using decimal_digits by (metis digit_char_neq(1))

lemma decimal_no_comma: "CHR '','' \<notin> set (decimal n)"
  using decimal_digits by (metis digit_char_neq(2))

lemma decimal_no_dash: "CHR ''-'' \<notin> set (decimal n)"
  using decimal_digits by (metis digit_char_neq(3))

lemma parse_digits_append:
  "parse_digits m a (xs @ ys) =
     (case parse_digits m a xs of (v, None) \<Rightarrow> parse_digits m v ys | (v, Some e) \<Rightarrow> (v, Some e))"
  by (induction m a xs rule: parse_digits.induct) (auto split: option.splits)

lemma parse_digits_decimal: "n \<le> m \<Longrightarrow> parse_digits m 0 (decimal n) = (n, None)"
proof (induction n rule: decimal.induct)
  case (1 n)
  show ?case
  proof (cases "n < 10")
    case True
    with "1.prems" show ?thesis by (simp add: decimal.simps [of n])
  next
    case False
    have "n div 10 \<le> m" using "1.prems" by simp
    with 1 False have "parse_digits m 0 (decimal (n div 10)) = (n div 10, None)" by blast
    with False "1.prems" show ?thesis
      by (simp add: decimal.simps [of n] parse_digits_append)
  qed
qed

lemma ParseUint_decimal: "n < 2 ^ bits \<Longrightarrow> ParseUint (decimal n) bits = (n, None)"
  unfolding ParseUint_def using parse_digits_decimal [of n "2 ^ bits - 1"] by simp

lemma parse_digits_bound: "n \<le> m \<Longrightarrow> fst (parse_digits m n s) \<le> m"
  by (induction m n s rule: parse_digits.induct) (auto split: option.splits)

lemma ParseUint_bound: "fst (ParseUint s bits) < 2 ^ bits"
  using parse_digits_bound [of 0 "2 ^ bits - 1" s]
  by (auto simp: ParseUint_def le_diff_conv2 Suc_le_eq)

lemma decimal_inj: "decimal m = decimal n \<Longrightarrow> m = n"
proof -
  assume eq: "decimal m = decimal n"
  have "(m, None) = parse_digits (max m n) 0 (decimal m)"
    by (rule parse_digits_decimal [symmetric]) simp
  also have "\<dots> = (n, None)"
    unfolding eq by (rule parse_digits_decimal) simp
  finally show ?thesis by simp
qed

section \<open>Hexadecimal\<close>

definition hex_digit :: "nat \<Rightarrow> char" where
  "hex_digit d = (if d < 10 then char_of (48 + d) else char_of (87 + d))"

text \<open>\<open>hex.EncodeToString\<close>, and \<open>%x\<close> of a byte slice.\<close>

definition hex_encode :: "bytes \<Rightarrow> string" where
  "hex_encode bs = concat (map (\<lambda>b. [hex_digit (unat b div 16), hex_digit (unat b mod 16)]) bs)"

definition hex_val :: "char \<Rightarrow> nat option" where
  "hex_val c =
     (let n = (of_char c :: nat) in
      if 48 \<le> n \<and> n \<le> 57 then Some (n - 48)
      else if 97 \<le> n \<and> n \<le> 102 then Some (n - 87)
      else if 65 \<le> n \<and> n \<le> 70 then Some (n - 55)
      else None)"

text \<open>\<open>hex.DecodeString\<close>: pairs of digits of either case, an error for anything else.\<close>

fun hex_decode :: "string \<Rightarrow> bytes outcome" where
  "hex_decode [] = Ok []"
| "hex_decode [c] = Err (Errorf ''encoding/hex: odd length hex string'')"
| "hex_decode (a # b # cs) =
     (case (hex_val a, hex_val b) of
        (Some x, Some y) \<Rightarrow> and_then (hex_decode cs) (\<lambda>bs. Ok (of_nat (16 * x + y) # bs))
      | _ \<Rightarrow> Err (Errorf ''encoding/hex: invalid byte''))"

lemma hex_val_hex_digit [simp]: "d < 16 \<Longrightarrow> hex_val (hex_digit d) = Some d"
  by (auto simp: hex_val_def hex_digit_def Let_def)

lemma lower_hex_digit [simp]: "d < 16 \<Longrightarrow> lower_char (hex_digit d) = hex_digit d"
  by (auto simp: lower_char_def hex_digit_def Let_def)

lemma unat_byte_less: "unat (b :: byte) < 256"
  using unsigned_less [of b, where ?'a = nat] by simp

lemma hex_encode_Nil [simp]: "hex_encode [] = []"
  by (simp add: hex_encode_def)

lemma hex_encode_Cons [simp]:
  "hex_encode (b # bs) = hex_digit (unat b div 16) # hex_digit (unat b mod 16) # hex_encode bs"
  by (simp add: hex_encode_def)

lemma byte_nibbles: "unat (b :: byte) div 16 < 16" "unat b mod 16 < 16"
  "(of_nat (16 * (unat b div 16) + unat b mod 16) :: byte) = b"
  using unat_byte_less [of b] by (simp_all add: mult_div_mod_eq)

lemma hex_decode_encode [simp]: "hex_decode (hex_encode bs) = Ok bs"
proof (induction bs)
  case (Cons b bs)
  then show ?case
    using byte_nibbles [of b] by simp
qed simp

lemma ToLower_hex_encode [simp]: "ToLower (hex_encode bs) = hex_encode bs"
proof (induction bs)
  case (Cons b bs)
  then show ?case using byte_nibbles [of b] by (simp add: ToLower_def)
qed (simp add: ToLower_def)

lemma length_hex_encode [simp, len_simps]: "length (hex_encode bs) = 2 * length bs"
  by (induction bs) auto

lemma hex_encode_inj: "hex_encode a = hex_encode b \<Longrightarrow> a = b"
  by (metis hex_decode_encode outcome.inject(1))

lemma hex_digit_no_dash: "d < 16 \<Longrightarrow> hex_digit d \<noteq> CHR ''-''"
proof
  assume "d < 16" "hex_digit d = CHR ''-''"
  then have "hex_val (CHR ''-'') = Some d" using hex_val_hex_digit by metis
  then show False by (simp add: hex_val_def)
qed

lemma hex_encode_no_dash: "CHR ''-'' \<notin> set (hex_encode bs)"
proof (induction bs)
  case (Cons b bs)
  then show ?case
    using hex_digit_no_dash [OF byte_nibbles(1), of b] hex_digit_no_dash [OF byte_nibbles(2), of b]
    by auto
qed simp

end
