(* ===== verification/BtcConfig.thy ===== *)
theory BtcConfig
  imports GoStrings
begin

text \<open>
  \<open>pkg/btc/config.go\<close> and the defaults that \<open>NewBtcClient\<close> (\<open>pkg/btc/client.go\<close>) fills in. A
  \<open>time.Duration\<close> is its number of nanoseconds. JSON decoding and \<open>time.ParseDuration\<close> are
  arguments: \<open>decode\<close> yields the decoded configuration, whose duration fields it leaves
  alone, and the four duration texts.
\<close>

type_synonym duration = int

definition Second :: duration where "Second = 1000000000"
definition Millisecond :: duration where "Millisecond = 1000000"
definition Minute :: duration where "Minute = 60 * Second"

lemmas duration_defs = Second_def Millisecond_def Minute_def

record btc_config =
  Enable :: bool
  BtcHost :: string
  BtcPort :: int
  BtcUser :: string
  BtcPassword :: string
  BtcSSL :: "bool option"
  BtcNetwork :: string
  ElectrumHost :: string
  ElectrumPort :: int
  VaultTag :: string
  VaultVersion :: u8
  DatabaseURL :: string
  DialTimeout :: duration
  MethodTimeout :: duration
  PingInterval :: duration
  MaxReconnectAttempts :: int
  ReconnectDelay :: duration
  EnableAutoReconnect :: bool
  StartHeight :: int
  EndHeight :: int
  BatchSize :: int
  Confirmations :: int
  SourceChain :: string
  FetchThread :: int

record duration_texts =
  dial_timeout :: string
  method_timeout :: string
  ping_interval :: string
  reconnect_delay :: string

text \<open>
  The receiver after the call and the error, if any. The receiver keeps what was assigned
  before a malformed text: the earlier durations, and every other field.
\<close>

definition UnmarshalJSON ::
  "(bytes \<Rightarrow> btc_config \<Rightarrow> (btc_config \<times> duration_texts) outcome) \<Rightarrow> (string \<Rightarrow> duration outcome)
   \<Rightarrow> btc_config \<Rightarrow> bytes \<Rightarrow> btc_config \<times> unit outcome" where
  "UnmarshalJSON decode ParseDuration c data =
     (case decode data c of
        Err e \<Rightarrow> (c, Err e)
      | Panic p \<Rightarrow> (c, Panic p)
      | Ok (c, aux) \<Rightarrow>
          let set = (\<lambda>text upd (c, r).
            if is_ok r \<and> text \<noteq> [] then
              (case ParseDuration text of
                 Ok d \<Rightarrow> (upd d c, Ok ())
               | Err e \<Rightarrow> (c, Err e)
               | Panic p \<Rightarrow> (c, Panic p))
            else (c, r))
          in set (reconnect_delay aux) (\<lambda>d c. c\<lparr>ReconnectDelay := d\<rparr>)
              (set (ping_interval aux) (\<lambda>d c. c\<lparr>PingInterval := d\<rparr>)
                (set (method_timeout aux) (\<lambda>d c. c\<lparr>MethodTimeout := d\<rparr>)
                  (set (dial_timeout aux) (\<lambda>d c. c\<lparr>DialTimeout := d\<rparr>) (c, Ok ())))))"

text \<open>The defaults at the start of \<open>NewBtcClient\<close>.\<close>

definition default_config :: "btc_config \<Rightarrow> btc_config" where
  "default_config c = c\<lparr>
     DialTimeout := (if DialTimeout c = 0 then 30 * Second else DialTimeout c),
     MethodTimeout := (if MethodTimeout c = 0 then 60 * Second else MethodTimeout c),
     PingInterval := (if PingInterval c = 0 then 30 * Second else PingInterval c),
     MaxReconnectAttempts := (if MaxReconnectAttempts c = 0 then 120 else MaxReconnectAttempts c),
     ReconnectDelay := (if ReconnectDelay c = 0 then 5 * Second else ReconnectDelay c),
     BatchSize := (if BatchSize c = 0 then 1 else BatchSize c),
     Confirmations := (if Confirmations c = 0 then 1 else Confirmations c)\<rparr>"

lemma default_config_fields [simp]:
  "DialTimeout (default_config c) = (if DialTimeout c = 0 then 30 * Second else DialTimeout c)"
  "MethodTimeout (default_config c) = (if MethodTimeout c = 0 then 60 * Second else MethodTimeout c)"
  "PingInterval (default_config c) = (if PingInterval c = 0 then 30 * Second else PingInterval c)"
  "MaxReconnectAttempts (default_config c) =
     (if MaxReconnectAttempts c = 0 then 120 else MaxReconnectAttempts c)"
  "ReconnectDelay (default_config c) = (if ReconnectDelay c = 0 then 5 * Second else ReconnectDelay c)"
  "BatchSize (default_config c) = (if BatchSize c = 0 then 1 else BatchSize c)"
  "Confirmations (default_config c) = (if Confirmations c = 0 then 1 else Confirmations c)"
  "DatabaseURL (default_config c) = DatabaseURL c"
  "SourceChain (default_config c) = SourceChain c"
  "VaultTag (default_config c) = VaultTag c"
  "VaultVersion (default_config c) = VaultVersion c"
  "StartHeight (default_config c) = StartHeight c"
  "EndHeight (default_config c) = EndHeight c"
  "FetchThread (default_config c) = FetchThread c"
  by (simp_all add: default_config_def)

lemma default_config_idem: "default_config (default_config c) = default_config c"
  by (rule btc_config.equality) (simp_all add: default_config_def duration_defs)

end
