(* ===== verification/ChainInfo.thy ===== *)
theory ChainInfo
  imports GoStrings
begin

text \<open>
  Chain identifiers: \<open>pkg/types/chain_info.go\<close> and \<open>pkg/utils/normalize.go\<close>. A chain is a
  type (Bitcoin, EVM, Solana, Cosmos) and a numeric id; it travels as eight bytes (the type
  and the low seven bytes of the id) or as text \<open>type|id\<close>. The lemmas give the round
  trips between the three forms, what a parser accepts, and the seven-byte limit of the id.
\<close>

section \<open>Data\<close>

definition ChainInfoBytesSize :: nat where
  "ChainInfoBytesSize = 8"

definition SEPARATOR :: char where
  "SEPARATOR = CHR ''|''"

definition ChainTypeBitcoin :: u8 where "ChainTypeBitcoin = 0"
definition ChainTypeEVM :: u8 where "ChainTypeEVM = 1"
definition ChainTypeSolana :: u8 where "ChainTypeSolana = 2"
definition ChainTypeCosmos :: u8 where "ChainTypeCosmos = 3"

lemmas chain_type_defs =
  ChainTypeBitcoin_def ChainTypeEVM_def ChainTypeSolana_def ChainTypeCosmos_def

text \<open>
  \<open>ChainInfoBytes\<close> is the array type \<open>[8]byte\<close>: a list whose length is eight.
\<close>

type_synonym chain_info_bytes = bytes

definition wf_chain_info_bytes :: "chain_info_bytes \<Rightarrow> bool" where
  "wf_chain_info_bytes c \<longleftrightarrow> length c = ChainInfoBytesSize"

record chain_info =
  chain_type :: u8
  chain_id :: u64

definition ChainTypeString :: "u8 \<Rightarrow> string option" where
  "ChainTypeString t =
     (if t = ChainTypeBitcoin then Some ''bitcoin''
      else if t = ChainTypeEVM then Some ''evm''
      else if t = ChainTypeSolana then Some ''solana''
      else if t = ChainTypeCosmos then Some ''cosmos''
      else None)"

definition ChainTypeFromString :: "string \<Rightarrow> u8 option" where
  "ChainTypeFromString s =
     (if s = ''bitcoin'' then Some ChainTypeBitcoin
      else if s = ''evm'' then Some ChainTypeEVM
      else if s = ''solana'' then Some ChainTypeSolana
      else if s = ''cosmos'' then Some ChainTypeCosmos
      else None)"

section \<open>Operations\<close>

definition ValidateChainType :: "u8 \<Rightarrow> bool" where
  "ValidateChainType t \<longleftrightarrow> t \<le> ChainTypeCosmos"

text \<open>Indexing a Go map with a missing key gives the zero value, here the empty string.\<close>

definition ChainType_String :: "u8 \<Rightarrow> string" where
  "ChainType_String t = (case ChainTypeString t of None \<Rightarrow> [] | Some s \<Rightarrow> s)"

text \<open>
  A method that sets its receiver returns the new receiver in \<^const>\<open>Ok\<close>; on an error the
  receiver keeps its value, as the Go methods assign only after every check.
\<close>

definition ChainType_FromString :: "string \<Rightarrow> u8 outcome" where
  "ChainType_FromString s =
     (case ChainTypeFromString s of
        None \<Rightarrow> Err (Errorf ''invalid chain type'')
      | Some t \<Rightarrow> Ok t)"

definition ChainInfoBytes_Bytes :: "chain_info_bytes \<Rightarrow> bytes" where
  "ChainInfoBytes_Bytes c = c"

text \<open>The buffer after the call, and the number of bytes reported.\<close>

definition ChainInfoBytes_MarshalTo :: "chain_info_bytes \<Rightarrow> bytes \<Rightarrow> bytes \<times> nat" where
  "ChainInfoBytes_MarshalTo c data = (copy_to data (ChainInfoBytes_Bytes c), ChainInfoBytesSize)"

text \<open>
  \<open>Bytes\<close> has a value receiver, so \<open>c.Bytes()\<close> is a slice of a fresh copy of the array and
  \<open>copy\<close> writes to that copy: the first component is the receiver after the call.
\<close>

definition ChainInfoBytes_Unmarshal ::
  "chain_info_bytes \<Rightarrow> bytes \<Rightarrow> chain_info_bytes \<times> go_error option" where
  "ChainInfoBytes_Unmarshal c data =
     (if length data \<noteq> ChainInfoBytesSize then (c, Some (Errorf ''invalid data length''))
      else let temporary = copy_to (ChainInfoBytes_Bytes c) data in (c, None))"

definition ChainInfoBytes_ChainType :: "chain_info_bytes \<Rightarrow> u8" where
  "ChainInfoBytes_ChainType c = c ! 0"

definition ChainInfoBytes_ChainID :: "chain_info_bytes \<Rightarrow> u64" where
  "ChainInfoBytes_ChainID c =
     (let chainInfoBytes = copy_to (replicate ChainInfoBytesSize 0) (ChainInfoBytes_Bytes c) in
      BigEndian_Uint64 (chainInfoBytes[0 := 0]))"

definition ChainInfoBytes_String :: "chain_info_bytes \<Rightarrow> string" where
  "ChainInfoBytes_String c =
     ChainType_String (ChainInfoBytes_ChainType c) @ SEPARATOR
       # decimal (unat (ChainInfoBytes_ChainID c))"

definition ChainInfoBytes_FromString :: "string \<Rightarrow> chain_info_bytes outcome" where
  "ChainInfoBytes_FromString s =
     (case Split SEPARATOR s of
        [typeText, idText] \<Rightarrow>
          (case ChainType_FromString typeText of
             Ok chainType \<Rightarrow>
               (case ParseUint idText 64 of
                  (chainID, None) \<Rightarrow>
                    let chainIDBytes = BigEndian_PutUint64 (of_nat chainID) in
                    Ok (chainType # drop 1 chainIDBytes)
                | (_, Some _) \<Rightarrow> Err (Errorf ''invalid chain id''))
           | _ \<Rightarrow> Err (Errorf ''invalid chain type''))
      | _ \<Rightarrow> Err (Errorf ''invalid format''))"

text \<open>A nil result is \<^const>\<open>None\<close>.\<close>

definition NewChainInfoFromBytes :: "bytes \<Rightarrow> chain_info option" where
  "NewChainInfoFromBytes bs =
     (if length bs \<noteq> ChainInfoBytesSize then None
      else if \<not> ValidateChainType (bs ! 0) then None
      else let chainIDBytes = (copy_to (replicate ChainInfoBytesSize 0) bs)[0 := 0] in
           Some \<lparr>chain_type = bs ! 0, chain_id = BigEndian_Uint64 chainIDBytes\<rparr>)"

definition ChainInfo_Bytes :: "chain_info \<Rightarrow> bytes" where
  "ChainInfo_Bytes dc =
     (let chainIDBytes = BigEndian_PutUint64 (chain_id dc);
          bs = (replicate ChainInfoBytesSize 0)[0 := chain_type dc]
      in take 1 bs @ copy_to (drop 1 bs) (drop 1 chainIDBytes))"

definition ChainInfo_ToBytes :: "chain_info \<Rightarrow> chain_info_bytes" where
  "ChainInfo_ToBytes dc = ChainInfo_Bytes dc"

definition ChainInfo_FromString :: "string \<Rightarrow> chain_info outcome" where
  "ChainInfo_FromString s =
     and_then (ChainInfoBytes_FromString s)
       (\<lambda>c. Ok \<lparr>chain_type = ChainInfoBytes_ChainType c, chain_id = ChainInfoBytes_ChainID c\<rparr>)"

definition ChainInfo_MarshalTo :: "chain_info \<Rightarrow> bytes \<Rightarrow> bytes \<times> nat" where
  "ChainInfo_MarshalTo c data = (copy_to data (ChainInfo_Bytes c), ChainInfoBytesSize)"

text \<open>\<open>Bytes\<close> allocates the slice it returns, so again the receiver is not written.\<close>

definition ChainInfo_Unmarshal :: "chain_info \<Rightarrow> bytes \<Rightarrow> chain_info \<times> go_error option" where
  "ChainInfo_Unmarshal c data =
     (if length data \<noteq> ChainInfoBytesSize then (c, Some (Errorf ''invalid data length''))
      else let temporary = copy_to (ChainInfo_Bytes c) data in (c, None))"

definition NormalizeHash :: "string \<Rightarrow> string" where
  "NormalizeHash hash = ToLower (TrimPrefix hash ''0x'')"

definition NormalizeAddress :: "string \<Rightarrow> u8 \<Rightarrow> string" where
  "NormalizeAddress address chainType =
     (if chainType = ChainTypeEVM then
        let address = ToLower address in
        if \<not> HasPrefix address ''0x'' then ''0x'' @ address else address
      else address)"

section \<open>Bytes\<close>

text \<open>The id that fits in seven bytes.\<close>

definition low56 :: "u64 \<Rightarrow> u64" where
  "low56 w = of_nat (unat w mod 2 ^ 56)"

lemma low56_small: "unat w < 2 ^ 56 \<Longrightarrow> low56 w = w"
  by (simp add: low56_def)

lemma be_bytes_drop1: "drop 1 (be_bytes (Suc k) n) = be_bytes k (n mod 256 ^ k)"
proof -
  let ?bs = "be_bytes (Suc k) n"
  obtain b bs where bb: "?bs = b # bs"
    by (cases ?bs) (auto dest: arg_cong [where f = length])
  then have len: "length bs = k"
    using length_be_bytes [of "Suc k" n] by simp
  have "be_nat bs < 256 ^ k" using be_nat_bound [of bs] len by simp
  moreover have "be_nat ?bs = unat b * 256 ^ k + be_nat bs"
    unfolding bb be_nat_Cons len ..
  ultimately have "be_nat bs = n mod 256 ^ k"
    unfolding be_nat_be_bytes
    by (metis mod_less mod_mod_cancel mod_mult_self3 le_imp_power_dvd le_SucI order_refl)
  with be_bytes_be_nat [of bs] len bb show ?thesis by simp
qed

lemma PutUint64_drop1: "0 # drop 1 (BigEndian_PutUint64 w) = BigEndian_PutUint64 (low56 w)"
proof -
  have small: "unat (low56 w) = unat w mod 2 ^ 56"
    by (simp add: low56_def unat_of_nat)
  have "0 # drop 1 (BigEndian_PutUint64 w) = 0 # be_bytes 7 (unat w mod 256 ^ 7)"
    using be_bytes_drop1 [of 7 "unat w"] by (simp add: BigEndian_PutUint64_def)
  also have "\<dots> = be_bytes 8 (be_nat (0 # be_bytes 7 (unat w mod 256 ^ 7)))"
    using be_bytes_be_nat [of "0 # be_bytes 7 (unat w mod 256 ^ 7)"] by simp
  also have "be_nat (0 # be_bytes 7 (unat w mod 256 ^ 7)) = unat w mod 2 ^ 56"
    by (simp add: be_nat_Cons be_nat_be_bytes)
  finally show ?thesis by (simp add: BigEndian_PutUint64_def small)
qed

lemma Uint64_zero_head: "BigEndian_Uint64 (0 # drop 1 (BigEndian_PutUint64 w)) = low56 w"
  by (simp only: PutUint64_drop1 Uint64_PutUint64)

lemma ChainInfo_Bytes_alt: "ChainInfo_Bytes dc = chain_type dc # drop 1 (BigEndian_PutUint64 (chain_id dc))"
  by (simp add: ChainInfo_Bytes_def ChainInfoBytesSize_def Let_def eval_nat_numeral)

lemma length_ChainInfo_Bytes [simp, len_simps]: "length (ChainInfo_Bytes dc) = 8"
  by (simp add: ChainInfo_Bytes_alt)

lemma NewChainInfoFromBytes_eq:
  "NewChainInfoFromBytes bs =
     (if length bs = 8 \<and> ValidateChainType (bs ! 0)
      then Some \<lparr>chain_type = bs ! 0, chain_id = BigEndian_Uint64 (bs[0 := 0])\<rparr> else None)"
  by (simp add: NewChainInfoFromBytes_def ChainInfoBytesSize_def Let_def)

lemma ChainInfoBytes_ChainID_eq:
  "length c = 8 \<Longrightarrow> ChainInfoBytes_ChainID c = BigEndian_Uint64 (c[0 := 0])"
  by (simp add: ChainInfoBytes_ChainID_def ChainInfoBytes_Bytes_def ChainInfoBytesSize_def)

lemma bytes_of_id: "length bs = 8 \<Longrightarrow> drop 1 (BigEndian_PutUint64 (BigEndian_Uint64 (bs[0 := 0]))) = drop 1 bs"
  by (simp add: PutUint64_Uint64)

lemma byte_list_ne: "length bs = 8 \<Longrightarrow> bs ! 0 # drop 1 bs = bs"
  by (cases bs) auto

lemma chain_id_bound: "length bs = 8 \<Longrightarrow> unat (BigEndian_Uint64 (bs[0 := 0])) < 2 ^ 56"
proof -
  assume l: "length bs = 8"
  then obtain b cs where bs: "bs = b # cs" "length cs = 7"
    by (cases bs) auto
  have "unat (BigEndian_Uint64 (0 # cs)) = be_nat (0 # cs)"
    by (rule unat_Uint64) (simp add: bs)
  also have "\<dots> < 2 ^ 56"
    using be_nat_bound [of cs] bs(2) by (simp add: be_nat_Cons)
  finally show ?thesis by (simp add: bs(1))
qed

lemma ChainInfo_of_bytes:
  assumes "NewChainInfoFromBytes bs = Some ci"
  shows "ChainInfo_Bytes ci = bs \<and> ValidateChainType (chain_type ci) \<and> unat (chain_id ci) < 2 ^ 56"
proof -
  from assms have l: "length bs = 8" and v: "ValidateChainType (bs ! 0)"
    and ci: "ci = \<lparr>chain_type = bs ! 0, chain_id = BigEndian_Uint64 (bs[0 := 0])\<rparr>"
    by (auto simp: NewChainInfoFromBytes_eq split: if_splits)
  have "ChainInfo_Bytes ci = bs ! 0 # drop 1 bs"
    by (simp add: ChainInfo_Bytes_alt ci bytes_of_id [OF l, simplified])
  then show ?thesis
    using v ci byte_list_ne [OF l] chain_id_bound [OF l] by simp
qed

text \<open>
  C37: reading back the eight bytes a chain writes gives the chain again, with its id cut to
  the low seven bytes; a chain with an unknown type is refused.
\<close>

theorem NewChainInfoFromBytes_Bytes:
  "NewChainInfoFromBytes (ChainInfo_Bytes dc) =
     (if ValidateChainType (chain_type dc)
      then Some (dc\<lparr>chain_id := low56 (chain_id dc)\<rparr>) else None)"
  using Uint64_zero_head [of "chain_id dc"]
  by (simp add: NewChainInfoFromBytes_eq ChainInfo_Bytes_alt)

text \<open>
  The parser of the eight bytes accepts nothing it could not have written: the bytes of
  an accepted chain are the input, and the id of an accepted chain fits in seven bytes.
\<close>

theorem ChainInfo_Bytes_NewChainInfoFromBytes:
  assumes "NewChainInfoFromBytes bs = Some ci"
  shows "ChainInfo_Bytes ci = bs \<and> ValidateChainType (chain_type ci) \<and> unat (chain_id ci) < 2 ^ 56"
  using assms by (rule ChainInfo_of_bytes)

theorem ChainInfo_Bytes_NewChainInfoFromBytes_witness:
  "ChainInfo_Bytes \<lparr>chain_type = 1, chain_id = 11155111\<rparr> = [1, 0, 0, 0, 0, 170, 54, 167]"
proof -
  have "NewChainInfoFromBytes [1, 0, 0, 0, 0, 170, 54, 167] =
      Some \<lparr>chain_type = 1, chain_id = 11155111\<rparr>"
    by (simp add: NewChainInfoFromBytes_eq ValidateChainType_def chain_type_defs
        BigEndian_Uint64_def be_nat_def)
  from ChainInfo_Bytes_NewChainInfoFromBytes [OF this] show ?thesis by simp
qed

section \<open>Text\<close>

lemma ChainTypeFromString_String:
  "ChainTypeString t = Some s \<Longrightarrow> ChainTypeFromString s = Some t \<and> SEPARATOR \<notin> set s"
  by (auto simp: ChainTypeString_def ChainTypeFromString_def SEPARATOR_def split: if_splits)

lemma ChainTypeString_FromString:
  "ChainTypeFromString s = Some t \<Longrightarrow> ChainTypeString t = Some s"
  by (auto simp: ChainTypeString_def ChainTypeFromString_def chain_type_defs split: if_splits)

lemma valid_chain_type_cases:
  "ValidateChainType t \<Longrightarrow> t = 0 \<or> t = 1 \<or> t = 2 \<or> t = 3"
proof -
  assume "ValidateChainType t"
  then have "unat t \<le> 3"
    by (simp add: ValidateChainType_def ChainTypeCosmos_def word_le_nat_alt)
  then have "unat t = 0 \<or> unat t = 1 \<or> unat t = 2 \<or> unat t = 3" by linarith
  then show ?thesis by (simp add: word_unat_eq_iff)
qed

lemma ValidateChainType_iff: "ValidateChainType t \<longleftrightarrow> (\<exists>s. ChainTypeString t = Some s)"
proof
  assume "ValidateChainType t"
  then have "t = 0 \<or> t = 1 \<or> t = 2 \<or> t = 3" by (rule valid_chain_type_cases)
  then show "\<exists>s. ChainTypeString t = Some s"
    by (auto simp: ChainTypeString_def chain_type_defs)
next
  assume "\<exists>s. ChainTypeString t = Some s"
  then show "ValidateChainType t"
    by (auto simp: ChainTypeString_def ValidateChainType_def chain_type_defs split: if_splits)
qed

lemma FromString_Ok_iff:
  "ChainInfoBytes_FromString s = Ok c \<longleftrightarrow>
     (\<exists>t name ds n. ChainTypeString t = Some name \<and> s = name @ SEPARATOR # ds
        \<and> SEPARATOR \<notin> set ds \<and> ParseUint ds 64 = (n, None)
        \<and> c = t # drop 1 (BigEndian_PutUint64 (of_nat n)))" (is "?l = ?r")
proof
  assume ?l
  then obtain a b where ab: "Split SEPARATOR s = [a, b]"
    by (auto simp: ChainInfoBytes_FromString_def split: list.splits)
  with \<open>?l\<close> obtain t n where tn: "ChainTypeFromString a = Some t" "ParseUint b 64 = (n, None)"
    "c = t # drop 1 (BigEndian_PutUint64 (of_nat n))"
    by (auto simp: ChainInfoBytes_FromString_def ChainType_FromString_def Let_def
        split: option.splits prod.splits)
  have s: "s = a @ SEPARATOR # b" by (rule Split_pair [OF ab])
  have "SEPARATOR \<notin> set a"
    using ChainTypeFromString_String [OF ChainTypeString_FromString [OF tn(1)]] by simp
  then have "Split SEPARATOR b = [b]" using ab s by (simp add: Split_append)
  moreover have "SEPARATOR \<notin> set b"
  proof
    assume "SEPARATOR \<in> set b"
    then obtain u v where "b = u @ SEPARATOR # v" "SEPARATOR \<notin> set u"
      by (meson split_list_first)
    with calculation show False by (auto simp: Split_append)
  qed
  ultimately show ?r using tn s ChainTypeString_FromString [OF tn(1)] by blast
next
  assume ?r
  then obtain t name ds n where *: "ChainTypeString t = Some name" "s = name @ SEPARATOR # ds"
    "SEPARATOR \<notin> set ds" "ParseUint ds 64 = (n, None)"
    "c = t # drop 1 (BigEndian_PutUint64 (of_nat n))" by blast
  have "SEPARATOR \<notin> set name" "ChainTypeFromString name = Some t"
    using ChainTypeFromString_String [OF *(1)] by auto
  then show ?l
    using * by (simp add: ChainInfoBytes_FromString_def Split_append Split_fresh
        ChainType_FromString_def Let_def)
qed

text \<open>
  C38: the text of a well-formed chain of a known type parses back to the same eight bytes.
\<close>

theorem FromString_String:
  assumes "wf_chain_info_bytes c" and "ValidateChainType (ChainInfoBytes_ChainType c)"
  shows "ChainInfoBytes_FromString (ChainInfoBytes_String c) = Ok c"
proof -
  have l: "length c = 8" using assms(1) by (simp add: wf_chain_info_bytes_def ChainInfoBytesSize_def)
  obtain name where name: "ChainTypeString (c ! 0) = Some name"
    using assms(2) by (auto simp: ValidateChainType_iff ChainInfoBytes_ChainType_def)
  let ?n = "unat (ChainInfoBytes_ChainID c)"
  have "?n < 2 ^ 64" using unsigned_less [of "ChainInfoBytes_ChainID c", where ?'a = nat] by simp
  then have p: "ParseUint (decimal ?n) 64 = (?n, None)" by (rule ParseUint_decimal)
  have bar: "SEPARATOR \<notin> set (decimal ?n)" by (simp add: SEPARATOR_def decimal_no_bar)
  have c: "c = c ! 0 # drop 1 (BigEndian_PutUint64 (of_nat ?n))"
    using byte_list_ne [OF l] bytes_of_id [OF l] by (simp add: ChainInfoBytes_ChainID_eq [OF l])
  have "ChainInfoBytes_String c = name @ SEPARATOR # decimal ?n"
    by (simp add: ChainInfoBytes_String_def ChainType_String_def ChainInfoBytes_ChainType_def name)
  then show ?thesis
    unfolding FromString_Ok_iff using name p bar c by blast
qed

theorem FromString_String_witness:
  "ChainInfoBytes_FromString (ChainInfoBytes_String [1, 0, 0, 0, 0, 0, 0, 97])
     = Ok [1, 0, 0, 0, 0, 0, 0, 97]"
  by (rule FromString_String)
    (simp_all add: wf_chain_info_bytes_def ChainInfoBytesSize_def ValidateChainType_def
      chain_type_defs ChainInfoBytes_ChainType_def)

text \<open>
  What the text parser accepts. It accepts exactly a known type name, the separator and
  a decimal number below \<open>2^64\<close>, and then yields that type with the number reduced modulo
  \<open>2^56\<close>: an id of \<open>2^56\<close> or more is accepted and silently truncated.
\<close>

theorem FromString_meaning:
  "ChainInfo_FromString s = Ok ci \<longleftrightarrow>
     (\<exists>name ds n. ChainTypeString (chain_type ci) = Some name \<and> s = name @ SEPARATOR # ds
        \<and> SEPARATOR \<notin> set ds \<and> ParseUint ds 64 = (n, None) \<and> chain_id ci = low56 (of_nat n))"
  (is "_ \<longleftrightarrow> ?r")
proof -
  have field: "ChainInfoBytes_ChainType (t # drop 1 (BigEndian_PutUint64 w)) = t"
    "ChainInfoBytes_ChainID (t # drop 1 (BigEndian_PutUint64 w)) = low56 w" for t w
    using Uint64_zero_head [of w]
    by (simp_all add: ChainInfoBytes_ChainType_def ChainInfoBytes_ChainID_eq)
  have "ChainInfo_FromString s = Ok ci \<longleftrightarrow>
      (\<exists>c. ChainInfoBytes_FromString s = Ok c \<and>
        ChainInfoBytes_ChainType c = chain_type ci \<and> ChainInfoBytes_ChainID c = chain_id ci)"
    by (cases ci) (auto simp: ChainInfo_FromString_def outcome_simps)
  also have "\<dots> \<longleftrightarrow> ?r"
  proof
    assume "\<exists>c. ChainInfoBytes_FromString s = Ok c \<and>
        ChainInfoBytes_ChainType c = chain_type ci \<and> ChainInfoBytes_ChainID c = chain_id ci"
    then obtain t name ds n where "ChainTypeString t = Some name" "s = name @ SEPARATOR # ds"
      "SEPARATOR \<notin> set ds" "ParseUint ds 64 = (n, None)"
      "t = chain_type ci" "low56 (of_nat n) = chain_id ci"
      unfolding FromString_Ok_iff by (metis field)
    then show ?r by metis
  next
    assume ?r
    then show "\<exists>c. ChainInfoBytes_FromString s = Ok c \<and>
        ChainInfoBytes_ChainType c = chain_type ci \<and> ChainInfoBytes_ChainID c = chain_id ci"
      unfolding FromString_Ok_iff by (metis field)
  qed
  finally show ?thesis .
qed

text \<open>
  Unmarshalling never changes its receiver, whatever the data: both methods copy into
  a temporary. Data of the right length is reported as read.
\<close>

theorem Unmarshal_discards:
  "fst (ChainInfoBytes_Unmarshal c data) = c \<and> fst (ChainInfo_Unmarshal d data) = d
     \<and> (snd (ChainInfo_Unmarshal d data) = None \<longleftrightarrow> length data = ChainInfoBytesSize)"
  by (simp add: ChainInfoBytes_Unmarshal_def ChainInfo_Unmarshal_def Let_def)

lemma MarshalTo_full:
  "length data = 8 \<Longrightarrow> ChainInfo_MarshalTo c data = (ChainInfo_Bytes c, 8)"
  by (simp add: ChainInfo_MarshalTo_def ChainInfoBytesSize_def)

section \<open>Normal forms of hashes and addresses\<close>

lemma lower_0x: "ToLower (''0x'' @ s) = ''0x'' @ ToLower s"
  by (simp add: ToLower_def lower_char_def)

lemma NormalizeHash_0x: "NormalizeHash (''0x'' @ hex_encode bs) = hex_encode bs"
  using TrimPrefix_append [of "''0x''" "hex_encode bs"] by (simp add: NormalizeHash_def)

text \<open>
  An EVM address in normal form is lower case, starts with \<open>0x\<close> and is its own normal
  form; addresses of other chains are kept as they are.
\<close>

theorem NormalizeAddress_normal:
  "NormalizeAddress (NormalizeAddress a t) t = NormalizeAddress a t \<and>
   (if t = ChainTypeEVM
    then HasPrefix (NormalizeAddress a t) ''0x''
      \<and> ToLower (NormalizeAddress a t) = NormalizeAddress a t
    else NormalizeAddress a t = a)"
  using lower_0x [of "ToLower a"] HasPrefix_append [of "''0x''" "ToLower a"]
  by (auto simp: NormalizeAddress_def Let_def)

end
