(* ===== verification/Merkle.thy ===== *)
theory Merkle
  imports Prelude
begin

text \<open>
  \<open>pkg/btc/merkle.go\<close>: the Merkle branch of a transaction in its block and its check. The
  double SHA-256 of \<open>chainhash\<close> and the parser of transaction ids are parameters. The lemmas
  show that the branch computed for a transaction verifies against the block's root, that
  its length is the height of the tree, and that a verifying branch binds the transaction up
  to a hash collision.
\<close>

section \<open>Model\<close>

type_synonym hash = bytes

record merkle_proof =
  Position :: int
  Path :: "hash list"
  Root :: hash

definition ConcatProofPath :: "merkle_proof \<Rightarrow> bytes" where
  "ConcatProofPath m = concat (Path m)"

text \<open>
  One level of the tree from the level below. The caller pads the level to an even length,
  so the singleton case is not reached.
\<close>

fun next_level :: "(bytes \<Rightarrow> bytes) \<Rightarrow> hash list \<Rightarrow> hash list" where
  "next_level DoubleHashB (left # right # rest) =
     DoubleHashB (left @ right) # next_level DoubleHashB rest"
| "next_level DoubleHashB [left] = []"
| "next_level DoubleHashB [] = []"

definition pad_even :: "hash list \<Rightarrow> hash list" where
  "pad_even hs = (if length hs mod 2 \<noteq> 0 then hs @ [last hs] else hs)"

definition sibling :: "nat \<Rightarrow> nat" where
  "sibling workingIndex = (if workingIndex mod 2 = 0 then workingIndex + 1 else workingIndex - 1)"

lemma length_next_level [simp, len_simps]: "length (next_level dh hs) = length hs div 2"
  by (induction dh hs rule: next_level.induct) auto

lemma length_pad_even [len_simps]: "length (pad_even hs) = 2 * ((length hs + 1) div 2)"
  by (simp add: pad_even_def) presburger

text \<open>The loop of \<open>createMerkleBranchAndRoot\<close>; indexing outside the level is a panic.\<close>

function merkle_loop ::
  "(bytes \<Rightarrow> bytes) \<Rightarrow> hash list \<Rightarrow> nat \<Rightarrow> hash list \<Rightarrow> (hash list \<times> hash) outcome" where
  "merkle_loop DoubleHashB workingHashes workingIndex merkle =
     (if length workingHashes > 1 then
        let padded = pad_even workingHashes;
            siblingIndex = sibling workingIndex
        in and_then (index_at padded siblingIndex)
             (\<lambda>s. merkle_loop DoubleHashB (next_level DoubleHashB padded)
                     (siblingIndex div 2) (merkle @ [s]))
      else and_then (index_at workingHashes 0) (\<lambda>root. Ok (merkle, root)))"
  by pat_completeness auto
termination
  by (relation "measure (\<lambda>(_, hs, _, _). length hs)") (auto simp: length_pad_even)

declare merkle_loop.simps [simp del]

definition createMerkleBranchAndRoot ::
  "(bytes \<Rightarrow> bytes) \<Rightarrow> hash list \<Rightarrow> nat \<Rightarrow> (hash list \<times> hash) outcome" where
  "createMerkleBranchAndRoot DoubleHashB hashes index = merkle_loop DoubleHashB hashes index []"

definition calculateMerkleProofPath ::
  "(bytes \<Rightarrow> bytes) \<Rightarrow> (string \<Rightarrow> hash outcome) \<Rightarrow> string list \<Rightarrow> int \<Rightarrow> merkle_proof outcome" where
  "calculateMerkleProofPath DoubleHashB NewHashFromStr txids txPosition =
     (if txPosition < 0 \<or> txPosition \<ge> int (length txids) then
        Err (Errorf ''invalid transaction position'')
      else if length txids = 0 then Err (Errorf ''no transactions provided'')
      else
        and_then
          (collect (\<lambda>txid. wrapf ''failed to convert transaction hash to chainhash''
                              (NewHashFromStr txid)) txids)
          (\<lambda>hashes. and_then (createMerkleBranchAndRoot DoubleHashB hashes (nat txPosition))
             (\<lambda>(proof_path, root).
                Ok \<lparr>Position = txPosition, Path = proof_path, Root = root\<rparr>)))"

text \<open>The loop of \<open>VerifyMerkleProof\<close>; \<open>i\<close> counts the rounds.\<close>

fun verify_loop :: "(bytes \<Rightarrow> bytes) \<Rightarrow> int \<Rightarrow> nat \<Rightarrow> hash \<Rightarrow> hash list \<Rightarrow> hash" where
  "verify_loop DoubleHashB position i currentHash [] = currentHash"
| "verify_loop DoubleHashB position i currentHash (siblingHash # rest) =
     (let isLeft = (position div 2 ^ i) mod 2 = 0 in
      verify_loop DoubleHashB position (i + 1)
        (if isLeft then DoubleHashB (currentHash @ siblingHash)
         else DoubleHashB (siblingHash @ currentHash)) rest)"

definition VerifyMerkleProof :: "(bytes \<Rightarrow> bytes) \<Rightarrow> hash \<Rightarrow> merkle_proof \<Rightarrow> bool" where
  "VerifyMerkleProof DoubleHashB txHash p =
     (if length (Path p) = 0 then txHash = Root p
      else verify_loop DoubleHashB (Position p) 0 txHash (Path p) = Root p)"

section \<open>Completeness\<close>

lemma VerifyMerkleProof_loop:
  "VerifyMerkleProof dh t p \<longleftrightarrow> verify_loop dh (Position p) 0 t (Path p) = Root p"
  by (auto simp: VerifyMerkleProof_def)

lemma verify_loop_shift:
  "verify_loop dh pos (Suc i) c path = verify_loop dh (pos div 2) i c path"
proof (induction path arbitrary: i c)
  case (Cons s path)
  have "pos div 2 ^ Suc i = pos div 2 div 2 ^ i"
    by (simp add: div_mult2_eq mult.commute zdiv_zmult2_eq)
  with Cons show ?case by (simp add: Let_def)
qed simp

lemma nth_next_level:
  "2 * i + 1 < length hs \<Longrightarrow> next_level dh hs ! i = dh (hs ! (2 * i) @ hs ! (2 * i + 1))"
proof (induction dh hs arbitrary: i rule: next_level.induct)
  case (1 dh l r rest)
  then show ?case by (cases i) auto
qed auto

lemma pad_even_nth: "i < length hs \<Longrightarrow> pad_even hs ! i = hs ! i"
  by (simp add: pad_even_def nth_append)

lemma sibling_div: "sibling i div 2 = i div 2"
  by (simp add: sibling_def) presburger

text \<open>The parent of an index, from the node and its sibling in the right order.\<close>

lemma parent_hash:
  assumes "i < length hs"
  shows "next_level dh (pad_even hs) ! (i div 2) =
     (if i mod 2 = 0 then dh (hs ! i @ pad_even hs ! sibling i)
      else dh (pad_even hs ! sibling i @ hs ! i))"
proof -
  have b: "2 * (i div 2) + 1 < length (pad_even hs)"
    using assms unfolding length_pad_even by presburger
  show ?thesis
  proof (cases "i mod 2 = 0")
    case True
    then have "2 * (i div 2) = i" by presburger
    with True b assms show ?thesis
      using nth_next_level [OF b, of dh] by (simp add: sibling_def pad_even_nth)
  next
    case False
    then have "2 * (i div 2) + 1 = i" by presburger
    moreover from this have "2 * (i div 2) = i - 1" by linarith
    ultimately show ?thesis
      using False nth_next_level [OF b, of dh] assms by (simp add: sibling_def pad_even_nth)
  qed
qed

lemma sibling_bound: "i < length hs \<Longrightarrow> sibling i < length (pad_even hs)"
  unfolding length_pad_even sibling_def by presburger

text \<open>The root by levels, which does not mention a position.\<close>

function merkle_root :: "(bytes \<Rightarrow> bytes) \<Rightarrow> hash list \<Rightarrow> hash" where
  "merkle_root dh hs = (if length hs > 1 then merkle_root dh (next_level dh (pad_even hs)) else hd hs)"
  by pat_completeness auto
termination
  by (relation "measure (\<lambda>(_, hs). length hs)") (auto simp: length_pad_even)

declare merkle_root.simps [simp del]

text \<open>The branch by levels.\<close>

function merkle_path :: "(bytes \<Rightarrow> bytes) \<Rightarrow> hash list \<Rightarrow> nat \<Rightarrow> hash list" where
  "merkle_path dh hs i =
     (if length hs > 1
      then pad_even hs ! sibling i # merkle_path dh (next_level dh (pad_even hs)) (i div 2)
      else [])"
  by pat_completeness auto
termination
  by (relation "measure (\<lambda>(_, hs, _). length hs)") (auto simp: length_pad_even)

declare merkle_path.simps [simp del]

lemma merkle_path_leaf: "\<not> length hs > 1 \<Longrightarrow> merkle_path dh hs i = []"
  by (simp add: merkle_path.simps [of dh hs i])

lemma merkle_path_step:
  "length hs > 1 \<Longrightarrow> merkle_path dh hs i =
     pad_even hs ! sibling i # merkle_path dh (next_level dh (pad_even hs)) (i div 2)"
  by (simp add: merkle_path.simps [of dh hs i])

lemma merkle_root_step:
  "length hs > 1 \<Longrightarrow> merkle_root dh hs = merkle_root dh (next_level dh (pad_even hs))"
  by (simp add: merkle_root.simps [of dh hs])

lemma index_up: "i < length hs \<Longrightarrow> i div 2 < length (next_level dh (pad_even hs))"
  by (simp add: length_pad_even)

lemma merkle_loop_eq:
  "i < length hs \<Longrightarrow> merkle_loop dh hs i acc = Ok (acc @ merkle_path dh hs i, merkle_root dh hs)"
proof (induction dh hs i acc rule: merkle_loop.induct)
  case (1 dh hs i acc)
  show ?case
  proof (cases "length hs > 1")
    case False
    with "1.prems" obtain h where "hs = [h]" by (cases hs) auto
    then show ?thesis
      by (simp add: merkle_loop.simps [of dh "[h]"] merkle_root.simps [of dh "[h]"] index_at_def
          merkle_path_leaf)
  next
    case True
    let ?s = "pad_even hs ! sibling i" and ?up = "next_level dh (pad_even hs)"
    have ix: "index_at (pad_even hs) (sibling i) = Ok ?s"
      using sibling_bound [OF "1.prems"] by (simp add: index_at_def)
    have "sibling i div 2 < length ?up"
      using index_up [OF "1.prems"] by (simp add: sibling_div)
    then have "merkle_loop dh ?up (i div 2) (acc @ [?s])
        = Ok ((acc @ [?s]) @ merkle_path dh ?up (i div 2), merkle_root dh ?up)"
      using "1.IH" [OF True refl refl ix] by (simp add: sibling_div)
    with True ix show ?thesis
      by (subst merkle_loop.simps)
        (simp add: Let_def sibling_div merkle_path_step merkle_root_step)
  qed
qed

lemma merkle_path_verifies:
  "i < length hs \<Longrightarrow> verify_loop dh (int i) 0 (hs ! i) (merkle_path dh hs i) = merkle_root dh hs"
proof (induction dh hs i rule: merkle_path.induct)
  case (1 dh hs i)
  show ?case
  proof (cases "length hs > 1")
    case False
    with "1.prems" obtain h where "hs = [h]" by (cases hs) auto
    with "1.prems" show ?thesis by (simp add: merkle_path_leaf merkle_root.simps [of dh "[h]"])
  next
    case True
    let ?up = "next_level dh (pad_even hs)"
    have ih: "verify_loop dh (int (i div 2)) 0 (?up ! (i div 2)) (merkle_path dh ?up (i div 2))
        = merkle_root dh ?up"
      using "1.IH" [OF True] index_up [OF "1.prems"] by simp
    have parity: "(int i mod 2 = 0) = (i mod 2 = 0)" by presburger
    have shift: "verify_loop dh (int i) (Suc 0) c p = verify_loop dh (int (i div 2)) 0 c p" for c p
      by (simp add: verify_loop_shift zdiv_int)
    show ?thesis
      using ih parent_hash [OF "1.prems", of dh] True
      by (simp add: Let_def merkle_path_step merkle_root_step parity shift)
  qed
qed

lemma halving_bound:
  "n > 1 \<Longrightarrow> P < 2 * ((n + 1) div 2) \<Longrightarrow> P = 1 \<or> even P \<Longrightarrow> P < (n :: nat)"
  by presburger

lemma merkle_path_height:
  "0 < length hs \<Longrightarrow> length hs \<le> 2 ^ length (merkle_path dh hs i)
     \<and> 2 ^ length (merkle_path dh hs i) < 2 * length hs"
proof (induction dh hs i rule: merkle_path.induct)
  case (1 dh hs i)
  show ?case
  proof (cases "length hs > 1")
    case False
    with "1.prems" have "length hs = 1" by linarith
    then show ?thesis by (simp add: merkle_path_leaf)
  next
    case True
    let ?up = "next_level dh (pad_even hs)"
    let ?p = "merkle_path dh ?up (i div 2)"
    have up: "length ?up = (length hs + 1) div 2" by (simp add: length_pad_even)
    have ih: "length ?up \<le> 2 ^ length ?p \<and> 2 ^ length ?p < 2 * length ?up"
      using "1.IH" [OF True] up True by auto
    have lt: "2 ^ length ?p < 2 * ((length hs + 1) div 2)" using ih unfolding up by simp
    have "(2 :: nat) ^ length ?p = 1 \<or> even ((2 :: nat) ^ length ?p)" by simp
    from halving_bound [OF True lt this] have "2 ^ length ?p < length hs" .
    moreover have "length hs \<le> 2 * 2 ^ length ?p" using ih unfolding up by linarith
    ultimately show ?thesis using True by (simp add: merkle_path_step)
  qed
qed

lemma next_level_hashes: "\<forall>b. length (dh b) = 32 \<Longrightarrow> h \<in> set (next_level dh xs) \<Longrightarrow> length h = 32"
  by (induction dh xs rule: next_level.induct) auto

lemma merkle_path_hashes:
  "i < length hs \<Longrightarrow> \<forall>h \<in> set hs. length h = 32 \<Longrightarrow> \<forall>b. length (dh b) = 32 \<Longrightarrow>
     \<forall>h \<in> set (merkle_path dh hs i). length h = 32"
proof (induction dh hs i rule: merkle_path.induct)
  case (1 dh hs i)
  show ?case
  proof (cases "length hs > 1")
    case True
    then have "set (pad_even hs) \<subseteq> set hs" by (auto simp: pad_even_def intro: last_in_set)
    then have "length (pad_even hs ! sibling i) = 32"
      using sibling_bound [OF "1.prems"(1)] "1.prems"(2) nth_mem by blast
    with 1 True index_up [OF "1.prems"(1), of dh] next_level_hashes [OF "1.prems"(3)]
    show ?thesis by (simp add: merkle_path_step)
  qed (simp add: merkle_path_leaf)
qed

lemma createMerkleBranchAndRoot_eq:
  "i < length hs \<Longrightarrow> createMerkleBranchAndRoot dh hs i = Ok (merkle_path dh hs i, merkle_root dh hs)"
  by (simp add: createMerkleBranchAndRoot_def merkle_loop_eq)

text \<open>
  C19: for every position in a block, the branch that is computed verifies for the
  transaction at that position, its root does not depend on the position, and its length is
  the height of the tree.
\<close>

theorem merkle_branch_verifies:
  assumes "i < length hashes"
  shows "\<exists>path. createMerkleBranchAndRoot dh hashes i = Ok (path, merkle_root dh hashes)
    \<and> VerifyMerkleProof dh (hashes ! i)
        \<lparr>Position = int i, Path = path, Root = merkle_root dh hashes\<rparr>
    \<and> length hashes \<le> 2 ^ length path \<and> 2 ^ length path < 2 * length hashes"
proof -
  have "0 < length hashes" using assms by linarith
  from createMerkleBranchAndRoot_eq [OF assms] merkle_path_verifies [OF assms]
    merkle_path_height [OF this, of dh i]
  show ?thesis by (auto simp: VerifyMerkleProof_loop)
qed

theorem merkle_branch_verifies_witness:
  "\<exists>path. createMerkleBranchAndRoot (take 1) [[1], [2], [3]] 2
      = Ok (path, merkle_root (take 1) [[1], [2], [3]])
    \<and> VerifyMerkleProof (take 1) ([[1], [2], [3]] ! 2)
        \<lparr>Position = int 2, Path = path, Root = merkle_root (take 1) [[1], [2], [3]]\<rparr>
    \<and> length [[1 :: byte], [2], [3]] \<le> 2 ^ length path
    \<and> 2 ^ length path < 2 * length [[1 :: byte], [2], [3]]"
  by (rule merkle_branch_verifies) simp

section \<open>Binding\<close>

lemma verify_loop_binding:
  assumes "verify_loop dh pos i a p = verify_loop dh pos i b q"
    and "length p = length q" and "length a = 32" and "length b = 32"
    and "\<forall>h \<in> set p \<union> set q. length h = 32" and "\<forall>x. length (dh x) = 32"
  shows "a = b \<and> p = q \<or> (\<exists>x y. x \<noteq> y \<and> length x = 64 \<and> length y = 64 \<and> dh x = dh y)"
  using assms
proof (induction p arbitrary: i a b q)
  case (Cons s p)
  then obtain t q' where q: "q = t # q'" by (cases q) auto
  let ?j = "\<lambda>c r. if (pos div 2 ^ i) mod 2 = 0 then c @ r else r @ c"
  have eq: "verify_loop dh pos (i + 1) (dh (?j a s)) p = verify_loop dh pos (i + 1) (dh (?j b t)) q'"
    using Cons.prems(1) q by (auto simp: Let_def split: if_splits)
  have ih: "dh (?j a s) = dh (?j b t) \<and> p = q'
      \<or> (\<exists>x y. x \<noteq> y \<and> length x = 64 \<and> length y = 64 \<and> dh x = dh y)"
    using Cons.prems q by (intro Cons.IH [OF eq]) auto
  have len: "length (?j a s) = 64" "length (?j b t) = 64"
    using Cons.prems q by auto
  have "?j a s = ?j b t \<Longrightarrow> a = b \<and> s = t"
    using Cons.prems(3,4,5) q by (auto split: if_splits)
  with ih len q show ?case by blast
qed auto



lemma calculateMerkleProofPath_cases:
  assumes "collect NewHashFromStr txids = Ok hashes"
  shows "case calculateMerkleProofPath dh NewHashFromStr txids pos of
      Ok p \<Rightarrow> 0 \<le> pos \<and> pos < int (length txids) \<and> Position p = pos
        \<and> Root p = merkle_root dh hashes \<and> VerifyMerkleProof dh (hashes ! nat pos) p
    | Err e \<Rightarrow> pos < 0 \<or> pos \<ge> int (length txids)
    | Panic _ \<Rightarrow> False"
proof (cases "pos < 0 \<or> pos \<ge> int (length txids)")
  case True
  then show ?thesis by (simp add: calculateMerkleProofPath_def)
next
  case False
  have len: "length hashes = length txids" using assms by (simp add: collect_Ok_iff)
  have w: "collect (\<lambda>txid. wrapf m (NewHashFromStr txid)) txids = Ok hashes" for m
    using assms by (simp add: collect_Ok_iff wrapf_Ok_iff)
  have "nat pos < length hashes" using False len by auto
  note createMerkleBranchAndRoot_eq [OF this, of dh] merkle_path_verifies [OF this, of dh]
  with False w show ?thesis
    by (auto simp: calculateMerkleProofPath_def VerifyMerkleProof_loop)
qed

lemma calculated_proof:
  assumes "collect NewHashFromStr txids = Ok hashes"
    and "calculateMerkleProofPath dh NewHashFromStr txids pos = Ok p"
  shows "0 \<le> pos \<and> pos < int (length txids) \<and> Position p = pos
    \<and> Root p = merkle_root dh hashes \<and> VerifyMerkleProof dh (hashes ! nat pos) p"
  using calculateMerkleProofPath_cases [OF assms(1), of pos dh] assms(2) by simp

text \<open>
  C21: the whole call. A position outside the block is refused; inside the block, when every
  transaction id parses, the proof carries the position and a branch that verifies.
\<close>

theorem calculateMerkleProofPath_correct:
  assumes "collect NewHashFromStr txids = Ok hashes"
  shows "case calculateMerkleProofPath dh NewHashFromStr txids pos of
      Ok p \<Rightarrow> 0 \<le> pos \<and> pos < int (length txids) \<and> Position p = pos
        \<and> Root p = merkle_root dh hashes \<and> VerifyMerkleProof dh (hashes ! nat pos) p
    | Err e \<Rightarrow> pos < 0 \<or> pos \<ge> int (length txids)
    | Panic _ \<Rightarrow> False"
  using assms by (rule calculateMerkleProofPath_cases)

theorem calculateMerkleProofPath_correct_witness:
  "case calculateMerkleProofPath (take 1) (\<lambda>s. Ok [of_char (hd s)]) [''a'', ''b'', ''c''] 1 of
      Ok p \<Rightarrow> Position p = 1 \<and> VerifyMerkleProof (take 1) [98] p
    | Err e \<Rightarrow> False
    | Panic _ \<Rightarrow> False"
proof -
  have "collect (\<lambda>s. Ok [of_char (hd s)]) [''a'', ''b'', ''c''] = Ok [[97], [98], [99 :: byte]]"
    by simp
  from calculateMerkleProofPath_correct [OF this, of 1 "take 1"] show ?thesis
    by (auto split: outcome.splits)
qed

lemma length_concat_hashes: "\<forall>h \<in> set hs. length h = 32 \<Longrightarrow> length (concat hs) = 32 * length hs"
  by (induction hs) auto

lemma ConcatProofPath_length:
  "\<forall>h \<in> set (Path p). length h = 32 \<Longrightarrow> length (ConcatProofPath p) = 32 * length (Path p)"
  unfolding ConcatProofPath_def by (rule length_concat_hashes)

end
