(* ===== verification/VaultTx.thy ===== *)
theory VaultTx
  imports BtcConfig ChainInfo Merkle
begin

text \<open>
  \<open>pkg/btc/types.go\<close> and \<open>pkg/btc/parser.go\<close>: recognising a vault transaction by the
  \<open>OP_RETURN\<close> of its first output and turning it into the row that is stored. The decoder of
  the \<open>OP_RETURN\<close> data is shown correct and complete against the wire format it reads, and
  free of out-of-range accesses. The Bitcoin library and node (\<open>btcd\<close>) are the fields of
  \<open>btc_lib\<close>.
\<close>

section \<open>Data\<close>

definition SCALAR_TAG_SIZE :: nat where "SCALAR_TAG_SIZE = 6"
definition VERSION_SIZE :: nat where "VERSION_SIZE = 1"
definition NETWORK_ID_SIZE :: nat where "NETWORK_ID_SIZE = 1"
definition FLAGS_SIZE :: nat where "FLAGS_SIZE = 1"
definition SERVICE_TAG_SIZE :: nat where "SERVICE_TAG_SIZE = 5"
definition SESSION_SEQUENCE_SIZE :: nat where "SESSION_SEQUENCE_SIZE = 8"
definition CUSTODIAN_QUORUM_SIZE :: nat where "CUSTODIAN_QUORUM_SIZE = 1"
definition HASH_SIZE :: nat where "HASH_SIZE = 32"
definition DEST_CHAIN_SIZE :: nat where "DEST_CHAIN_SIZE = 8"
definition DEST_TOKEN_ADDR_SIZE :: nat where "DEST_TOKEN_ADDR_SIZE = 20"
definition DEST_RECIPIENT_ADDR_SIZE :: nat where "DEST_RECIPIENT_ADDR_SIZE = 20"

lemmas size_defs =
  SCALAR_TAG_SIZE_def VERSION_SIZE_def NETWORK_ID_SIZE_def FLAGS_SIZE_def SERVICE_TAG_SIZE_def
  SESSION_SEQUENCE_SIZE_def CUSTODIAN_QUORUM_SIZE_def HASH_SIZE_def DEST_CHAIN_SIZE_def
  DEST_TOKEN_ADDR_SIZE_def DEST_RECIPIENT_ADDR_SIZE_def

text \<open>\<open>VaultTransactionType\<close> counts from 1, \<open>VaultReturnTxOutputType\<close> from 0.\<close>

definition VaultTxTypeStaking :: u8 where "VaultTxTypeStaking = 1"
definition VaultTxTypeRedeem :: u8 where "VaultTxTypeRedeem = 2"

definition VaultTransactionType_String :: "u8 \<Rightarrow> string" where
  "VaultTransactionType_String v =
     (if v = VaultTxTypeStaking then ''staking''
      else if v = VaultTxTypeRedeem then ''redeem'' else ''unknown'')"

definition VaultReturnTxOutputTypeRedeem :: u8 where "VaultReturnTxOutputTypeRedeem = 0"
definition VaultReturnTxOutputTypeStaking :: u8 where "VaultReturnTxOutputTypeStaking = 1"

lemmas output_type_defs = VaultReturnTxOutputTypeRedeem_def VaultReturnTxOutputTypeStaking_def

definition VaultReturnTxOutputType_String :: "u8 \<Rightarrow> string" where
  "VaultReturnTxOutputType_String v =
     (if v = VaultReturnTxOutputTypeStaking then ''staking''
      else if v = VaultReturnTxOutputTypeRedeem then ''redeem'' else ''unknown'')"

definition DestinationTokenAddress_String :: "bytes \<Rightarrow> string" where
  "DestinationTokenAddress_String d = ''0x'' @ hex_encode d"

definition DestinationRecipientAddress_String :: "bytes \<Rightarrow> string" where
  "DestinationRecipientAddress_String d = ''0x'' @ hex_encode d"

record vault_return_tx_output =
  ro_Tag :: bytes
  ro_Version :: u8
  ro_NetworkID :: u8
  ro_Flags :: u8
  ro_ServiceTag :: bytes
  ro_TransactionType :: u8
  ro_CustodianQuorum :: u8
  ro_DestChainType :: u8
  ro_DestChainID :: u64
  ro_DestinationTokenAddress :: bytes
  ro_DestinationRecipientAddress :: bytes
  ro_ScriptPubkey :: bytes
  ro_SessionSequence :: u64
  ro_CustodianGroupUID :: bytes

text \<open>The zero value \<open>&VaultReturnTxOutput{}\<close>.\<close>

definition zero_output :: vault_return_tx_output where
  "zero_output = \<lparr>ro_Tag = replicate 6 0, ro_Version = 0, ro_NetworkID = 0, ro_Flags = 0,
     ro_ServiceTag = replicate 5 0, ro_TransactionType = 0, ro_CustodianQuorum = 0,
     ro_DestChainType = 0, ro_DestChainID = 0, ro_DestinationTokenAddress = replicate 20 0,
     ro_DestinationRecipientAddress = replicate 20 0, ro_ScriptPubkey = [],
     ro_SessionSequence = 0, ro_CustodianGroupUID = replicate 32 0\<rparr>"

text \<open>Transactions of \<open>wire.MsgTx\<close>, as far as the indexer reads them.\<close>

record tx_out =
  Value :: int
  PkScript :: bytes

record out_point =
  OutPoint_Hash :: hash
  OutPoint_Index :: u32

record msg_tx =
  TxIn :: "out_point list"
  TxOut :: "tx_out list"

text \<open>
  The library and the node: \<open>wire.MsgTx\<close> (de)serialisation, transaction hashes and their
  text, double SHA-256 and the RPC \<open>getrawtransaction\<close>.
\<close>

record btc_lib =
  Deserialize :: "bytes \<Rightarrow> msg_tx outcome"
  Serialize :: "msg_tx \<Rightarrow> bytes outcome"
  MsgTx_TxHash :: "msg_tx \<Rightarrow> hash"
  Hash_String :: "hash \<Rightarrow> string"
  NewHashFromStr :: "string \<Rightarrow> hash outcome"
  DoubleHashB :: "bytes \<Rightarrow> bytes"
  GetRawTransaction :: "hash \<Rightarrow> msg_tx outcome"

text \<open>The columns of \<open>chains.VaultTransaction\<close> that the parser fills.\<close>

record vault_transaction =
  vt_Chain :: string
  vt_BlockNumber :: u64
  vt_BlockHash :: string
  vt_TxHash :: string
  vt_TxPosition :: u64
  vt_Timestamp :: u64
  vt_RawTx :: bytes
  vt_ServiceTag :: string
  vt_VaultTxType :: u8
  vt_CovenantQuorum :: u8
  vt_DestinationChain :: u64
  vt_DestinationTokenAddress :: string
  vt_DestinationRecipientAddress :: string
  vt_SessionSequence :: u64
  vt_CustodianGroupUID :: string
  vt_ScriptPubkey :: bytes
  vt_Amount :: u64
  vt_ChangeAmount :: u64
  vt_ChangeAddress :: string
  vt_StakerScriptPubkey :: string
  vt_MerkleProof :: bytes

definition bytes_of_string :: "string \<Rightarrow> bytes" where
  "bytes_of_string s = map (\<lambda>c. of_nat (of_char c)) s"

definition string_of_bytes :: "bytes \<Rightarrow> string" where
  "string_of_bytes bs = map (\<lambda>b. char_of (unat b)) bs"

lemma string_of_bytes_of_string [simp]: "string_of_bytes (bytes_of_string s) = s"
proof -
  have "char_of (unat (of_nat (of_char c) :: byte)) = c" for c
    by (simp add: unat_of_nat)
  then show ?thesis by (simp add: string_of_bytes_def bytes_of_string_def comp_def)
qed

section \<open>The decoder of the return output\<close>

definition parsePoolRedeemVaultReturnTxOutput ::
  "bytes \<Rightarrow> vault_return_tx_output \<Rightarrow> vault_return_tx_output outcome" where
  "parsePoolRedeemVaultReturnTxOutput data v =
     (let v = v\<lparr>ro_TransactionType := VaultReturnTxOutputTypeRedeem\<rparr> in
      if length data < SERVICE_TAG_SIZE + SESSION_SEQUENCE_SIZE + HASH_SIZE then
        Err (Errorf ''insufficient data for pool redeem vault return transaction output'')
      else
        let offset = 0 in
        and_then (sub_slice data offset (offset + SERVICE_TAG_SIZE)) (\<lambda>serviceTag.
        let v = v\<lparr>ro_ServiceTag := copy_to (replicate SERVICE_TAG_SIZE 0) serviceTag\<rparr>;
            offset = offset + SERVICE_TAG_SIZE in
        and_then (sub_slice data offset (offset + SESSION_SEQUENCE_SIZE)) (\<lambda>sequence.
        let v = v\<lparr>ro_SessionSequence := BigEndian_Uint64 sequence\<rparr>;
            offset = offset + SESSION_SEQUENCE_SIZE in
        and_then (sub_slice data offset (offset + HASH_SIZE)) (\<lambda>uid.
        Ok (v\<lparr>ro_CustodianGroupUID := copy_to (replicate HASH_SIZE 0) uid\<rparr>)))))"

definition parseUpcRedeemVaultReturnTxOutput ::
  "bytes \<Rightarrow> vault_return_tx_output \<Rightarrow> vault_return_tx_output outcome" where
  "parseUpcRedeemVaultReturnTxOutput data v =
     (if length data < SERVICE_TAG_SIZE then
        Err (Errorf ''insufficient data for upc redeem vault return transaction output'')
      else
        let v = v\<lparr>ro_TransactionType := VaultReturnTxOutputTypeRedeem\<rparr>; offset = 0 in
        and_then (sub_slice data offset (offset + SERVICE_TAG_SIZE)) (\<lambda>serviceTag.
        Ok (v\<lparr>ro_ServiceTag := copy_to (replicate SERVICE_TAG_SIZE 0) serviceTag\<rparr>)))"

definition parseStakingVaultReturnTxOuput ::
  "bytes \<Rightarrow> vault_return_tx_output \<Rightarrow> vault_return_tx_output outcome" where
  "parseStakingVaultReturnTxOuput data v =
     (let v = v\<lparr>ro_TransactionType := VaultReturnTxOutputTypeStaking\<rparr>; offset = 0 in
      if length data < SERVICE_TAG_SIZE + CUSTODIAN_QUORUM_SIZE + DEST_CHAIN_SIZE
                        + DEST_TOKEN_ADDR_SIZE + DEST_RECIPIENT_ADDR_SIZE then
        Err (Errorf ''insufficient data for staking vault return transaction output'')
      else
        and_then (sub_slice data offset (offset + SERVICE_TAG_SIZE)) (\<lambda>serviceTag.
        let v = v\<lparr>ro_ServiceTag := copy_to (replicate SERVICE_TAG_SIZE 0) serviceTag\<rparr>;
            offset = offset + SERVICE_TAG_SIZE in
        and_then (index_at data offset) (\<lambda>quorum.
        let v = v\<lparr>ro_CustodianQuorum := quorum\<rparr>; offset = offset + 1 in
        and_then (sub_slice data offset (offset + DEST_CHAIN_SIZE)) (\<lambda>chainBytes.
        case NewChainInfoFromBytes chainBytes of
          None \<Rightarrow> Err (Errorf ''failed to parse chain info'')
        | Some chainInfo \<Rightarrow>
            let v = v\<lparr>ro_DestChainType := chain_type chainInfo, ro_DestChainID := chain_id chainInfo\<rparr>;
                offset = offset + DEST_CHAIN_SIZE in
            and_then (sub_slice data offset (offset + DEST_TOKEN_ADDR_SIZE)) (\<lambda>token.
            let v = v\<lparr>ro_DestinationTokenAddress := copy_to (replicate DEST_TOKEN_ADDR_SIZE 0) token\<rparr>;
                offset = offset + DEST_TOKEN_ADDR_SIZE in
            and_then (sub_slice data offset (offset + DEST_RECIPIENT_ADDR_SIZE)) (\<lambda>recipient.
            Ok (v\<lparr>ro_DestinationRecipientAddress :=
                  copy_to (replicate DEST_RECIPIENT_ADDR_SIZE 0) recipient\<rparr>)))))))"

definition ParseVaultReturnTxOutput ::
  "btc_config \<Rightarrow> bytes \<Rightarrow> vault_return_tx_output outcome" where
  "ParseVaultReturnTxOutput config data =
     (if length data < SCALAR_TAG_SIZE + VERSION_SIZE + NETWORK_ID_SIZE + FLAGS_SIZE + SERVICE_TAG_SIZE
      then Err (Errorf ''insufficient data for VaultReturnTxOutput'')
      else
        let v = zero_output; offset = 0 in
        and_then (sub_slice data offset (offset + SCALAR_TAG_SIZE)) (\<lambda>slice.
        let tag = copy_to (replicate SCALAR_TAG_SIZE 0) slice in
        if tag \<noteq> bytes_of_string (VaultTag config) then Err (Errorf ''vault tag mismatch'')
        else
          let offset = offset + SCALAR_TAG_SIZE; v = v\<lparr>ro_Tag := tag\<rparr> in
          and_then (index_at data offset) (\<lambda>version.
          let v = v\<lparr>ro_Version := version\<rparr>; offset = offset + 1 in
          if ro_Version v \<noteq> VaultVersion config then Err (Errorf ''vault version mismatch'')
          else
            and_then (index_at data offset) (\<lambda>networkID.
            let v = v\<lparr>ro_NetworkID := networkID\<rparr>; offset = offset + 1 in
            and_then (index_at data offset) (\<lambda>flags.
            let v = v\<lparr>ro_Flags := flags\<rparr>; offset = offset + 1 in
            and_then (sub_slice data offset (length data)) (\<lambda>rest.
            if flags = 0b01000001 then parsePoolRedeemVaultReturnTxOutput rest v
            else if flags = 0b10000001 then parseUpcRedeemVaultReturnTxOutput rest v
            else parseStakingVaultReturnTxOuput rest v))))))"

section \<open>The wire format\<close>

text \<open>
  The format of the data, written as an encoder: a tag, three bytes, and a body that depends
  on the flags. \<open>wf_output\<close> says which outputs the format can carry: the sizes of the fields,
  the tag and version of the configuration, and zero values in the fields that the body does
  not carry.
\<close>

definition encode_body :: "vault_return_tx_output \<Rightarrow> bytes" where
  "encode_body v =
     (if ro_Flags v = 0x41 then
        ro_ServiceTag v @ BigEndian_PutUint64 (ro_SessionSequence v) @ ro_CustodianGroupUID v
      else if ro_Flags v = 0x81 then ro_ServiceTag v
      else ro_ServiceTag v @ ro_CustodianQuorum v
        # ChainInfo_Bytes \<lparr>chain_type = ro_DestChainType v, chain_id = ro_DestChainID v\<rparr>
        @ ro_DestinationTokenAddress v @ ro_DestinationRecipientAddress v)"

definition encode_output :: "vault_return_tx_output \<Rightarrow> bytes" where
  "encode_output v = ro_Tag v @ ro_Version v # ro_NetworkID v # ro_Flags v # encode_body v"

definition wf_body :: "vault_return_tx_output \<Rightarrow> bool" where
  "wf_body v \<longleftrightarrow> length (ro_ServiceTag v) = 5 \<and>
     (if ro_Flags v = 0x41 then
        ro_TransactionType v = VaultReturnTxOutputTypeRedeem \<and> length (ro_CustodianGroupUID v) = 32
        \<and> ro_CustodianQuorum v = 0 \<and> ro_DestChainType v = 0 \<and> ro_DestChainID v = 0
        \<and> ro_DestinationTokenAddress v = replicate 20 0
        \<and> ro_DestinationRecipientAddress v = replicate 20 0
      else if ro_Flags v = 0x81 then
        ro_TransactionType v = VaultReturnTxOutputTypeRedeem
        \<and> ro_CustodianQuorum v = 0 \<and> ro_DestChainType v = 0 \<and> ro_DestChainID v = 0
        \<and> ro_DestinationTokenAddress v = replicate 20 0
        \<and> ro_DestinationRecipientAddress v = replicate 20 0
        \<and> ro_SessionSequence v = 0 \<and> ro_CustodianGroupUID v = replicate 32 0
      else
        ro_TransactionType v = VaultReturnTxOutputTypeStaking
        \<and> ValidateChainType (ro_DestChainType v) \<and> unat (ro_DestChainID v) < 2 ^ 56
        \<and> length (ro_DestinationTokenAddress v) = 20
        \<and> length (ro_DestinationRecipientAddress v) = 20
        \<and> ro_SessionSequence v = 0 \<and> ro_CustodianGroupUID v = replicate 32 0)"

definition wf_output :: "btc_config \<Rightarrow> vault_return_tx_output \<Rightarrow> bool" where
  "wf_output config v \<longleftrightarrow> length (ro_Tag v) = 6 \<and> ro_Tag v = bytes_of_string (VaultTag config)
     \<and> ro_Version v = VaultVersion config \<and> ro_ScriptPubkey v = [] \<and> wf_body v"

lemma parsePoolRedeem_eq:
  "parsePoolRedeemVaultReturnTxOutput data v =
     (if length data < 45
      then Err (Errorf ''insufficient data for pool redeem vault return transaction output'')
      else Ok (v\<lparr>ro_TransactionType := VaultReturnTxOutputTypeRedeem, ro_ServiceTag := take 5 data,
             ro_SessionSequence := BigEndian_Uint64 (take 8 (drop 5 data)),
             ro_CustodianGroupUID := take 32 (drop 13 data)\<rparr>))"
  by (simp add: parsePoolRedeemVaultReturnTxOutput_def size_defs Let_def sub_slice_ok)

lemma parseUpcRedeem_eq:
  "parseUpcRedeemVaultReturnTxOutput data v =
     (if length data < 5
      then Err (Errorf ''insufficient data for upc redeem vault return transaction output'')
      else Ok (v\<lparr>ro_TransactionType := VaultReturnTxOutputTypeRedeem, ro_ServiceTag := take 5 data\<rparr>))"
  by (simp add: parseUpcRedeemVaultReturnTxOutput_def size_defs Let_def sub_slice_ok)

lemma parseStaking_eq:
  "parseStakingVaultReturnTxOuput data v =
     (if length data < 54
      then Err (Errorf ''insufficient data for staking vault return transaction output'')
      else (case NewChainInfoFromBytes (take 8 (drop 6 data)) of
          None \<Rightarrow> Err (Errorf ''failed to parse chain info'')
        | Some ci \<Rightarrow> Ok (v\<lparr>ro_TransactionType := VaultReturnTxOutputTypeStaking,
             ro_ServiceTag := take 5 data, ro_CustodianQuorum := data ! 5,
             ro_DestChainType := chain_type ci, ro_DestChainID := chain_id ci,
             ro_DestinationTokenAddress := take 20 (drop 14 data),
             ro_DestinationRecipientAddress := take 20 (drop 34 data)\<rparr>)))"
  by (simp add: parseStakingVaultReturnTxOuput_def size_defs Let_def sub_slice_ok index_at_ok
      split: option.splits)

lemma ParseVaultReturnTxOutput_eq:
  "ParseVaultReturnTxOutput config data =
     (if length data < 14 then Err (Errorf ''insufficient data for VaultReturnTxOutput'')
      else if take 6 data \<noteq> bytes_of_string (VaultTag config) then Err (Errorf ''vault tag mismatch'')
      else if data ! 6 \<noteq> VaultVersion config then Err (Errorf ''vault version mismatch'')
      else
        let v = zero_output\<lparr>ro_Tag := take 6 data, ro_Version := data ! 6,
                  ro_NetworkID := data ! 7, ro_Flags := data ! 8\<rparr> in
        if data ! 8 = 0x41 then parsePoolRedeemVaultReturnTxOutput (drop 9 data) v
        else if data ! 8 = 0x81 then parseUpcRedeemVaultReturnTxOutput (drop 9 data) v
        else parseStakingVaultReturnTxOuput (drop 9 data) v)"
proof (cases "length data < 14")
  case False
  show ?thesis
  proof (cases "take 6 data = bytes_of_string (VaultTag config)")
    case True
    have "length (take 6 data) = 6" using False by simp
    then have "length (bytes_of_string (VaultTag config)) = 6" unfolding True .
    with True False show ?thesis
      by (simp add: ParseVaultReturnTxOutput_def size_defs Let_def sub_slice_ok index_at_ok)
  qed (use False in \<open>simp add: ParseVaultReturnTxOutput_def size_defs Let_def sub_slice_ok\<close>)
qed (simp add: ParseVaultReturnTxOutput_def size_defs)

text \<open>
  C15: decoding never reads outside the data, whatever bytes a block contains: the result is
  an output or an error.
\<close>

theorem ParseVaultReturnTxOutput_no_panic:
  "\<not> is_panic (ParseVaultReturnTxOutput config data)"
  by (simp add: ParseVaultReturnTxOutput_eq parsePoolRedeem_eq parseUpcRedeem_eq parseStaking_eq
      Let_def split: option.splits)

lemma header_split:
  assumes "14 \<le> length data"
  shows "data = take 6 data @ data ! 6 # data ! 7 # data ! 8 # drop 9 data"
proof -
  have "data ! 6 # data ! 7 # data ! 8 # drop 9 data = drop 6 data"
    using assms Cons_nth_drop_Suc [of 6 data] Cons_nth_drop_Suc [of 7 data]
      Cons_nth_drop_Suc [of 8 data] by simp
  then show ?thesis by simp
qed

text \<open>The body, as the flags select it.\<close>

definition parse_body :: "vault_return_tx_output \<Rightarrow> bytes \<Rightarrow> vault_return_tx_output outcome" where
  "parse_body v d =
     (if ro_Flags v = 0x41 then parsePoolRedeemVaultReturnTxOutput d v
      else if ro_Flags v = 0x81 then parseUpcRedeemVaultReturnTxOutput d v
      else parseStakingVaultReturnTxOuput d v)"

definition with_header :: "bytes \<Rightarrow> u8 \<Rightarrow> u8 \<Rightarrow> u8 \<Rightarrow> vault_return_tx_output" where
  "with_header tag version network flags =
     zero_output\<lparr>ro_Tag := tag, ro_Version := version, ro_NetworkID := network, ro_Flags := flags\<rparr>"

lemma ParseVaultReturnTxOutput_body:
  "14 \<le> length data \<Longrightarrow> take 6 data = bytes_of_string (VaultTag config) \<Longrightarrow>
   data ! 6 = VaultVersion config \<Longrightarrow>
   ParseVaultReturnTxOutput config data =
     parse_body (with_header (take 6 data) (data ! 6) (data ! 7) (data ! 8)) (drop 9 data)"
  by (simp add: ParseVaultReturnTxOutput_eq parse_body_def with_header_def Let_def)

lemma chain_bytes_parse:
  "ValidateChainType t \<Longrightarrow> unat i < 2 ^ 56 \<Longrightarrow>
   NewChainInfoFromBytes (ChainInfo_Bytes \<lparr>chain_type = t, chain_id = i\<rparr>)
     = Some \<lparr>chain_type = t, chain_id = i\<rparr>"
  using Uint64_zero_head [of i]
  by (simp add: NewChainInfoFromBytes_eq ChainInfo_Bytes_alt low56_small)

lemma parse_body_encode:
  assumes "wf_body v" and "ro_ScriptPubkey v = []"
  shows "parse_body (with_header (ro_Tag v) (ro_Version v) (ro_NetworkID v) (ro_Flags v))
           (encode_body v @ rest) = Ok v"
proof -
  note unf = parse_body_def with_header_def encode_body_def wf_body_def zero_output_def
  consider (pool) "ro_Flags v = 0x41" | (upc) "ro_Flags v = 0x81"
    | (staking) "ro_Flags v \<noteq> 0x41" "ro_Flags v \<noteq> 0x81" by blast
  then show ?thesis
  proof cases
    case pool
    with assms show ?thesis by (cases v) (simp add: unf parsePoolRedeem_eq)
  next
    case upc
    with assms show ?thesis by (cases v) (simp add: unf parseUpcRedeem_eq)
  next
    case staking
    with assms show ?thesis
      by (cases v) (simp add: unf parseStaking_eq nth_append chain_bytes_parse)
  qed
qed

lemma parse_body_decode:
  assumes "parse_body (with_header tag version network flags) d = Ok v"
  shows "wf_body v \<and> ro_Tag v = tag \<and> ro_Version v = version \<and> ro_NetworkID v = network
    \<and> ro_Flags v = flags \<and> ro_ScriptPubkey v = [] \<and> (\<exists>rest. d = encode_body v @ rest)"
proof -
  note unf = parse_body_def with_header_def encode_body_def wf_body_def zero_output_def
  consider (pool) "flags = 0x41" | (upc) "flags = 0x81" | (staking) "flags \<noteq> 0x41" "flags \<noteq> 0x81"
    by blast
  then show ?thesis
  proof cases
    case pool
    with assms have l: "45 \<le> length d"
      by (auto simp: unf parsePoolRedeem_eq split: if_splits)
    have "d = (take 5 d @ take 8 (drop 5 d) @ take 32 (drop 13 d)) @ drop 45 d"
      using take_add [of 5 8 d] take_add [of 13 32 d] append_take_drop_id [of 45 d] by simp
    with pool assms l show ?thesis
      by (auto simp: unf parsePoolRedeem_eq PutUint64_Uint64)
  next
    case upc
    with assms have l: "5 \<le> length d"
      by (auto simp: unf parseUpcRedeem_eq split: if_splits)
    have "\<exists>rest. d = take 5 d @ rest" by (metis append_take_drop_id)
    with upc assms l show ?thesis
      by (auto simp: unf parseUpcRedeem_eq)
  next
    case staking
    with assms have l: "54 \<le> length d"
      by (auto simp: unf parseStaking_eq split: if_splits)
    from staking assms obtain ci where ci: "NewChainInfoFromBytes (take 8 (drop 6 d)) = Some ci"
      by (auto simp: unf parseStaking_eq split: if_splits option.splits)
    have cb: "ChainInfo_Bytes ci = take 8 (drop 6 d)" "ValidateChainType (chain_type ci)"
      "unat (chain_id ci) < 2 ^ 56"
      using ChainInfo_of_bytes [OF ci] by auto
    have "drop 5 d = d ! 5 # drop 6 d" using l Cons_nth_drop_Suc [of 5 d] by simp
    then have "d = (take 5 d @ d ! 5 # take 8 (drop 6 d) @ take 20 (drop 14 d) @ take 20 (drop 34 d)) @ drop 54 d"
      using append_take_drop_id [of 5 d] append_take_drop_id [of 8 "drop 6 d"]
        append_take_drop_id [of 20 "drop 14 d"] append_take_drop_id [of 20 "drop 34 d"] by simp
    with staking assms l ci cb show ?thesis
      by (cases ci) (auto simp: unf parseStaking_eq)
  qed
qed

lemma ParseVaultReturnTxOutput_decodes:
  assumes ok: "ParseVaultReturnTxOutput config data = Ok v"
  shows "wf_output config v \<and> (\<exists>rest. data = encode_output v @ rest)"
proof -
  from ok have h: "14 \<le> length data" "take 6 data = bytes_of_string (VaultTag config)"
    "data ! 6 = VaultVersion config"
    by (auto simp: ParseVaultReturnTxOutput_eq split: if_splits)
  have "wf_body v \<and> ro_Tag v = take 6 data \<and> ro_Version v = data ! 6 \<and> ro_NetworkID v = data ! 7
    \<and> ro_Flags v = data ! 8 \<and> ro_ScriptPubkey v = [] \<and> (\<exists>rest. drop 9 data = encode_body v @ rest)"
    using ok h by (intro parse_body_decode) (simp add: ParseVaultReturnTxOutput_body)
  moreover have "length (take 6 data) = 6" using h(1) by simp
  ultimately show "wf_output config v \<and> (\<exists>rest. data = encode_output v @ rest)"
    using h header_split [OF h(1)] by (auto simp: wf_output_def encode_output_def)
qed

lemma ParseVaultReturnTxOutput_encodes:
  assumes w: "wf_output config v"
  shows "ParseVaultReturnTxOutput config (encode_output v @ rest) = Ok v"
proof -
  let ?data = "encode_output v @ rest"
  have t: "length (ro_Tag v) = 6" and s: "length (ro_ServiceTag v) = 5"
    using w by (auto simp: wf_output_def wf_body_def)
  have "14 \<le> length ?data" using t s by (simp add: encode_output_def encode_body_def)
  moreover have "take 6 ?data = ro_Tag v" "?data ! 6 = ro_Version v" "?data ! 7 = ro_NetworkID v"
    "?data ! 8 = ro_Flags v" "drop 9 ?data = encode_body v @ rest"
    using t by (simp_all add: encode_output_def nth_append)
  ultimately show ?thesis
    using w parse_body_encode [of v rest]
    by (simp add: ParseVaultReturnTxOutput_body wf_output_def)
qed


end
