(* ===== verification/VaultParser.thy ===== *)
theory VaultParser
  imports VaultTx
begin

text \<open>
  The rest of \<open>pkg/btc/parser.go\<close>: from a transaction of a block to the row that is stored.
  A transaction that is not a vault transaction is \<open>Ok None\<close> (Go's \<open>nil, nil\<close>).
\<close>

section \<open>Model\<close>

text \<open>\<open>btcjson.TxRawResult\<close> and \<open>btcjson.GetBlockVerboseTxResult\<close>, as far as they are read.\<close>

record tx_raw =
  Tx_Hex :: string
  Txid :: string

record block_verbose =
  Block_Hash :: string
  Block_Height :: int
  Block_Version :: int
  Block_MerkleRoot :: string
  Block_PreviousHash :: string
  Block_Bits :: string
  Block_Nonce :: u32
  Block_Time :: int
  Block_Tx :: "tx_raw list"

definition convertTxRawResultToMsgTx :: "btc_lib \<Rightarrow> tx_raw \<Rightarrow> msg_tx outcome" where
  "convertTxRawResultToMsgTx lib tx =
     and_then (wrapf ''failed to decode transaction hex'' (hex_decode (Tx_Hex tx))) (\<lambda>txBytes.
     wrapf ''failed to deserialize transaction'' (Deserialize lib txBytes))"

definition serializeTx :: "btc_lib \<Rightarrow> msg_tx \<Rightarrow> bytes outcome" where
  "serializeTx lib tx = Serialize lib tx"

definition getPreviousTxout :: "btc_lib \<Rightarrow> out_point \<Rightarrow> tx_out outcome" where
  "getPreviousTxout lib outp =
     and_then (wrapf ''failed to get raw transaction'' (GetRawTransaction lib (OutPoint_Hash outp)))
       (\<lambda>msgTx.
          if length (TxOut msgTx) \<le> unat (OutPoint_Index outp)
          then Err (Errorf ''output index out of range'')
          else index_at (TxOut msgTx) (unat (OutPoint_Index outp)))"

definition parseVaultTransactionData ::
  "btc_lib \<Rightarrow> btc_config \<Rightarrow> msg_tx \<Rightarrow> vault_return_tx_output \<Rightarrow> int \<Rightarrow> int \<Rightarrow> string \<Rightarrow> int
   \<Rightarrow> vault_transaction outcome" where
  "parseVaultTransactionData lib config tx v txPosition blockHeight blockHash blockTime =
     and_then (wrapf ''failed to serialize transaction'' (serializeTx lib tx)) (\<lambda>rawTx.
     let vaultTx = \<lparr>
           vt_Chain = SourceChain config,
           vt_BlockNumber = u64_of_int blockHeight,
           vt_BlockHash = blockHash,
           vt_TxHash = Hash_String lib (MsgTx_TxHash lib tx),
           vt_TxPosition = u64_of_int txPosition,
           vt_Timestamp = u64_of_int blockTime,
           vt_RawTx = rawTx,
           vt_ServiceTag = string_of_bytes (ro_Tag v),
           vt_VaultTxType = ro_TransactionType v,
           vt_CovenantQuorum = ro_CustodianQuorum v,
           vt_DestinationChain = ro_DestChainID v,
           vt_DestinationTokenAddress = DestinationTokenAddress_String (ro_DestinationTokenAddress v),
           vt_DestinationRecipientAddress =
             DestinationRecipientAddress_String (ro_DestinationRecipientAddress v),
           vt_SessionSequence = ro_SessionSequence v,
           vt_CustodianGroupUID = hex_encode (ro_CustodianGroupUID v),
           vt_ScriptPubkey = ro_ScriptPubkey v,
           vt_Amount = 0, vt_ChangeAmount = 0, vt_ChangeAddress = [],
           vt_StakerScriptPubkey = [], vt_MerkleProof = []\<rparr>
     in
     if ro_TransactionType v = VaultReturnTxOutputTypeStaking then
       let vaultTx = (if length (TxOut tx) \<ge> 2
             then vaultTx\<lparr>vt_Amount := u64_of_int (Value (TxOut tx ! 1))\<rparr> else vaultTx);
           vaultTx = (if length (TxOut tx) \<ge> 3
             then vaultTx\<lparr>vt_ChangeAmount := u64_of_int (Value (TxOut tx ! 2)),
                          vt_ChangeAddress := hex_encode (PkScript (TxOut tx ! 2))\<rparr> else vaultTx)
       in
       if length (TxIn tx) \<ge> 1 then
         and_then (wrapf ''failed to get previous transaction output''
                    (getPreviousTxout lib (TxIn tx ! 0)))
           (\<lambda>previousTxout.
              Ok (vaultTx\<lparr>vt_StakerScriptPubkey := hex_encode (PkScript previousTxout)\<rparr>))
       else Ok vaultTx
     else Ok vaultTx)"

definition ParseVaultMsgTx ::
  "btc_lib \<Rightarrow> btc_config \<Rightarrow> msg_tx \<Rightarrow> int \<Rightarrow> int \<Rightarrow> string \<Rightarrow> int \<Rightarrow> vault_transaction option outcome"
where
  "ParseVaultMsgTx lib config tx txPosition blockHeight blockHash blockTime =
     (if length (TxOut tx) < 2 then Err (Errorf ''transaction has less than 2 outputs'')
      else
        let firstOutput = TxOut tx ! 0 in
        if length (PkScript firstOutput) < 2 \<or> PkScript firstOutput ! 0 \<noteq> 0x6a then Ok None
        else
          and_then (sub_slice (PkScript firstOutput) 2 (length (PkScript firstOutput)))
            (\<lambda>opReturnData.
          and_then (wrapf ''failed to parse vault return transaction output''
                      (ParseVaultReturnTxOutput config opReturnData)) (\<lambda>v.
          if ro_DestChainID v \<le> 0 then Err (Errorf ''Destination chain is not supported'')
          else
            let v = v\<lparr>ro_ScriptPubkey := PkScript firstOutput\<rparr> in
            and_then (parseVaultTransactionData lib config tx v txPosition blockHeight blockHash
                        blockTime) (\<lambda>vaultTx. Ok (Some vaultTx)))))"

definition ParseVaultTxRawResult ::
  "btc_lib \<Rightarrow> btc_config \<Rightarrow> tx_raw \<Rightarrow> block_verbose \<Rightarrow> int \<Rightarrow> vault_transaction option outcome" where
  "ParseVaultTxRawResult lib config tx block txPosition =
     and_then (wrapf ''failed to convert TxRawResult to MsgTx'' (convertTxRawResultToMsgTx lib tx))
       (\<lambda>msgTx.
     and_then (wrapf ''failed to parse vault transaction''
                (ParseVaultMsgTx lib config msgTx txPosition (Block_Height block) (Block_Hash block)
                   (Block_Time block)))
       (\<lambda>r. case r of
          None \<Rightarrow> Ok None
        | Some vaultTx \<Rightarrow>
            and_then (wrapf ''failed to calculate merkle proof path''
                       (calculateMerkleProofPath (DoubleHashB lib) (NewHashFromStr lib)
                          (map Txid (Block_Tx block)) txPosition))
              (\<lambda>merkleProofPath.
                 Ok (Some (vaultTx\<lparr>vt_MerkleProof := ConcatProofPath merkleProofPath\<rparr>)))))"

section \<open>What is stored\<close>

lemma wf_output_redeem_chain:
  "wf_output config v \<Longrightarrow> ro_Flags v = 0x41 \<or> ro_Flags v = 0x81 \<Longrightarrow> ro_DestChainID v = 0"
  by (auto simp: wf_output_def wf_body_def split: if_splits)

lemma wf_output_staking:
  "wf_output config v \<Longrightarrow> ro_DestChainID v \<noteq> 0 \<Longrightarrow>
     ro_TransactionType v = VaultReturnTxOutputTypeStaking \<and> ro_SessionSequence v = 0
     \<and> ro_Flags v \<noteq> 0x41 \<and> ro_Flags v \<noteq> 0x81"
  by (auto simp: wf_output_def wf_body_def split: if_splits)

lemma decoded_output:
  "ParseVaultReturnTxOutput config d = Ok v \<Longrightarrow> wf_output config v"
  using ParseVaultReturnTxOutput_decodes by blast

text \<open>The fields of the row that do not depend on the outputs and inputs.\<close>

lemma parseVaultTransactionData_fields:
  assumes "parseVaultTransactionData lib config tx v pos height hash time = Ok vt"
  shows "vt_Chain vt = SourceChain config \<and> vt_BlockNumber vt = u64_of_int height
    \<and> vt_BlockHash vt = hash \<and> vt_TxHash vt = Hash_String lib (MsgTx_TxHash lib tx)
    \<and> vt_TxPosition vt = u64_of_int pos \<and> vt_ServiceTag vt = string_of_bytes (ro_Tag v)
    \<and> vt_VaultTxType vt = ro_TransactionType v \<and> vt_DestinationChain vt = ro_DestChainID v
    \<and> vt_SessionSequence vt = ro_SessionSequence v \<and> vt_ScriptPubkey vt = ro_ScriptPubkey v
    \<and> vt_CovenantQuorum vt = ro_CustodianQuorum v"
  using assms
  by (auto simp: parseVaultTransactionData_def outcome_simps Let_def split: if_splits)

lemma ParseVaultMsgTx_Some:
  assumes "ParseVaultMsgTx lib config tx pos height hash time = Ok (Some vt)"
  shows "\<exists>v. 2 \<le> length (TxOut tx) \<and> PkScript (TxOut tx ! 0) ! 0 = 0x6a
    \<and> ParseVaultReturnTxOutput config (drop 2 (PkScript (TxOut tx ! 0))) = Ok v
    \<and> ro_DestChainID v \<noteq> 0
    \<and> parseVaultTransactionData lib config tx (v\<lparr>ro_ScriptPubkey := PkScript (TxOut tx ! 0)\<rparr>)
        pos height hash time = Ok vt"
  using assms
  by (auto simp: ParseVaultMsgTx_def outcome_simps Let_def sub_slice_ok not_less split: if_splits)

text \<open>
  C16: every vault transaction that reaches the database is a staking transaction for a
  non-zero destination chain, of the configured source chain; its \<open>ServiceTag\<close> column holds
  the configured vault tag, not the service tag of the output.
\<close>

theorem stored_vault_tx_is_staking:
  assumes "ParseVaultTxRawResult lib config tx block pos = Ok (Some vt)"
  shows "vt_VaultTxType vt = VaultReturnTxOutputTypeStaking \<and> vt_DestinationChain vt \<noteq> 0
    \<and> vt_SessionSequence vt = 0 \<and> vt_Chain vt = SourceChain config
    \<and> vt_ServiceTag vt = VaultTag config \<and> vt_BlockHash vt = Block_Hash block"
proof -
  from assms obtain msgTx vt0 mp where p: "ParseVaultMsgTx lib config msgTx pos (Block_Height block)
      (Block_Hash block) (Block_Time block) = Ok (Some vt0)"
    and vt: "vt = vt0\<lparr>vt_MerkleProof := ConcatProofPath mp\<rparr>"
    by (auto simp: ParseVaultTxRawResult_def outcome_simps split: option.splits)
  obtain v where v: "ParseVaultReturnTxOutput config (drop 2 (PkScript (TxOut msgTx ! 0))) = Ok v"
    "ro_DestChainID v \<noteq> 0"
    and d: "parseVaultTransactionData lib config msgTx (v\<lparr>ro_ScriptPubkey := PkScript (TxOut msgTx ! 0)\<rparr>)
        pos (Block_Height block) (Block_Hash block) (Block_Time block) = Ok vt0"
    using ParseVaultMsgTx_Some [OF p] by blast
  have w: "wf_output config v" by (rule decoded_output [OF v(1)])
  then have "string_of_bytes (ro_Tag v) = VaultTag config" by (simp add: wf_output_def)
  with parseVaultTransactionData_fields [OF d] wf_output_staking [OF w v(2)] vt v(2)
  show ?thesis by auto
qed

text \<open>
  C18: a redeem transaction is never indexed. A transaction whose first output carries a
  well-formed pool or UPC redeem is refused because such outputs have no destination chain.
\<close>

theorem redeem_rejected:
  assumes "wf_output config v" and "ro_Flags v = 0x41 \<or> ro_Flags v = 0x81"
    and "PkScript (TxOut tx ! 0) = 0x6a # n # encode_output v @ rest" and "2 \<le> length (TxOut tx)"
  shows "ParseVaultMsgTx lib config tx pos height hash time
    = Err (Errorf ''Destination chain is not supported'')"
proof -
  have "ParseVaultReturnTxOutput config (encode_output v @ rest) = Ok v"
    using assms(1) ParseVaultReturnTxOutput_encodes by blast
  then show ?thesis
    using assms(3,4) wf_output_redeem_chain [OF assms(1,2)]
    by (simp add: ParseVaultMsgTx_def Let_def sub_slice_ok)
qed


text \<open>
  C22: the stored Merkle proof is the concatenation of a branch that verifies, for the
  transaction at its position, against the root over the block's transaction ids.
\<close>

theorem stored_merkle_proof_verifies:
  assumes "ParseVaultTxRawResult lib config tx block pos = Ok (Some vt)"
    and "collect (NewHashFromStr lib) (map Txid (Block_Tx block)) = Ok hashes"
  shows "\<exists>path. vt_MerkleProof vt = concat path \<and> 0 \<le> pos \<and> nat pos < length hashes
    \<and> VerifyMerkleProof (DoubleHashB lib) (hashes ! nat pos)
        \<lparr>Position = pos, Path = path, Root = merkle_root (DoubleHashB lib) hashes\<rparr>"
proof -
  from assms(1) obtain p where p: "calculateMerkleProofPath (DoubleHashB lib) (NewHashFromStr lib)
      (map Txid (Block_Tx block)) pos = Ok p"
    and vt: "vt_MerkleProof vt = ConcatProofPath p"
    by (auto simp: ParseVaultTxRawResult_def outcome_simps split: option.splits)
  have len: "length hashes = length (Block_Tx block)"
    using assms(2) by (simp add: collect_Ok_iff)
  note m = calculated_proof [OF assms(2) p]
  obtain path where "p = \<lparr>Position = pos, Path = path, Root = merkle_root (DoubleHashB lib) hashes\<rparr>"
    using m by (cases p) simp
  with m vt len show ?thesis by (auto simp: ConcatProofPath_def)
qed

section \<open>A concrete instance\<close>

text \<open>
  A configuration, a library and a staking transaction on which the theorems above are
  exercised: the library's transactions are looked up in a list of one.
\<close>

definition example_config :: btc_config where
  "example_config = \<lparr>Enable = True, BtcHost = [], BtcPort = 0, BtcUser = [], BtcPassword = [],
     BtcSSL = None, BtcNetwork = [], ElectrumHost = [], ElectrumPort = 0,
     VaultTag = ''SCALAR'', VaultVersion = 3, DatabaseURL = [], DialTimeout = 0,
     MethodTimeout = 0, PingInterval = 0, MaxReconnectAttempts = 0, ReconnectDelay = 0,
     EnableAutoReconnect = False, StartHeight = 0, EndHeight = 0, BatchSize = 0,
     Confirmations = 0, SourceChain = ''bitcoin|4'', FetchThread = 0\<rparr>"

definition example_output :: vault_return_tx_output where
  "example_output = zero_output\<lparr>ro_Tag := bytes_of_string ''SCALAR'', ro_Version := 3,
     ro_NetworkID := 1, ro_Flags := 0x40, ro_ServiceTag := bytes_of_string ''pools'',
     ro_TransactionType := VaultReturnTxOutputTypeStaking, ro_CustodianQuorum := 3,
     ro_DestChainType := 1, ro_DestChainID := 11155111\<rparr>"

definition example_redeem :: vault_return_tx_output where
  "example_redeem = zero_output\<lparr>ro_Tag := bytes_of_string ''SCALAR'', ro_Version := 3,
     ro_NetworkID := 1, ro_Flags := 0x41, ro_ServiceTag := bytes_of_string ''pools'',
     ro_TransactionType := VaultReturnTxOutputTypeRedeem, ro_SessionSequence := 7,
     ro_CustodianGroupUID := replicate 32 5\<rparr>"

definition example_tx :: msg_tx where
  "example_tx = \<lparr>TxIn = [\<lparr>OutPoint_Hash = [9], OutPoint_Index = 0\<rparr>],
     TxOut = [\<lparr>Value = 0, PkScript = 0x6a # 63 # encode_output example_output @ []\<rparr>,
              \<lparr>Value = 1741, PkScript = [81]\<rparr>, \<lparr>Value = 97870, PkScript = [0, 20]\<rparr>]\<rparr>"

definition example_lib :: btc_lib where
  "example_lib = \<lparr>Deserialize = (\<lambda>_. Ok example_tx), Serialize = (\<lambda>_. Ok [2]),
     MsgTx_TxHash = (\<lambda>_. [7]), Hash_String = hex_encode,
     NewHashFromStr = (\<lambda>s. Ok (bytes_of_string s)), DoubleHashB = take 1,
     GetRawTransaction = (\<lambda>_. Ok example_tx)\<rparr>"

definition example_block :: block_verbose where
  "example_block = \<lparr>Block_Hash = ''ab'', Block_Height = 82333, Block_Version = 2,
     Block_MerkleRoot = [], Block_PreviousHash = [], Block_Bits = [], Block_Nonce = 0,
     Block_Time = 1700000000, Block_Tx = [\<lparr>Tx_Hex = [], Txid = ''a''\<rparr>, \<lparr>Tx_Hex = [], Txid = ''b''\<rparr>]\<rparr>"

lemma example_output_wf: "wf_output example_config example_output"
  by (simp add: wf_output_def wf_body_def example_config_def example_output_def zero_output_def
      bytes_of_string_def output_type_defs ValidateChainType_def chain_type_defs)

lemma example_redeem_wf: "wf_output example_config example_redeem"
  by (simp add: wf_output_def wf_body_def example_config_def example_redeem_def zero_output_def
      bytes_of_string_def output_type_defs)

lemma example_chain: "ro_DestChainID example_output \<noteq> 0"
  by (simp add: example_output_def)


theorem redeem_rejected_witness:
  "ParseVaultMsgTx example_lib example_config
     (example_tx\<lparr>TxOut := \<lparr>Value = 0, PkScript = 0x6a # 54 # encode_output example_redeem @ []\<rparr>
        # tl (TxOut example_tx)\<rparr>) 1 82333 ''ab'' 1700000000
   = Err (Errorf ''Destination chain is not supported'')"
  by (rule redeem_rejected [OF example_redeem_wf, where n = 54 and rest = "[]"])
    (simp_all add: example_redeem_def example_tx_def)

lemma example_parsed:
  "\<exists>vt. ParseVaultTxRawResult example_lib example_config (Block_Tx example_block ! 1) example_block 1
     = Ok (Some vt)"
proof -
  have "ParseVaultReturnTxOutput example_config (encode_output example_output) = Ok example_output"
    using ParseVaultReturnTxOutput_encodes [OF example_output_wf, of "[]"] by simp
  moreover have "calculateMerkleProofPath (take 1) (\<lambda>s. Ok (bytes_of_string s)) [''a'', ''b''] 1
      = Ok \<lparr>Position = 1, Path = [[97]], Root = [97]\<rparr>"
    by (simp add: calculateMerkleProofPath_def createMerkleBranchAndRoot_def merkle_loop.simps
        pad_even_def sibling_def index_at_def bytes_of_string_def)
  ultimately show ?thesis
    using example_chain
    by (simp add: ParseVaultTxRawResult_def convertTxRawResultToMsgTx_def ParseVaultMsgTx_def
        parseVaultTransactionData_def serializeTx_def getPreviousTxout_def example_block_def
        example_lib_def example_tx_def Let_def sub_slice_ok index_at_def)
qed

theorem stored_vault_tx_is_staking_witness:
  "\<exists>vt. ParseVaultTxRawResult example_lib example_config (Block_Tx example_block ! 1) example_block 1
      = Ok (Some vt)
    \<and> vt_VaultTxType vt = VaultReturnTxOutputTypeStaking \<and> vt_ServiceTag vt = ''SCALAR''"
  using example_parsed stored_vault_tx_is_staking [of example_lib example_config
      "Block_Tx example_block ! 1" example_block 1]
  by (auto simp: example_config_def)

theorem stored_merkle_proof_verifies_witness:
  "\<exists>vt path. ParseVaultTxRawResult example_lib example_config (Block_Tx example_block ! 1) example_block 1
      = Ok (Some vt) \<and> vt_MerkleProof vt = concat path
    \<and> VerifyMerkleProof (take 1) [98]
        \<lparr>Position = 1, Path = path, Root = merkle_root (take 1) [[97], [98]]\<rparr>"
proof -
  obtain vt where vt: "ParseVaultTxRawResult example_lib example_config (Block_Tx example_block ! 1)
      example_block 1 = Ok (Some vt)" using example_parsed by blast
  have "collect (NewHashFromStr example_lib) (map Txid (Block_Tx example_block)) = Ok [[97], [98]]"
    by (simp add: example_lib_def example_block_def bytes_of_string_def)
  from stored_merkle_proof_verifies [OF vt this] vt show ?thesis
    by (auto simp: example_lib_def)
qed

end
