(* ===== verification/Models.thy ===== *)
theory Models
  imports VaultTx
begin

text \<open>
  The rows the indexer writes. The structs come from the \<open>data-models\<close> package, which is not
  part of the repository: only the fields that the repository reads or sets are kept, under
  the names the repository uses. \<open>LogEventCheckPoint\<close> is the one table the repository declares
  itself (\<open>pkg/types/models.go\<close>). \<open>model\<close> is the Go \<open>any\<close> that the processing code passes
  around: one constructor per struct type.
\<close>

record log_event_check_point =
  cp_ChainID :: string
  cp_LastBlock :: u64

record block_header =
  bh_Chain :: string
  bh_BlockNumber :: u64
  bh_ParentHash :: string
  bh_BlockHash :: string
  bh_BlockTime :: u64
  bh_TxHash :: string
  bh_Root :: string
  bh_BeaconRoot :: string

record btc_block_header =
  bbh_Version :: int
  bbh_PrevBlockHash :: string
  bbh_MerkleRoot :: bytes
  bbh_Time :: u32
  bbh_CompactTarget :: u32
  bbh_Nonce :: u32
  bbh_Hash :: string
  bbh_Height :: int

datatype token_sent_status =
  TokenSentStatusPending | TokenSentStatusSuccess | TokenSentStatusOther string

record token_sent =
  ts_EventID :: string
  ts_SourceChain :: string
  ts_TxHash :: string
  ts_BlockNumber :: u64
  ts_LogIndex :: u64
  ts_SourceAddress :: string
  ts_DestinationChain :: string
  ts_DestinationAddress :: string
  ts_Symbol :: string
  ts_Amount :: u64
  ts_Status :: token_sent_status

datatype contract_call_status =
  ContractCallStatusUnset | ContractCallStatusPending | ContractCallStatusApproved
  | ContractCallStatusSuccess | ContractCallStatusOther string

record contract_call =
  cc_EventID :: string
  cc_TxHash :: string
  cc_BlockNumber :: u64
  cc_LogIndex :: u64
  cc_SourceChain :: string
  cc_DestinationChain :: string
  cc_DestinationAddress :: string
  cc_SourceAddress :: string
  cc_PayloadHash :: string
  cc_Payload :: bytes
  cc_Status :: contract_call_status
  cc_ExecuteHash :: string

text \<open>The struct embeds \<open>ContractCall\<close>.\<close>

record contract_call_with_token =
  ccwt_ContractCall :: contract_call
  ccwt_TokenContractAddress :: string
  ccwt_Symbol :: string
  ccwt_Amount :: u64

record contract_call_approved =
  cca_EventID :: string
  cca_SourceChain :: string
  cca_DestinationChain :: string
  cca_TxHash :: string
  cca_CommandID :: string
  cca_Sender :: string
  cca_ContractAddress :: string
  cca_PayloadHash :: string
  cca_SourceTxHash :: string
  cca_SourceEventIndex :: u64

record command_executed =
  ce_SourceChain :: string
  ce_Address :: string
  ce_TxHash :: string
  ce_BlockNumber :: u64
  ce_LogIndex :: u64
  ce_CommandID :: string

record token_deployed =
  td_SourceChain :: string
  td_BlockNumber :: u64
  td_TxHash :: string
  td_Symbol :: string
  td_TokenAddress :: string

record switched_phase =
  sp_SourceChain :: string
  sp_BlockNumber :: u64
  sp_TxHash :: string
  sp_CustodianGroupUid :: string
  sp_SessionSequence :: u64
  sp_From :: u8
  sp_To :: u8

record evm_redeem_tx =
  er_EventID :: string
  er_TxHash :: string
  er_BlockNumber :: u64
  er_LogIndex :: u64
  er_SourceChain :: string
  er_SourceAddress :: string
  er_DestinationChain :: string
  er_DestinationAddress :: string
  er_Payload :: bytes
  er_PayloadHash :: string
  er_TokenContractAddress :: string
  er_Symbol :: string
  er_Amount :: u64
  er_CustodianGroupUid :: string
  er_SessionSequence :: u64

datatype table =
  BlockHeaders | BtcBlockHeaders | VaultTransactions | TokenSents | CommandExecuteds
  | ContractCalls | ContractCallApproveds | ContractCallWithTokens | TokenDeployeds
  | EvmRedeemTxs | SwitchedPhases | LogEventCheckPoints | TokenSentApproveds

datatype model =
    BlockHeaderM block_header
  | BtcBlockHeaderM btc_block_header
  | VaultTransactionM vault_transaction
  | TokenSentM token_sent
  | CommandExecutedM command_executed
  | ContractCallM contract_call
  | ContractCallApprovedM contract_call_approved
  | ContractCallWithTokenM contract_call_with_token
  | TokenDeployedM token_deployed
  | EvmRedeemTxM evm_redeem_tx
  | SwitchedPhaseM switched_phase
  | LogEventCheckPointM log_event_check_point

fun table_of :: "model \<Rightarrow> table" where
  "table_of (BlockHeaderM _) = BlockHeaders"
| "table_of (BtcBlockHeaderM _) = BtcBlockHeaders"
| "table_of (VaultTransactionM _) = VaultTransactions"
| "table_of (TokenSentM _) = TokenSents"
| "table_of (CommandExecutedM _) = CommandExecuteds"
| "table_of (ContractCallM _) = ContractCalls"
| "table_of (ContractCallApprovedM _) = ContractCallApproveds"
| "table_of (ContractCallWithTokenM _) = ContractCallWithTokens"
| "table_of (TokenDeployedM _) = TokenDeployeds"
| "table_of (EvmRedeemTxM _) = EvmRedeemTxs"
| "table_of (SwitchedPhaseM _) = SwitchedPhases"
| "table_of (LogEventCheckPointM _) = LogEventCheckPoints"

lemma table_of_constructors:
  "table_of m = BtcBlockHeaders \<longleftrightarrow> (\<exists>h. m = BtcBlockHeaderM h)"
  "table_of m = VaultTransactions \<longleftrightarrow> (\<exists>t. m = VaultTransactionM t)"
  "table_of m = LogEventCheckPoints \<longleftrightarrow> (\<exists>c. m = LogEventCheckPointM c)"
  "table_of m = BlockHeaders \<longleftrightarrow> (\<exists>b. m = BlockHeaderM b)"
  by (cases m; simp)+

section \<open>Ethereum data\<close>

text \<open>
  \<open>types.Log\<close> of go-ethereum (the fields that are read), \<open>abi.Event\<close> and \<open>abi.Argument\<close>, and
  the values that the ABI decoder puts into an \<open>[]interface{}\<close>.
\<close>

type_synonym address = bytes
type_synonym hash32 = bytes

record eth_log =
  Log_Address :: address
  Log_Topics :: "hash32 list"
  Log_Data :: bytes
  Log_BlockNumber :: u64
  Log_TxHash :: hash32
  Log_TxIndex :: u64
  Log_Index :: u64

record abi_argument =
  Arg_Name :: string
  Arg_Type :: string
  Arg_Indexed :: bool

record abi_event =
  Event_Name :: string
  Event_ID :: hash32
  Event_Inputs :: "abi_argument list"

datatype abi_value =
    VUint8 u8 | VUint64 u64 | VBigInt int | VString string | VBytes bytes | VBytes32 bytes
  | VAddress address | VStrings "string list" | VUint32s "u32 list" | VUint64s "u64 list"
  | VBigInts "int list" | VBytesList "bytes list" | VBytes32s "bytes list"
  | VAddresses "address list"

text \<open>\<open>big.Int.Uint64\<close>: the low 64 bits of the absolute value, whether or not the value fits.\<close>

definition BigInt_Uint64 :: "int \<Rightarrow> u64" where
  "BigInt_Uint64 i = word_of_int \<bar>i\<bar>"

definition BigInt_IsUint64 :: "int \<Rightarrow> bool" where
  "BigInt_IsUint64 i \<longleftrightarrow> 0 \<le> i \<and> i < 2 ^ 64"

lemma BigInt_Uint64_exact:
  "BigInt_IsUint64 i \<Longrightarrow> uint (BigInt_Uint64 i) = i"
  by (simp add: BigInt_Uint64_def BigInt_IsUint64_def uint_word_of_int take_bit_int_eq_self_iff)

end
