(* ===== verification/Database.thy ===== *)
theory Database
  imports Models GoStrings
begin

text \<open>
  \<open>pkg/db\<close>: the database adapter. GORM and PostgreSQL are not part of the repository, so the
  client is a record of the calls that the adapter makes (\<open>gorm\<close>), over an abstract database
  state; a query keeps its table, its condition and its conflict clause as data, so that each
  adapter function below says exactly which statement it sends. The locale \<open>gorm_engine\<close>
  states the documented behaviour of those statements.
\<close>

section \<open>The database client\<close>

datatype sql_value =
  SText string | SNum int | SCallStatus contract_call_status | STokenStatus token_sent_status

datatype cond =
    All
  | Eq string sql_value
  | Neq string sql_value
  | Le string sql_value
  | Ge string sql_value
  | In string "sql_value list"
  | InSelect string table string cond
  | And cond cond

text \<open>
  \<open>clause.OnConflict\<close>: none, \<open>DoNothing\<close> on columns, or \<open>DoUpdates\<close> of columns. \<open>RawClause\<close> is a
  \<open>gorm.Expr\<close> passed to \<open>Clauses\<close>, whose effect on an insert no law below describes.
\<close>

datatype on_conflict =
  NoConflict | DoNothing "string list" | DoUpdates "string list" "string list" | RawClause string

type_synonym 's db_write = "'s \<Rightarrow> 's \<times> go_error option"

text \<open>
  \<open>Create\<close> takes a slice of pointers, so an element can be nil. \<open>First\<close> takes an optional
  column of a descending \<open>Order\<close>. \<open>Begin\<close> gives the state seen by the transaction;
  rolling back returns to the state before it.
\<close>

record 's gorm =
  Create :: "table \<Rightarrow> on_conflict \<Rightarrow> model option list \<Rightarrow> 's db_write"
  Save :: "model list \<Rightarrow> 's db_write"
  First :: "table \<Rightarrow> cond \<Rightarrow> string option \<Rightarrow> 's \<Rightarrow> model outcome"
  Find :: "table \<Rightarrow> string option \<Rightarrow> cond \<Rightarrow> 's \<Rightarrow> model list outcome"
  Delete :: "table \<Rightarrow> cond \<Rightarrow> 's db_write"
  Updates :: "table \<Rightarrow> cond \<Rightarrow> (string \<times> sql_value) list \<Rightarrow> 's db_write"
  Exec :: "string \<Rightarrow> sql_value list \<Rightarrow> 's db_write"
  Begin :: "'s \<Rightarrow> 's option"
  Commit :: "'s db_write"
  AutoMigrate :: "table list \<Rightarrow> 's db_write"

text \<open>\<open>Transaction(f)\<close>: run \<open>f\<close>, commit when it returns nil and roll back otherwise.\<close>

definition Transaction :: "'s gorm \<Rightarrow> 's db_write \<Rightarrow> 's db_write" where
  "Transaction db f s =
     (case Begin db s of
        None \<Rightarrow> (s, Some (Errorf ''failed to begin transaction''))
      | Some tx \<Rightarrow>
          (case f tx of
             (tx', Some e) \<Rightarrow> (s, Some e)
           | (tx', None) \<Rightarrow>
               (case Commit db tx' of (s', None) \<Rightarrow> (s', None) | (_, Some e) \<Rightarrow> (s, Some e))))"

definition wrap_err :: "string \<Rightarrow> 's \<times> go_error option \<Rightarrow> 's \<times> go_error option" where
  "wrap_err m r = (fst r, map_option (Wrapf m) (snd r))"

lemma wrap_err_None [simp]: "wrap_err m r = (s, None) \<longleftrightarrow> r = (s, None)"
  by (cases r) (simp add: wrap_err_def)

lemma fst_wrap_err [simp]: "fst (wrap_err m r) = fst r"
  by (simp add: wrap_err_def)

section \<open>adapter.go\<close>

text \<open>
  The package keeps one adapter in a variable: \<open>registry\<close> holds the connection string it was
  made with. \<open>open_db\<close> is \<open>gorm.Open\<close> with the PostgreSQL driver.
\<close>

definition RunMigrations :: "'s gorm \<Rightarrow> 's db_write" where
  "RunMigrations db = AutoMigrate db
     [BlockHeaders, BtcBlockHeaders, VaultTransactions, TokenSents, CommandExecuteds, ContractCalls,
      ContractCallApproveds, ContractCallWithTokens, TokenDeployeds, EvmRedeemTxs, SwitchedPhases,
      LogEventCheckPoints]"

definition SetupDatabase ::
  "(string \<Rightarrow> ('s gorm \<times> 's) outcome) \<Rightarrow> string \<Rightarrow> ('s gorm \<times> 's) outcome" where
  "SetupDatabase open_db dsn =
     and_then (wrapf ''failed to connect to database'' (open_db dsn)) (\<lambda>(db, s).
     case RunMigrations db s of
       (s', Some e) \<Rightarrow> Err (Wrapf ''failed to run migrations'' e)
     | (s', None) \<Rightarrow> Ok (db, s'))"

definition NewPostgresClient ::
  "(string \<Rightarrow> ('s gorm \<times> 's) outcome) \<Rightarrow> string \<Rightarrow> ('s gorm \<times> 's) outcome" where
  "NewPostgresClient open_db connection =
     (if connection = [] then Err (Errorf ''connnection string is empty'')
      else wrapf ''failed to setup database'' (SetupDatabase open_db connection))"

record 's adapter_var =
  Connection :: string
  PostgresClient :: "'s gorm"
  DB_State :: 's

definition NewDatabaseAdapter ::
  "(string \<Rightarrow> ('s gorm \<times> 's) outcome) \<Rightarrow> string \<Rightarrow> 's adapter_var option
   \<Rightarrow> 's adapter_var outcome \<times> 's adapter_var option" where
  "NewDatabaseAdapter open_db connection dbAdapter =
     (case dbAdapter of
        Some a \<Rightarrow> (Ok a, dbAdapter)
      | None \<Rightarrow>
          (case wrapf ''failed to create postgres client'' (NewPostgresClient open_db connection) of
             Ok (db, s) \<Rightarrow>
               let a = \<lparr>Connection = connection, PostgresClient = db, DB_State = s\<rparr> in (Ok a, Some a)
           | Err e \<Rightarrow> (Err e, None)
           | Panic p \<Rightarrow> (Panic p, None)))"

section \<open>block.go\<close>

record block_header_lite =
  Height :: int
  Hash :: hash
  PrevHash :: hash

text \<open>
  A query into a typed variable. The second equation of each is never reached: a query on a
  table yields rows of that table (law \<open>first_row\<close> below).
\<close>

fun expect_BlockHeader :: "model \<Rightarrow> block_header outcome" where
  "expect_BlockHeader (BlockHeaderM h) = Ok h" | "expect_BlockHeader _ = Panic TypeAssertion"

fun expect_BtcBlockHeader :: "model \<Rightarrow> btc_block_header outcome" where
  "expect_BtcBlockHeader (BtcBlockHeaderM h) = Ok h" | "expect_BtcBlockHeader _ = Panic TypeAssertion"

fun expect_LogEventCheckPoint :: "model \<Rightarrow> log_event_check_point outcome" where
  "expect_LogEventCheckPoint (LogEventCheckPointM c) = Ok c"
| "expect_LogEventCheckPoint _ = Panic TypeAssertion"

definition SNum64 :: "u64 \<Rightarrow> sql_value" where
  "SNum64 w = SNum (uint w)"

definition FindBlockHeader :: "'s gorm \<Rightarrow> string \<Rightarrow> u64 \<Rightarrow> 's \<Rightarrow> block_header outcome" where
  "FindBlockHeader db chainId blockNumber s =
     and_then (First db BlockHeaders
                 (And (Eq ''chain'' (SText chainId)) (Eq ''block_number'' (SNum64 blockNumber))) None s)
       expect_BlockHeader"

definition CreateBlockHeader :: "'s gorm \<Rightarrow> block_header \<Rightarrow> 's db_write" where
  "CreateBlockHeader db blockHeader =
     Create db BlockHeaders (DoNothing [''chain'', ''block_number'']) [Some (BlockHeaderM blockHeader)]"

definition CreateBtcBlockHeader :: "'s gorm \<Rightarrow> btc_block_header \<Rightarrow> 's db_write" where
  "CreateBtcBlockHeader db blockHeader =
     Create db BtcBlockHeaders (DoNothing [''height'']) [Some (BtcBlockHeaderM blockHeader)]"

definition GetBlockTime :: "'s gorm \<Rightarrow> string \<Rightarrow> u64 list \<Rightarrow> 's \<Rightarrow> (u64 \<rightharpoonup> u64) outcome" where
  "GetBlockTime db chainId blockNumbers s =
     and_then (Find db BlockHeaders None
                 (And (Eq ''chain'' (SText chainId)) (In ''block_number'' (map SNum64 blockNumbers))) s)
       (\<lambda>ms. and_then (collect expect_BlockHeader ms)
         (\<lambda>hs. Ok (foldl (\<lambda>m h. m(bh_BlockNumber h \<mapsto> bh_BlockTime h)) Map.empty hs)))"

text \<open>The chain id is not part of the query: all Bitcoin networks share one height column.\<close>

definition GetLatestIndexedHeight :: "'s gorm \<Rightarrow> string \<Rightarrow> 's \<Rightarrow> int outcome" where
  "GetLatestIndexedHeight db chainId s =
     and_then (and_then (First db BtcBlockHeaders All (Some ''height'') s) expect_BtcBlockHeader)
       (\<lambda>header. Ok (bbh_Height header))"

text \<open>\<open>PostgresClient == nil\<close> is \<^const>\<open>None\<close>.\<close>

definition GetLatestFetchedBlock :: "'s gorm option \<Rightarrow> string \<Rightarrow> 's \<Rightarrow> u64 outcome" where
  "GetLatestFetchedBlock client chainId s =
     (case client of
        None \<Rightarrow> Err (Errorf ''database client is nil'')
      | Some db \<Rightarrow>
          and_then (and_then (First db LogEventCheckPoints (Eq ''chain_id'' (SText chainId))
                                (Some ''last_block'') s) expect_LogEventCheckPoint)
            (\<lambda>c. Ok (cp_LastBlock c)))"

definition UpdateLatestFetchedBlock ::
  "'s gorm option \<Rightarrow> string \<Rightarrow> log_event_check_point \<Rightarrow> 's db_write" where
  "UpdateLatestFetchedBlock client chainId logEventCheckPoint s =
     (case client of
        None \<Rightarrow> (s, Some (Errorf ''database client is nil''))
      | Some db \<Rightarrow>
          let (s', ignored) = Create db LogEventCheckPoints
                (DoUpdates [''chain_id''] [''last_block'']) [Some (LogEventCheckPointM logEventCheckPoint)] s
          in (s', None))"

definition GetBlockHashByHeight ::
  "'s gorm \<Rightarrow> (string \<Rightarrow> hash outcome) \<Rightarrow> int \<Rightarrow> 's \<Rightarrow> hash outcome" where
  "GetBlockHashByHeight db newHashFromStr height s =
     and_then (and_then (First db BtcBlockHeaders (Eq ''height'' (SNum height)) None s)
                 expect_BtcBlockHeader)
       (\<lambda>header. newHashFromStr (bbh_Hash header))"

definition GetBlockHeaderByHeight ::
  "'s gorm \<Rightarrow> (string \<Rightarrow> hash outcome) \<Rightarrow> int \<Rightarrow> 's \<Rightarrow> block_header_lite outcome" where
  "GetBlockHeaderByHeight db newHashFromStr height s =
     and_then (and_then (First db BtcBlockHeaders (Eq ''height'' (SNum height)) None s)
                 expect_BtcBlockHeader) (\<lambda>header.
     and_then (newHashFromStr (bbh_Hash header)) (\<lambda>hash.
     and_then (newHashFromStr (bbh_PrevBlockHash header)) (\<lambda>prevHash.
     Ok \<lparr>Height = bbh_Height header, Hash = hash, PrevHash = prevHash\<rparr>)))"

definition DeleteBlockAndTxsFromHeight :: "'s gorm \<Rightarrow> int \<Rightarrow> 's db_write" where
  "DeleteBlockAndTxsFromHeight db height s =
     (case Delete db VaultTransactions (Ge ''block_number'' (SNum64 (u64_of_int height))) s of
        (s', Some e) \<Rightarrow> (s', Some e)
      | (s', None) \<Rightarrow>
          (case Delete db BtcBlockHeaders (Ge ''height'' (SNum height)) s' of
             (s'', Some e) \<Rightarrow> (s'', Some e)
           | (s'', None) \<Rightarrow> (s'', None)))"

section \<open>manipulation.go\<close>

definition SaveSingleValue :: "'s gorm \<Rightarrow> model \<Rightarrow> 's db_write" where
  "SaveSingleValue db value = Save db [value]"

definition SaveContractCalls :: "'s gorm \<Rightarrow> contract_call option list \<Rightarrow> 's db_write" where
  "SaveContractCalls db values =
     Create db ContractCalls (DoNothing [''event_id'']) (map (map_option ContractCallM) values)"

definition SaveContractCallWithTokens ::
  "'s gorm \<Rightarrow> contract_call_with_token option list \<Rightarrow> 's db_write" where
  "SaveContractCallWithTokens db values =
     Create db ContractCallWithTokens (DoNothing [''event_id'']) (map (map_option ContractCallWithTokenM) values)"

definition SaveContractCallApproveds ::
  "'s gorm \<Rightarrow> contract_call_approved option list \<Rightarrow> 's db_write" where
  "SaveContractCallApproveds db values =
     Create db ContractCallApproveds (DoNothing [''event_id'']) (map (map_option ContractCallApprovedM) values)"

definition SaveEvmRedeemTxs :: "'s gorm \<Rightarrow> evm_redeem_tx option list \<Rightarrow> 's db_write" where
  "SaveEvmRedeemTxs db values =
     Create db EvmRedeemTxs (DoNothing [''event_id'']) (map (map_option EvmRedeemTxM) values)"

definition SaveTokenDeployeds :: "'s gorm \<Rightarrow> token_deployed option list \<Rightarrow> 's db_write" where
  "SaveTokenDeployeds db values =
     Create db TokenDeployeds (DoNothing [''source_chain'', ''token_address''])
       (map (map_option TokenDeployedM) values)"

definition SaveSwitchedPhases :: "'s gorm \<Rightarrow> switched_phase option list \<Rightarrow> 's db_write" where
  "SaveSwitchedPhases db values =
     Create db SwitchedPhases
       (DoNothing [''source_chain'', ''tx_hash'', ''custodian_group_uid'', ''session_sequence''])
       (map (map_option SwitchedPhaseM) values)"

section \<open>token.go\<close>

fun expect_TokenSent :: "model \<Rightarrow> token_sent outcome" where
  "expect_TokenSent (TokenSentM t) = Ok t" | "expect_TokenSent _ = Panic TypeAssertion"

definition FindPendingBtcTokenSent :: "'s gorm \<Rightarrow> string \<Rightarrow> int \<Rightarrow> 's \<Rightarrow> token_sent list outcome" where
  "FindPendingBtcTokenSent db sourceChain height s =
     and_then (wrapf ''FindPendingBtcTokenSent with error''
       (Find db TokenSents None
          (And (And (Eq ''source_chain'' (SText sourceChain)) (Le ''block_number'' (SNum height)))
               (Eq ''status'' (STokenStatus TokenSentStatusPending))) s))
       (collect expect_TokenSent)"

definition SaveTokenSentsAndRemoveDupplicates :: "'s gorm \<Rightarrow> token_sent list \<Rightarrow> 's db_write" where
  "SaveTokenSentsAndRemoveDupplicates db tokenSents s =
     (case Begin db s of
        None \<Rightarrow> (s, Some (Errorf ''failed to begin transaction''))
      | Some tx \<Rightarrow>
          (case wrap_err ''failed to remove duplicate token sents''
                  (Delete db TokenSents
                     (And (In ''tx_hash'' (map (SText \<circ> ts_TxHash) tokenSents))
                          (Eq ''status'' (STokenStatus TokenSentStatusPending))) tx) of
             (_, Some e) \<Rightarrow> (s, Some e)
           | (tx, None) \<Rightarrow>
               (case wrap_err ''failed to save new token sents'' (Save db (map TokenSentM tokenSents) tx) of
                  (_, Some e) \<Rightarrow> (s, Some e)
                | (tx, None) \<Rightarrow>
                    (case wrap_err ''failed to commit transaction'' (Commit db tx) of
                       (_, Some e) \<Rightarrow> (s, Some e)
                     | (s', None) \<Rightarrow> (s', None)))))"

definition SaveTokenSents :: "'s gorm \<Rightarrow> token_sent option list \<Rightarrow> 's db_write" where
  "SaveTokenSents db tokenSents =
     Create db TokenSents (DoNothing [''event_id'']) (map (map_option TokenSentM) tokenSents)"

definition SaveTokenSent :: "'s gorm \<Rightarrow> token_sent \<Rightarrow> 's db_write" where
  "SaveTokenSent db tokenSent s =
     wrap_err ''failed to create evm token send''
       (Create db TokenSents (DoNothing [''event_id'']) [Some (TokenSentM tokenSent)] s)"

definition UpdateTokenSentsStatus :: "'s gorm \<Rightarrow> string list \<Rightarrow> token_sent_status \<Rightarrow> 's db_write" where
  "UpdateTokenSentsStatus db cmdIds status =
     Transaction db (\<lambda>tx.
       case and_then (Find db TokenSents None
                 (And (InSelect ''event_id'' TokenSentApproveds ''event_id''
                         (In ''command_id'' (map SText cmdIds)))
                      (Neq ''status'' (STokenStatus TokenSentStatusSuccess))) tx)
               (collect expect_TokenSent) of
         Ok tokenSents \<Rightarrow>
           Updates db TokenSents (In ''event_id'' (map (SText \<circ> ts_EventID) tokenSents))
             [(''status'', STokenStatus status)] tx
       | Err e \<Rightarrow> (tx, Some e)
       | Panic _ \<Rightarrow> (tx, Some (Errorf ''invalid row'')))"

definition SaveTokenDeployed :: "'s gorm \<Rightarrow> token_deployed \<Rightarrow> 's db_write" where
  "SaveTokenDeployed db tokenDeployed = Save db [TokenDeployedM tokenDeployed]"

definition BatchSaveTokenSents :: "'s gorm \<Rightarrow> token_sent option list \<Rightarrow> 's db_write" where
  "BatchSaveTokenSents db tokenSents s =
     (if tokenSents = [] then (s, None)
      else wrap_err ''failed to batch save token sents''
             (Create db TokenSents NoConflict (map (map_option TokenSentM) tokenSents) s))"

definition BatchSaveTokenDeployed :: "'s gorm \<Rightarrow> token_deployed option list \<Rightarrow> 's db_write" where
  "BatchSaveTokenDeployed db tokenDeployed s =
     (if tokenDeployed = [] then (s, None)
      else wrap_err ''failed to batch save token deployed''
             (Create db TokenDeployeds NoConflict (map (map_option TokenDeployedM) tokenDeployed) s))"

definition BatchSaveCommandExecuted :: "'s gorm \<Rightarrow> command_executed option list \<Rightarrow> 's db_write" where
  "BatchSaveCommandExecuted db commandExecuted s =
     (if commandExecuted = [] then (s, None)
      else wrap_err ''failed to batch save command executed''
             (Create db CommandExecuteds (DoNothing [''command_id''])
                (map (map_option CommandExecutedM) commandExecuted) s))"

definition BatchSaveSwitchedPhase :: "'s gorm \<Rightarrow> switched_phase list \<Rightarrow> 's db_write" where
  "BatchSaveSwitchedPhase db switchedPhase s =
     (if switchedPhase = [] then (s, None)
      else wrap_err ''failed to batch save switched phase''
             (Create db SwitchedPhases NoConflict (map (Some \<circ> SwitchedPhaseM) switchedPhase) s))"

definition BatchSaveEvmRedeemTx :: "'s gorm \<Rightarrow> evm_redeem_tx list \<Rightarrow> 's db_write" where
  "BatchSaveEvmRedeemTx db evmRedeemTx s =
     (if evmRedeemTx = [] then (s, None)
      else wrap_err ''failed to batch save EVM redeem tx''
             (Create db EvmRedeemTxs NoConflict (map (Some \<circ> EvmRedeemTxM) evmRedeemTx) s))"

section \<open>command.go\<close>

definition SaveCommandExecuteds :: "'s gorm \<Rightarrow> command_executed option list \<Rightarrow> 's db_write" where
  "SaveCommandExecuteds db values s =
     wrap_err ''failed to save command executed''
       (Create db CommandExecuteds (DoNothing [''command_id'']) (map (map_option CommandExecutedM) values) s)"

definition SaveCommandExecuted :: "'s gorm \<Rightarrow> command_executed \<Rightarrow> 's db_write" where
  "SaveCommandExecuted db cmdExecuted s =
     wrap_err ''failed to save command executed''
       (Create db CommandExecuteds (DoNothing [''command_id'']) [Some (CommandExecutedM cmdExecuted)] s)"

definition UpdateRedeemExecutedCommands :: "'s gorm \<Rightarrow> string \<Rightarrow> string list \<Rightarrow> 's db_write" where
  "UpdateRedeemExecutedCommands db chainId txHashes =
     Exec db (''UPDATE contract_call_with_tokens as ccwt SET status = ? WHERE ccwt.event_id IN ''
        @ ''(SELECT ccawm.event_id FROM contract_call_approved_with_mints as ccawm ''
        @ ''JOIN commands as c ON ccawm.command_id = c.command_id ''
        @ ''WHERE c.chain_id = ? AND c.executed_tx_hash IN (?))'')
       (SCallStatus ContractCallStatusSuccess # SText chainId # map SText txHashes)"

section \<open>contractcall.go\<close>

fun expect_ContractCall :: "model \<Rightarrow> contract_call outcome" where
  "expect_ContractCall (ContractCallM c) = Ok c" | "expect_ContractCall _ = Panic TypeAssertion"

fun expect_ContractCallWithToken :: "model \<Rightarrow> contract_call_with_token outcome" where
  "expect_ContractCallWithToken (ContractCallWithTokenM c) = Ok c"
| "expect_ContractCallWithToken _ = Panic TypeAssertion"

definition UpdateContractCallApproved :: "'s gorm \<Rightarrow> string \<Rightarrow> string \<Rightarrow> 's db_write" where
  "UpdateContractCallApproved db messageID executeHash =
     Updates db ContractCalls (Eq ''id'' (SText messageID))
       [(''execute_hash'', SText executeHash), (''status'', SCallStatus ContractCallStatusApproved)]"

definition FindContractCallByCommnadId :: "'s gorm \<Rightarrow> string \<Rightarrow> 's \<Rightarrow> contract_call outcome" where
  "FindContractCallByCommnadId db commandId s =
     and_then (First db ContractCalls (Eq ''command_id'' (SText commandId)) None s) expect_ContractCall"

definition FindContractCallWithTokenPayloadByEventId ::
  "'s gorm \<Rightarrow> string \<Rightarrow> 's \<Rightarrow> contract_call_with_token outcome" where
  "FindContractCallWithTokenPayloadByEventId db eventId s =
     and_then (First db ContractCallWithTokens (Eq ''event_id'' (SText eventId)) None s)
       expect_ContractCallWithToken"

definition FindContractCallPayloadByHash :: "'s gorm \<Rightarrow> string \<Rightarrow> 's \<Rightarrow> bytes outcome" where
  "FindContractCallPayloadByHash db payloadHash s =
     and_then (wrapf ''failed to find payload by hash''
       (and_then (First db ContractCalls (Eq ''payload_hash'' (SText (ToLower payloadHash))) None s)
          expect_ContractCall))
       (\<lambda>c. Ok (cc_Payload c))"

definition FindContractCallByParams ::
  "'s gorm \<Rightarrow> string \<Rightarrow> string \<Rightarrow> string \<Rightarrow> 's \<Rightarrow> contract_call list outcome" where
  "FindContractCallByParams db sourceAddress destContractAddress payloadHash s =
     and_then (wrapf ''find relaydatas by contract call with error''
       (Find db ContractCalls (Some ''CallContract'')
          (And (And (And (Eq ''contract_address'' (SText (ToLower destContractAddress)))
                         (Eq ''source_address'' (SText (ToLower sourceAddress))))
                    (Eq ''payload_hash'' (SText (ToLower payloadHash))))
               (In ''status'' [SCallStatus ContractCallStatusPending, SCallStatus ContractCallStatusApproved])) s))
       (collect expect_ContractCall)"

text \<open>\<open>Updates\<close> with a struct writes its non-zero fields only.\<close>

definition nonzero_fields :: "contract_call_status \<Rightarrow> string \<Rightarrow> (string \<times> sql_value) list" where
  "nonzero_fields status executeHash =
     (if status = ContractCallStatusUnset then [] else [(''status'', SCallStatus status)])
     @ (if executeHash = [] then [] else [(''execute_hash'', SText executeHash)])"

definition updateCallContract :: "'s gorm \<Rightarrow> string \<Rightarrow> (string \<times> sql_value) list \<Rightarrow> 's db_write" where
  "updateCallContract db eventId data = Updates db ContractCalls (Eq ''event_id'' (SText eventId)) data"

definition updateCallContractWithToken ::
  "'s gorm \<Rightarrow> string \<Rightarrow> (string \<times> sql_value) list \<Rightarrow> 's db_write" where
  "updateCallContractWithToken db eventId data =
     Updates db ContractCallWithTokens (Eq ''event_id'' (SText eventId)) data"

definition UpdateCallContractWithTokenExecuteHash ::
  "'s gorm \<Rightarrow> string \<Rightarrow> contract_call_status \<Rightarrow> string \<Rightarrow> 's db_write" where
  "UpdateCallContractWithTokenExecuteHash db eventId status executeHash =
     updateCallContractWithToken db eventId (nonzero_fields status executeHash)"

definition CreateContractCall :: "'s gorm \<Rightarrow> contract_call \<Rightarrow> 's db_write" where
  "CreateContractCall db contractCall s =
     wrap_err ''failed to create evm contract call'' (Save db [ContractCallM contractCall] s)"

definition CreateContractCallWithToken :: "'s gorm \<Rightarrow> contract_call_with_token \<Rightarrow> 's db_write" where
  "CreateContractCallWithToken db c s =
     wrap_err ''failed to create evm contract call with token'' (Save db [ContractCallWithTokenM c] s)"

record contract_call_execute_result =
  EventId :: string
  Status :: contract_call_status

fun update_items :: "'s gorm \<Rightarrow> contract_call_execute_result list \<Rightarrow> 's db_write" where
  "update_items db [] tx = (tx, None)"
| "update_items db (item # items) tx =
     (case wrap_err ''failed to update contract call batch''
             (Updates db ContractCalls (Eq ''event_id'' (SText (EventId item)))
                (nonzero_fields (Status item) []) tx) of
        (tx', Some e) \<Rightarrow> (tx', Some e)
      | (tx', None) \<Rightarrow> update_items db items tx')"

text \<open>
  The body of the chunk loop runs the updates of one chunk. \<^const>\<open>None\<close> is the loop that
  never ends (a zero batch size) and a negative batch size panics; in both cases no chunk
  is processed before, so the chunks may be computed first.
\<close>

definition UpdateBatchContractCallStatus ::
  "'s gorm \<Rightarrow> contract_call_execute_result list \<Rightarrow> int \<Rightarrow> 's \<Rightarrow> ('s \<times> go_error option) outcome option" where
  "UpdateBatchContractCallStatus db data batchSize s =
     (if data = [] then Some (Ok (s, None))
      else if Begin db s = None then Some (Ok (s, Some (Errorf ''failed to begin transaction'')))
      else
        (case chunk_loop batchSize data 0 [] of
           None \<Rightarrow> None
         | Some (Panic p) \<Rightarrow> Some (Panic p)
         | Some (Err e) \<Rightarrow> Some (Err e)
         | Some (Ok chunks) \<Rightarrow> Some (Ok (Transaction db (update_items db (concat chunks)) s))))"

definition BatchCreateContractCalls :: "'s gorm \<Rightarrow> contract_call list \<Rightarrow> 's db_write" where
  "BatchCreateContractCalls db contractCalls s =
     (if contractCalls = [] then (s, None)
      else wrap_err ''failed to batch create contract calls''
             (Create db ContractCalls NoConflict (map (Some \<circ> ContractCallM) contractCalls) s))"

definition BatchCreateContractCallsWithToken ::
  "'s gorm \<Rightarrow> contract_call_with_token option list \<Rightarrow> 's db_write" where
  "BatchCreateContractCallsWithToken db calls s =
     (if calls = [] then (s, None)
      else wrap_err ''failed to batch create contract calls with token''
             (Create db ContractCallWithTokens NoConflict (map (map_option ContractCallWithTokenM) calls) s))"

end
