(* ===== verification/DatabaseLaws.thy ===== *)
theory DatabaseLaws
  imports Database "HOL-Library.Sublist"
begin

text \<open>
  What GORM and PostgreSQL promise about the statements the adapter sends (the locale
  \<open>gorm_engine\<close>), what follows for the adapter's functions, and an in-memory engine that keeps
  the promises.
\<close>

section \<open>The meaning of the statements\<close>

type_synonym columns = "model \<Rightarrow> string \<Rightarrow> sql_value"

fun num_le :: "sql_value \<Rightarrow> sql_value \<Rightarrow> bool" where
  "num_le (SNum a) (SNum b) \<longleftrightarrow> a \<le> b"
| "num_le _ _ \<longleftrightarrow> False"

text \<open>Ordering by a column: only numeric columns are ordered by the adapter's queries.\<close>

fun sql_num :: "sql_value \<Rightarrow> int" where
  "sql_num (SNum a) = a"
| "sql_num _ = 0"

definition num_less :: "sql_value \<Rightarrow> sql_value \<Rightarrow> bool" where
  "num_less a b \<longleftrightarrow> sql_num a < sql_num b"

fun holds :: "columns \<Rightarrow> model list \<Rightarrow> cond \<Rightarrow> model \<Rightarrow> bool" where
  "holds column rs All m \<longleftrightarrow> True"
| "holds column rs (Eq c v) m \<longleftrightarrow> column m c = v"
| "holds column rs (Neq c v) m \<longleftrightarrow> column m c \<noteq> v"
| "holds column rs (Le c v) m \<longleftrightarrow> num_le (column m c) v"
| "holds column rs (Ge c v) m \<longleftrightarrow> num_le v (column m c)"
| "holds column rs (In c vs) m \<longleftrightarrow> column m c \<in> set vs"
| "holds column rs (InSelect c t c' q) m \<longleftrightarrow>
     (\<exists>r \<in> set rs. table_of r = t \<and> holds column rs q r \<and> column r c' = column m c)"
| "holds column rs (And p q) m \<longleftrightarrow> holds column rs p m \<and> holds column rs q m"

definition matching :: "columns \<Rightarrow> table \<Rightarrow> cond \<Rightarrow> model list \<Rightarrow> model list" where
  "matching column t c rs = filter (\<lambda>m. table_of m = t \<and> holds column rs c m) rs"

definition key :: "columns \<Rightarrow> string list \<Rightarrow> model \<Rightarrow> table \<times> sql_value list" where
  "key column cols m = (table_of m, map (column m) cols)"

definition insert_row ::
  "columns \<Rightarrow> (string list \<Rightarrow> model \<Rightarrow> model \<Rightarrow> model) \<Rightarrow> on_conflict \<Rightarrow> model list \<Rightarrow> model \<Rightarrow> model list" where
  "insert_row column assign oc rs m =
     (case oc of
        NoConflict \<Rightarrow> rs @ [m]
      | RawClause _ \<Rightarrow> rs @ [m]
      | DoNothing cols \<Rightarrow> if key column cols m \<in> key column cols ` set rs then rs else rs @ [m]
      | DoUpdates cols upd \<Rightarrow>
          if key column cols m \<in> key column cols ` set rs
          then map (\<lambda>r. if key column cols r = key column cols m then assign upd r m else r) rs
          else rs @ [m])"

text \<open>Column names: GORM's snake-case naming of the fields the queries use.\<close>

definition gorm_columns :: "columns \<Rightarrow> bool" where
  "gorm_columns column \<longleftrightarrow>
     (\<forall>h. column (BtcBlockHeaderM h) ''height'' = SNum (bbh_Height h))
   \<and> (\<forall>t. column (VaultTransactionM t) ''block_number'' = SNum (uint (vt_BlockNumber t)))
   \<and> (\<forall>t. column (VaultTransactionM t) ''chain'' = SText (vt_Chain t))
   \<and> (\<forall>t. column (VaultTransactionM t) ''tx_hash'' = SText (vt_TxHash t))
   \<and> (\<forall>h. column (BlockHeaderM h) ''chain'' = SText (bh_Chain h))
   \<and> (\<forall>h. column (BlockHeaderM h) ''block_number'' = SNum (uint (bh_BlockNumber h)))
   \<and> (\<forall>t. column (TokenSentM t) ''event_id'' = SText (ts_EventID t))
   \<and> (\<forall>c. column (ContractCallWithTokenM c) ''event_id'' = SText (cc_EventID (ccwt_ContractCall c)))
   \<and> (\<forall>c. column (LogEventCheckPointM c) ''chain_id'' = SText (cp_ChainID c))
   \<and> (\<forall>c. column (LogEventCheckPointM c) ''last_block'' = SNum (uint (cp_LastBlock c)))"

lemma gorm_columnsD:
  assumes "gorm_columns column"
  shows "column (BtcBlockHeaderM h) ''height'' = SNum (bbh_Height h)"
    "column (VaultTransactionM t) ''block_number'' = SNum (uint (vt_BlockNumber t))"
    "column (BlockHeaderM b) ''chain'' = SText (bh_Chain b)"
    "column (BlockHeaderM b) ''block_number'' = SNum (uint (bh_BlockNumber b))"
    "column (TokenSentM ts) ''event_id'' = SText (ts_EventID ts)"
    "column (LogEventCheckPointM c) ''chain_id'' = SText (cp_ChainID c)"
    "column (LogEventCheckPointM c) ''last_block'' = SNum (uint (cp_LastBlock c))"
    "column (VaultTransactionM t) ''chain'' = SText (vt_Chain t)"
    "column (VaultTransactionM t) ''tx_hash'' = SText (vt_TxHash t)"
  using assms by (simp_all add: gorm_columns_def)

section \<open>Inserting with DO NOTHING\<close>

definition insert_rows ::
  "columns \<Rightarrow> (string list \<Rightarrow> model \<Rightarrow> model \<Rightarrow> model) \<Rightarrow> on_conflict \<Rightarrow> model list \<Rightarrow> model list \<Rightarrow> model list" where
  "insert_rows column assign oc rs ms = foldl (insert_row column assign oc) rs ms"

lemma insert_rows_simps [simp]:
  "insert_rows column assign oc rs [] = rs"
  "insert_rows column assign oc rs (m # ms) =
     insert_rows column assign oc (insert_row column assign oc rs m) ms"
  by (simp_all add: insert_rows_def)

lemma insert_nothing_keys:
  "key column cols ` set (insert_rows column assign (DoNothing cols) rs ms) =
     key column cols ` set rs \<union> key column cols ` set ms"
proof (induction ms arbitrary: rs)
  case (Cons m ms)
  have "key column cols ` set (insert_row column assign (DoNothing cols) rs m) =
      insert (key column cols m) (key column cols ` set rs)"
    by (auto simp: insert_row_def)
  then show ?case using Cons by auto
qed simp

lemma insert_nothing_extends:
  "\<exists>new. insert_rows column assign (DoNothing cols) rs ms = rs @ new \<and> set new \<subseteq> set ms"
proof (induction ms arbitrary: rs)
  case (Cons m ms)
  show ?case
    using Cons [of rs] Cons [of "rs @ [m]"] by (fastforce simp: insert_row_def)
qed simp

lemma insert_nothing_present:
  "key column cols ` set ms \<subseteq> key column cols ` set rs \<Longrightarrow>
     insert_rows column assign (DoNothing cols) rs ms = rs"
  by (induction ms) (auto simp: insert_row_def)

lemma insert_nothing_distinct:
  "distinct (map (key column cols) (filter (\<lambda>r. table_of r = t) rs)) \<Longrightarrow>
     distinct (map (key column cols) (filter (\<lambda>r. table_of r = t) (insert_rows column assign (DoNothing cols) rs ms)))"
proof (induction ms arbitrary: rs)
  case (Cons m ms)
  have "distinct (map (key column cols)
      (filter (\<lambda>r. table_of r = t) (insert_row column assign (DoNothing cols) rs m)))"
    using Cons.prems by (auto simp: insert_row_def)
  then show ?case using Cons.IH by simp
qed simp

lemma insert_nothing_filter:
  "table_of m \<noteq> t \<Longrightarrow>
     filter (\<lambda>r. table_of r = t) (insert_row column assign (DoNothing cols) rs m) = filter (\<lambda>r. table_of r = t) rs"
  by (simp add: insert_row_def)

text \<open>The transfers among the rows.\<close>

definition token_sents :: "model list \<Rightarrow> token_sent list" where
  "token_sents rs = concat (map (\<lambda>m. case m of TokenSentM t \<Rightarrow> [t] | _ \<Rightarrow> []) rs)"

lemma token_sents_simps [simp]:
  "token_sents [] = []" "token_sents (m # rs) = (case m of TokenSentM t \<Rightarrow> [t] | _ \<Rightarrow> []) @ token_sents rs"
  by (simp_all add: token_sents_def)

lemma token_sent_keys:
  assumes "gorm_columns column"
  shows "map (key column [''event_id'']) (filter (\<lambda>r. table_of r = TokenSents) rs) =
    map (\<lambda>t. (TokenSents, [SText (ts_EventID t)])) (token_sents rs)"
  by (induction rs) (auto simp: key_def gorm_columnsD [OF assms] split: model.splits)

lemma distinct_token_sents:
  assumes "gorm_columns column"
  shows "distinct (map ts_EventID (token_sents rs)) \<longleftrightarrow>
    distinct (map (key column [''event_id'']) (filter (\<lambda>r. table_of r = TokenSents) rs))"
  unfolding token_sent_keys [OF assms] by (auto simp: distinct_map inj_on_def)

section \<open>The contract of the engine\<close>

text \<open>
  A statement either succeeds with its meaning or fails without effect; a query returns a
  row that satisfies its condition, the greatest one under an \<open>ORDER BY \<dots> DESC\<close>, and fails when there
  is none (\<open>gorm.ErrRecordNotFound\<close>). Any statement may fail for reasons of its own. A nil
  pointer in the slice of a \<open>Create\<close> is \<open>gorm.ErrInvalidData\<close>.
\<close>

locale gorm_engine =
  fixes db :: "'s gorm" and rows :: "'s \<Rightarrow> model list" and column :: columns
    and assign :: "string list \<Rightarrow> model \<Rightarrow> model \<Rightarrow> model"
  assumes create_ok: "Create db t oc (map Some ms) s = (s', None) \<Longrightarrow> (\<forall>q. oc \<noteq> RawClause q) \<Longrightarrow>
      rows s' = insert_rows column assign oc (rows s) ms"
    and create_err: "Create db t oc ps s = (s', Some e) \<Longrightarrow> rows s' = rows s"
    and create_nil: "None \<in> set ps \<Longrightarrow> snd (Create db t oc ps s) \<noteq> None"
    and delete_ok: "Delete db t c s = (s', None) \<Longrightarrow>
      rows s' = filter (\<lambda>m. \<not> (table_of m = t \<and> holds column (rows s) c m)) (rows s)"
    and delete_err: "Delete db t c s = (s', Some e) \<Longrightarrow> rows s' = rows s"
    and first_row: "First db t c ord s = Ok m \<Longrightarrow> m \<in> set (matching column t c (rows s))
      \<and> (\<forall>col. ord = Some col \<longrightarrow> (\<forall>m' \<in> set (matching column t c (rows s)). \<not> num_less (column m col) (column m' col)))"
    and first_none: "matching column t c (rows s) = [] \<Longrightarrow> \<exists>e. First db t c ord s = Err e"
    and first_no_panic: "First db t c ord s \<noteq> Panic p"
    and named_columns: "gorm_columns column"
    and assigned: "assign [''last_block''] (LogEventCheckPointM cp) (LogEventCheckPointM cp') =
      LogEventCheckPointM (cp\<lparr>cp_LastBlock := cp_LastBlock cp'\<rparr>)"
begin

lemmas column_simps = gorm_columnsD [OF named_columns]

lemma created:
  assumes "Create db t (DoNothing cols) (map Some ms) s = (s', None)"
  shows "\<exists>new. rows s' = rows s @ new \<and> set new \<subseteq> set ms"
    "m \<in> set ms \<Longrightarrow> \<exists>r \<in> set (rows s'). key column cols r = key column cols m"
    "distinct (map (key column cols) (filter (\<lambda>r. table_of r = u) (rows s))) \<Longrightarrow>
       distinct (map (key column cols) (filter (\<lambda>r. table_of r = u) (rows s')))"
  using create_ok [OF assms, simplified] insert_nothing_extends insert_nothing_distinct
    insert_nothing_keys [of column cols assign "rows s" ms]
  by (auto simp: image_iff) (metis (no_types, lifting) UnCI imageI image_iff)+

lemma created_again:
  assumes "Create db t (DoNothing cols) (map Some ms) s = (s', None)"
    and "Create db t (DoNothing cols) (map Some ms') s' = (s'', None)" and "set ms' \<subseteq> set ms"
  shows "rows s'' = rows s'"
  using create_ok [OF assms(1), simplified] create_ok [OF assms(2), simplified] assms(3)
    insert_nothing_keys [of column cols assign "rows s" ms]
  by (simp add: image_mono insert_nothing_present le_supI2)

lemma header_at:
  assumes "First db BtcBlockHeaders (Eq ''height'' (SNum height)) ord s = Ok m"
  shows "\<exists>h. m = BtcBlockHeaderM h \<and> bbh_Height h = height \<and> m \<in> set (rows s)"
  using first_row [OF assms] by (auto simp: matching_def table_of_constructors column_simps)

lemma deleted_from:
  assumes "DeleteBlockAndTxsFromHeight db height s = (s', None)"
  shows "rows s' = filter (\<lambda>m. case m of
      VaultTransactionM t \<Rightarrow> vt_BlockNumber t < u64_of_int height
    | BtcBlockHeaderM h \<Rightarrow> bbh_Height h < height | _ \<Rightarrow> True) (rows s)"
proof -
  from assms obtain t where
    d: "Delete db VaultTransactions (Ge ''block_number'' (SNum64 (u64_of_int height))) s = (t, None)"
      "Delete db BtcBlockHeaders (Ge ''height'' (SNum height)) t = (s', None)"
    by (auto simp: DeleteBlockAndTxsFromHeight_def split: prod.splits option.splits)
  show ?thesis
    unfolding delete_ok [OF d(2)] delete_ok [OF d(1)] filter_filter
    by (rule filter_cong [OF refl])
      (auto simp: table_of_constructors column_simps SNum64_def not_le word_less_def split: model.splits)
qed

lemma saved_tokens:
  assumes "SaveTokenSents db (map Some ts) s = (s', None)"
  shows "(\<exists>new. rows s' = rows s @ new \<and> set new \<subseteq> TokenSentM ` set ts)
    \<and> (\<forall>t \<in> set ts. \<exists>t'. TokenSentM t' \<in> set (rows s') \<and> ts_EventID t' = ts_EventID t)
    \<and> (distinct (map ts_EventID (token_sents (rows s))) \<longrightarrow> distinct (map ts_EventID (token_sents (rows s'))))"
proof -
  have c: "Create db TokenSents (DoNothing [''event_id'']) (map Some (map TokenSentM ts)) s = (s', None)"
    using assms by (simp add: SaveTokenSents_def comp_def)
  have "\<exists>t'. TokenSentM t' \<in> set (rows s') \<and> ts_EventID t' = ts_EventID t" if t: "t \<in> set ts" for t
  proof -
    have "TokenSentM t \<in> set (map TokenSentM ts)" using t by simp
    from created(2) [OF c this] obtain r where r: "r \<in> set (rows s')"
      "key column [''event_id''] r = key column [''event_id''] (TokenSentM t)" by blast
    then show ?thesis by (cases r rule: model.exhaust) (auto simp: key_def column_simps)
  qed
  moreover have "\<exists>new. rows s' = rows s @ new \<and> set new \<subseteq> TokenSentM ` set ts"
    using created(1) [OF c] by simp
  ultimately show ?thesis
    using created(3) [OF c, of TokenSents] distinct_token_sents [OF named_columns] by blast
qed

lemma saved_tokens_again:
  assumes "SaveTokenSents db (map Some ts) s = (s', None)"
    and "set ts' \<subseteq> set ts" and "SaveTokenSents db (map Some ts') s' = (s'', None)"
  shows "rows s'' = rows s'"
proof (rule created_again)
  show "Create db TokenSents (DoNothing [''event_id'']) (map Some (map TokenSentM ts)) s = (s', None)"
    using assms(1) by (simp add: SaveTokenSents_def comp_def)
  show "Create db TokenSents (DoNothing [''event_id'']) (map Some (map TokenSentM ts')) s' = (s'', None)"
    using assms(3) by (simp add: SaveTokenSents_def comp_def)
  show "set (map TokenSentM ts') \<subseteq> set (map TokenSentM ts)" using assms(2) by auto
qed

lemma header_created:
  assumes "CreateBtcBlockHeader db h s = (s', None)"
  shows "rows s' = (if \<exists>h'. BtcBlockHeaderM h' \<in> set (rows s) \<and> bbh_Height h' = bbh_Height h
    then rows s else rows s @ [BtcBlockHeaderM h])"
proof -
  have k: "key column [''height''] m = key column [''height''] (BtcBlockHeaderM h)
      \<longleftrightarrow> (\<exists>h'. m = BtcBlockHeaderM h' \<and> bbh_Height h' = bbh_Height h)" for m
    by (cases m) (simp_all add: key_def column_simps)
  have "key column [''height''] (BtcBlockHeaderM h) \<in> key column [''height''] ` set (rows s)
      \<longleftrightarrow> (\<exists>h'. BtcBlockHeaderM h' \<in> set (rows s) \<and> bbh_Height h' = bbh_Height h)"
    unfolding image_iff using k by metis
  then show ?thesis
    using create_ok [of _ _ "[BtcBlockHeaderM h]"] assms
    by (simp add: CreateBtcBlockHeader_def insert_row_def)
qed

text \<open>A checkpoint replaces the last block of its chain's row, or is appended as the first one.\<close>

lemma checkpoint_rows:
  assumes "Create db LogEventCheckPoints (DoUpdates [''chain_id''] [''last_block''])
      [Some (LogEventCheckPointM \<lparr>cp_ChainID = chain, cp_LastBlock = b\<rparr>)] s = (s', None)"
  shows "rows s' = (if \<exists>c. LogEventCheckPointM c \<in> set (rows s) \<and> cp_ChainID c = chain
    then map (\<lambda>m. case m of LogEventCheckPointM c \<Rightarrow>
           if cp_ChainID c = chain then LogEventCheckPointM (c\<lparr>cp_LastBlock := b\<rparr>) else m | _ \<Rightarrow> m) (rows s)
    else rows s @ [LogEventCheckPointM \<lparr>cp_ChainID = chain, cp_LastBlock = b\<rparr>])"
proof -
  let ?cp = "\<lparr>cp_ChainID = chain, cp_LastBlock = b\<rparr>"
  let ?k = "key column [''chain_id'']"
  have r: "rows s' = insert_row column assign (DoUpdates [''chain_id''] [''last_block'']) (rows s) (LogEventCheckPointM ?cp)"
    using create_ok [of _ _ "[LogEventCheckPointM ?cp]"] assms by simp
  have k: "?k m = ?k (LogEventCheckPointM ?cp) \<longleftrightarrow> (\<exists>c. m = LogEventCheckPointM c \<and> cp_ChainID c = chain)" for m
    by (cases m) (simp_all add: key_def column_simps)
  let ?old = "\<exists>c. LogEventCheckPointM c \<in> set (rows s) \<and> cp_ChainID c = chain"
  let ?set = "\<lambda>m. case m of LogEventCheckPointM c \<Rightarrow>
      if cp_ChainID c = chain then LogEventCheckPointM (c\<lparr>cp_LastBlock := b\<rparr>) else m | _ \<Rightarrow> m"
  have "?k (LogEventCheckPointM ?cp) \<in> ?k ` set (rows s) \<longleftrightarrow> ?old"
    unfolding image_iff using k by metis
  moreover have "(if ?k m = ?k (LogEventCheckPointM ?cp)
      then assign [''last_block''] m (LogEventCheckPointM ?cp) else m) = ?set m" for m
    unfolding k by (cases m) (simp_all add: assigned)
  ultimately show ?thesis unfolding r insert_row_def by simp
qed

lemma checkpointed:
  assumes "Create db LogEventCheckPoints (DoUpdates [''chain_id''] [''last_block''])
      [Some (LogEventCheckPointM \<lparr>cp_ChainID = chain, cp_LastBlock = b\<rparr>)] s = (s', None)"
  shows "LogEventCheckPointM c \<in> set (rows s') \<Longrightarrow> cp_ChainID c = chain \<Longrightarrow> cp_LastBlock c = b"
    "cp_ChainID c \<noteq> chain \<Longrightarrow> LogEventCheckPointM c \<in> set (rows s') \<longleftrightarrow> LogEventCheckPointM c \<in> set (rows s)"
    "\<exists>c. LogEventCheckPointM c \<in> set (rows s') \<and> cp_ChainID c = chain"
proof -
  let ?set = "\<lambda>m. case m of LogEventCheckPointM c \<Rightarrow>
      if cp_ChainID c = chain then LogEventCheckPointM (c\<lparr>cp_LastBlock := b\<rparr>) else m | _ \<Rightarrow> m"
  note u = checkpoint_rows [OF assms]
  have "cp_LastBlock c = b" if "LogEventCheckPointM c = ?set m" "cp_ChainID c = chain" for m
    using that by (cases m) (auto split: if_splits)
  then show "LogEventCheckPointM c \<in> set (rows s') \<Longrightarrow> cp_ChainID c = chain \<Longrightarrow> cp_LastBlock c = b"
    unfolding u by (cases c) (auto simp: image_iff split: if_splits)
  have "LogEventCheckPointM c = ?set m \<longleftrightarrow> LogEventCheckPointM c = m" if "cp_ChainID c \<noteq> chain" for m
    using that by (cases m) auto
  then show "cp_ChainID c \<noteq> chain \<Longrightarrow> LogEventCheckPointM c \<in> set (rows s') \<longleftrightarrow> LogEventCheckPointM c \<in> set (rows s)"
    unfolding u by (auto simp: image_iff)
  show "\<exists>c. LogEventCheckPointM c \<in> set (rows s') \<and> cp_ChainID c = chain"
  proof (cases "\<exists>c. LogEventCheckPointM c \<in> set (rows s) \<and> cp_ChainID c = chain")
    case True
    then obtain c where c: "LogEventCheckPointM c \<in> set (rows s)" "cp_ChainID c = chain" by blast
    have "set (rows s') = ?set ` set (rows s)" unfolding u if_P [OF True] by simp
    moreover have "?set (LogEventCheckPointM c) \<in> ?set ` set (rows s)" by (rule imageI) (rule c(1))
    ultimately have "?set (LogEventCheckPointM c) \<in> set (rows s')" by (simp only:)
    with c(2) show ?thesis by (intro exI [of _ "c\<lparr>cp_LastBlock := b\<rparr>"]) simp
  next
    case False
    then have "set (rows s') = insert (LogEventCheckPointM \<lparr>cp_ChainID = chain, cp_LastBlock = b\<rparr>) (set (rows s))"
      unfolding u if_not_P [OF False] by simp
    then show ?thesis by (intro exI [of _ "\<lparr>cp_ChainID = chain, cp_LastBlock = b\<rparr>"]) simp
  qed
qed

lemma checkpoint_read:
  assumes "Create db LogEventCheckPoints (DoUpdates [''chain_id''] [''last_block''])
      [Some (LogEventCheckPointM \<lparr>cp_ChainID = chain, cp_LastBlock = b\<rparr>)] s = (s', None)"
    and "GetLatestFetchedBlock (Some db) chain s' = r"
  shows "r = Ok b \<or> (\<exists>e. r = Err e)"
proof (cases "First db LogEventCheckPoints (Eq ''chain_id'' (SText chain)) (Some ''last_block'') s'")
  case (Ok m)
  then have "m \<in> set (matching column LogEventCheckPoints (Eq ''chain_id'' (SText chain)) (rows s'))"
    using first_row by blast
  then obtain c where "m = LogEventCheckPointM c" "cp_ChainID c = chain" "LogEventCheckPointM c \<in> set (rows s')"
    by (auto simp: matching_def table_of_constructors column_simps)
  then show ?thesis
    using assms(2) Ok checkpointed(1) [OF assms(1)] by (auto simp: GetLatestFetchedBlock_def)
qed (use assms(2) first_no_panic in \<open>auto simp: GetLatestFetchedBlock_def\<close>)

end

section \<open>An in-memory engine\<close>

text \<open>An executable engine over a list of rows; it keeps every law.\<close>

fun mem_column :: columns where
  "mem_column (BtcBlockHeaderM h) c = (if c = ''height'' then SNum (bbh_Height h) else SText [])"
| "mem_column (VaultTransactionM t) c =
     (if c = ''block_number'' then SNum (uint (vt_BlockNumber t))
      else if c = ''chain'' then SText (vt_Chain t)
      else if c = ''tx_hash'' then SText (vt_TxHash t) else SText [])"
| "mem_column (BlockHeaderM h) c =
     (if c = ''chain'' then SText (bh_Chain h)
      else if c = ''block_number'' then SNum (uint (bh_BlockNumber h)) else SText [])"
| "mem_column (TokenSentM t) c = (if c = ''event_id'' then SText (ts_EventID t) else SText [])"
| "mem_column (ContractCallWithTokenM t) c =
     (if c = ''event_id'' then SText (cc_EventID (ccwt_ContractCall t)) else SText [])"
| "mem_column (LogEventCheckPointM p) c =
     (if c = ''chain_id'' then SText (cp_ChainID p)
      else if c = ''last_block'' then SNum (uint (cp_LastBlock p)) else SText [])"
| "mem_column _ _ = SText []"

fun mem_assign :: "string list \<Rightarrow> model \<Rightarrow> model \<Rightarrow> model" where
  "mem_assign cols (LogEventCheckPointM c) (LogEventCheckPointM c') =
     (if ''last_block'' \<in> set cols then LogEventCheckPointM (c\<lparr>cp_LastBlock := cp_LastBlock c'\<rparr>)
      else LogEventCheckPointM c)"
| "mem_assign cols m _ = m"

fun greatest :: "string \<Rightarrow> model \<Rightarrow> model list \<Rightarrow> model" where
  "greatest col m [] = m"
| "greatest col m (x # xs) =
     greatest col (if num_less (mem_column m col) (mem_column x col) then x else m) xs"

definition mem_engine :: "model list gorm" where
  "mem_engine = \<lparr>
     Create = (\<lambda>t oc ps s. if None \<in> set ps then (s, Some (Errorf ''unsupported data''))
                 else (insert_rows mem_column mem_assign oc s (map the ps), None)),
     Save = (\<lambda>ms s. (s @ ms, None)),
     First = (\<lambda>t c ord s. case matching mem_column t c s of
                 [] \<Rightarrow> Err (Errorf ''record not found'')
               | m # ms \<Rightarrow> (case ord of None \<Rightarrow> Ok m | Some col \<Rightarrow> Ok (greatest col m ms))),
     Find = (\<lambda>t j c s. Ok (matching mem_column t c s)),
     Delete = (\<lambda>t c s. (filter (\<lambda>m. \<not> (table_of m = t \<and> holds mem_column s c m)) s, None)),
     Updates = (\<lambda>t c us s. (s, None)),
     Exec = (\<lambda>q vs s. (s, None)),
     Begin = Some,
     Commit = (\<lambda>s. (s, None)),
     AutoMigrate = (\<lambda>ts s. (s, None))\<rparr>"

lemma greatest_mem: "greatest col m xs \<in> insert m (set xs)"
  by (induction xs arbitrary: m) (auto split: if_splits)

lemma greatest_not_less:
  "y \<in> insert m (set xs) \<Longrightarrow> \<not> num_less (mem_column (greatest col m xs) col) (mem_column y col)"
proof (induction xs arbitrary: m y)
  case (Cons x xs)
  let ?m = "if num_less (mem_column m col) (mem_column x col) then x else m"
  have "\<not> num_less (mem_column (greatest col ?m xs) col) (mem_column ?m col)"
    using Cons.IH [of ?m] by simp
  then have "\<not> num_less (mem_column (greatest col ?m xs) col) (mem_column y col)" if "y = m \<or> y = x"
    using that by (auto simp: num_less_def split: if_splits)
  then show ?case using Cons by auto
qed (simp add: num_less_def)

interpretation mem: gorm_engine mem_engine "\<lambda>s. s" mem_column mem_assign
proof
  fix t c ord m and s :: "model list"
  assume "First mem_engine t c ord s = Ok m"
  then show "m \<in> set (matching mem_column t c s)
      \<and> (\<forall>col. ord = Some col \<longrightarrow> (\<forall>m' \<in> set (matching mem_column t c s). \<not> num_less (mem_column m col) (mem_column m' col)))"
    using greatest_mem greatest_not_less
    by (auto simp: mem_engine_def split: list.splits option.splits)
qed (auto simp: mem_engine_def gorm_columns_def comp_def split: list.splits option.splits if_splits)

section \<open>A database that accepts rows\<close>

text \<open>An engine that accepts every insert of complete rows.\<close>

locale accepting_engine = gorm_engine +
  assumes accepts: "None \<notin> set ps \<Longrightarrow> snd (Create db t (DoNothing cols) ps s) = None"

interpretation mem_accepting: accepting_engine mem_engine "\<lambda>s. s" mem_column mem_assign
  by unfold_locales (simp add: mem_engine_def)

context gorm_engine
begin

lemma create_nothing_extends: "prefix (rows s) (rows (fst (Create db t (DoNothing cols) ps s)))"
proof (cases "Create db t (DoNothing cols) ps s")
  case (Pair s' err)
  show ?thesis
  proof (cases err)
    case None
    then have "None \<notin> set ps" using create_nil [of ps t "DoNothing cols" s] Pair by auto
    then have "ps = map Some (map the ps)" by (induction ps) auto
    then have "\<exists>new. rows s' = rows s @ new"
      using created(1) [of t cols "map the ps" s s'] Pair None by auto
    with Pair show ?thesis by auto
  next
    case (Some e)
    then show ?thesis using create_err Pair by auto
  qed
qed

end

section \<open>Properties of the adapter\<close>

text \<open>
  C26: saving transfers only appends, stores a row for every event id of the batch (rows
  already present win), keeps event ids unique, and replaying any part of a batch changes nothing.
\<close>

theorem SaveTokenSents_correct:
  assumes "gorm_engine db rows column assign"
    and "SaveTokenSents db (map Some ts) s = (s', None)"
  shows "(\<exists>new. rows s' = rows s @ new \<and> set new \<subseteq> TokenSentM ` set ts)
    \<and> (\<forall>t \<in> set ts. \<exists>t'. TokenSentM t' \<in> set (rows s') \<and> ts_EventID t' = ts_EventID t)
    \<and> (distinct (map ts_EventID (token_sents (rows s))) \<longrightarrow> distinct (map ts_EventID (token_sents (rows s'))))
    \<and> (\<forall>ts' s''. set ts' \<subseteq> set ts \<longrightarrow> SaveTokenSents db (map Some ts') s' = (s'', None) \<longrightarrow> rows s'' = rows s')"
  using gorm_engine.saved_tokens [OF assms] gorm_engine.saved_tokens_again [OF assms] by blast

definition example_token :: "string \<Rightarrow> token_sent" where
  "example_token eid = \<lparr>ts_EventID = eid, ts_SourceChain = ''evm|1'', ts_TxHash = [], ts_BlockNumber = 1,
     ts_LogIndex = 0, ts_SourceAddress = [], ts_DestinationChain = [], ts_DestinationAddress = [],
     ts_Symbol = [], ts_Amount = 5, ts_Status = TokenSentStatusPending\<rparr>"

theorem SaveTokenSents_correct_witness:
  "\<exists>s'. SaveTokenSents mem_engine (map Some [example_token ''a-1'', example_token ''a-1'']) [] = (s', None)
    \<and> distinct (map ts_EventID (token_sents s'))
    \<and> (\<exists>t'. TokenSentM t' \<in> set s' \<and> ts_EventID t' = ''a-1'')"
proof -
  obtain s' where s': "SaveTokenSents mem_engine (map Some [example_token ''a-1'', example_token ''a-1'']) [] = (s', None)"
    by (simp add: SaveTokenSents_def mem_engine_def)
  from SaveTokenSents_correct [OF mem.gorm_engine_axioms s'] s' show ?thesis
    by (auto simp: example_token_def token_sents_def)
qed

text \<open>
  A Bitcoin header is stored under its height once and for all: when a header of that
  height exists, a later one (of another branch, say) is dropped without an error.
\<close>

theorem CreateBtcBlockHeader_first_wins:
  assumes "gorm_engine db rows column assign"
    and "CreateBtcBlockHeader db h s = (s', None)"
  shows "rows s' = (if \<exists>h'. BtcBlockHeaderM h' \<in> set (rows s) \<and> bbh_Height h' = bbh_Height h
    then rows s else rows s @ [BtcBlockHeaderM h])"
  using gorm_engine.header_created [OF assms] .

definition example_header :: "string \<Rightarrow> string \<Rightarrow> int \<Rightarrow> btc_block_header" where
  "example_header h p n = \<lparr>bbh_Version = 2, bbh_PrevBlockHash = p, bbh_MerkleRoot = [], bbh_Time = 0,
     bbh_CompactTarget = 0, bbh_Nonce = 0, bbh_Hash = h, bbh_Height = n\<rparr>"

theorem CreateBtcBlockHeader_first_wins_witness:
  "fst (CreateBtcBlockHeader mem_engine (example_header ''b'' ''a'' 7) [BtcBlockHeaderM (example_header ''c'' ''a'' 7)])
     = [BtcBlockHeaderM (example_header ''c'' ''a'' 7)]"
proof -
  obtain s' where s': "CreateBtcBlockHeader mem_engine (example_header ''b'' ''a'' 7)
      [BtcBlockHeaderM (example_header ''c'' ''a'' 7)] = (s', None)"
    by (simp add: CreateBtcBlockHeader_def mem_engine_def)
  from CreateBtcBlockHeader_first_wins [OF mem.gorm_engine_axioms s'] s' show ?thesis
    by (simp add: example_header_def)
qed

text \<open>
  The log checkpoint. When the statement succeeds, the checkpoint read back for that chain is the
  block just stored (or the query fails) and the checkpoints of other chains are untouched; when it
  fails, the stored checkpoint does not move and yet the call reports success.
\<close>

theorem UpdateLatestFetchedBlock_correct:
  assumes "gorm_engine db rows column assign"
    and "cp = \<lparr>cp_ChainID = chain, cp_LastBlock = b\<rparr>"
    and "Create db LogEventCheckPoints (DoUpdates [''chain_id''] [''last_block'']) [Some (LogEventCheckPointM cp)] s = (s', err)"
  shows "UpdateLatestFetchedBlock (Some db) chain cp s = (s', None) \<and>
    (case err of
       None \<Rightarrow> (GetLatestFetchedBlock (Some db) chain s' = Ok b
               \<or> (\<exists>e. GetLatestFetchedBlock (Some db) chain s' = Err e))
             \<and> (\<forall>c. cp_ChainID c \<noteq> chain \<longrightarrow>
                  (LogEventCheckPointM c \<in> set (rows s') \<longleftrightarrow> LogEventCheckPointM c \<in> set (rows s)))
     | Some e \<Rightarrow> rows s' = rows s)"
  using assms(3) gorm_engine.checkpoint_read [OF assms(1), of chain b s s'] gorm_engine.checkpointed(2) [OF assms(1), of chain b s s']
    gorm_engine.create_err [OF assms(1)]
  unfolding assms(2) by (auto simp: UpdateLatestFetchedBlock_def split: option.splits)

theorem UpdateLatestFetchedBlock_correct_witness:
  "\<exists>s'. UpdateLatestFetchedBlock (Some mem_engine) ''evm|1'' \<lparr>cp_ChainID = ''evm|1'', cp_LastBlock = 9\<rparr>
      [LogEventCheckPointM \<lparr>cp_ChainID = ''evm|1'', cp_LastBlock = 5\<rparr>] = (s', None)
    \<and> (GetLatestFetchedBlock (Some mem_engine) ''evm|1'' s' = Ok 9
       \<or> (\<exists>e. GetLatestFetchedBlock (Some mem_engine) ''evm|1'' s' = Err e))"
proof -
  obtain s' where "Create mem_engine LogEventCheckPoints (DoUpdates [''chain_id''] [''last_block''])
      [Some (LogEventCheckPointM \<lparr>cp_ChainID = ''evm|1'', cp_LastBlock = 9\<rparr>)]
      [LogEventCheckPointM \<lparr>cp_ChainID = ''evm|1'', cp_LastBlock = 5\<rparr>] = (s', None)"
    by (simp add: mem_engine_def)
  from UpdateLatestFetchedBlock_correct [OF mem.gorm_engine_axioms refl this] show ?thesis by auto
qed

text \<open>
  Rolling back to a height removes exactly the headers at or above it and the vault
  transactions of blocks at or above it, and nothing of any other table.
\<close>

theorem DeleteBlockAndTxsFromHeight_exact:
  assumes "gorm_engine db rows column assign"
    and "DeleteBlockAndTxsFromHeight db height s = (s', None)"
  shows "rows s' = filter (\<lambda>m. case m of
      VaultTransactionM t \<Rightarrow> vt_BlockNumber t < u64_of_int height
    | BtcBlockHeaderM h \<Rightarrow> bbh_Height h < height | _ \<Rightarrow> True) (rows s)"
  using gorm_engine.deleted_from [OF assms] .

theorem DeleteBlockAndTxsFromHeight_exact_witness:
  "fst (DeleteBlockAndTxsFromHeight mem_engine 7
     [BtcBlockHeaderM (example_header ''a'' [] 6), BtcBlockHeaderM (example_header ''b'' ''a'' 7),
      TokenSentM (example_token ''a-1'')])
   = [BtcBlockHeaderM (example_header ''a'' [] 6), TokenSentM (example_token ''a-1'')]"
proof -
  let ?s = "[BtcBlockHeaderM (example_header ''a'' [] 6), BtcBlockHeaderM (example_header ''b'' ''a'' 7),
      TokenSentM (example_token ''a-1'')]"
  obtain s' where s': "DeleteBlockAndTxsFromHeight mem_engine 7 ?s = (s', None)"
    by (simp add: DeleteBlockAndTxsFromHeight_def mem_engine_def)
  from DeleteBlockAndTxsFromHeight_exact [OF mem.gorm_engine_axioms s'] s' show ?thesis
    by (simp add: example_header_def)
qed

end
