(* ===== verification/Reorg.thy ===== *)
theory Reorg
  imports DatabaseLaws
begin

text \<open>
  \<open>pkg/btc/reorg.go\<close>: detection of a chain reorganisation and the roll-back to the fork point.
  The Go interface \<open>DBAdapter\<close> is the record \<open>db_adapter\<close>; its contract is the locale
  \<open>header_store\<close>, which the database adapter of \<open>pkg/db\<close> fulfils.
\<close>

section \<open>Model\<close>

record 's db_adapter =
  get_hash :: "int \<Rightarrow> 's \<Rightarrow> hash outcome"
  get_header :: "int \<Rightarrow> 's \<Rightarrow> block_header_lite outcome"
  delete_from :: "int \<Rightarrow> 's db_write"

text \<open>The adapter of \<open>pkg/db\<close> as a value of the interface.\<close>

definition DatabaseAdapter :: "'s gorm \<Rightarrow> (string \<Rightarrow> hash outcome) \<Rightarrow> 's db_adapter" where
  "DatabaseAdapter db newHashFromStr =
     \<lparr>get_hash = GetBlockHashByHeight db newHashFromStr,
      get_header = GetBlockHeaderByHeight db newHashFromStr,
      delete_from = DeleteBlockAndTxsFromHeight db\<rparr>"

function find_fork :: "'s db_adapter \<Rightarrow> 's \<Rightarrow> hash \<Rightarrow> int \<Rightarrow> block_header_lite \<Rightarrow> int outcome" where
  "find_fork d s targetPrevHash height current =
     (if height \<ge> 0 then
        if Hash current = targetPrevHash then Ok height
        else and_then (get_header d (height - 1) s) (\<lambda>next_header.
               find_fork d s targetPrevHash (height - 1) next_header)
      else Ok 0)"
  by pat_completeness auto
termination
  by (relation "measure (\<lambda>(d, s, t, height, c). nat (height + 1))") auto

declare find_fork.simps [simp del]

definition findForkPoint :: "'s db_adapter \<Rightarrow> 's \<Rightarrow> block_header_lite \<Rightarrow> hash \<Rightarrow> int outcome" where
  "findForkPoint d s tipHeader targetPrevHash = find_fork d s targetPrevHash (Height tipHeader) tipHeader"

definition DetectAndHandleReorg :: "'s db_adapter \<Rightarrow> block_header_lite \<Rightarrow> 's \<Rightarrow> 's \<times> unit outcome" where
  "DetectAndHandleReorg d newBlockHeader s =
     (if Height newBlockHeader = 0 then (s, Ok ())
      else
        (case get_header d (Height newBlockHeader - 1) s of
           Err e \<Rightarrow> (s, Err e)
         | Panic p \<Rightarrow> (s, Panic p)
         | Ok tipHeader \<Rightarrow>
             if Hash tipHeader = PrevHash newBlockHeader then (s, Ok ())
             else
               (case findForkPoint d s tipHeader (PrevHash newBlockHeader) of
                  Err e \<Rightarrow> (s, Err e)
                | Panic p \<Rightarrow> (s, Panic p)
                | Ok forkHeight \<Rightarrow>
                    (case delete_from d (forkHeight + 1) s of
                       (s', None) \<Rightarrow> (s', Ok ())
                     | (s', Some e) \<Rightarrow> (s', Err e)))))"

section \<open>The contract of a header store\<close>

text \<open>
  A header that is returned for a height has that height, there is none below the genesis
  block, and a successful deletion leaves exactly the headers below the given height.
\<close>

locale header_store =
  fixes d :: "'s db_adapter" and ok_state :: "'s \<Rightarrow> bool" and stored :: "'s \<Rightarrow> block_header_lite \<Rightarrow> bool"
  assumes get_ok: "get_header d h s = Ok x \<Longrightarrow> Height x = h \<and> stored s x"
    and get_negative: "ok_state s \<Longrightarrow> h < 0 \<Longrightarrow> \<exists>e. get_header d h s = Err e"
    and get_no_panic: "get_header d h s \<noteq> Panic p"
    and delete_ok_state: "ok_state s \<Longrightarrow> ok_state (fst (delete_from d h s))"
    and delete_exact: "delete_from d h s = (s', None) \<Longrightarrow> stored s' x \<longleftrightarrow> stored s x \<and> Height x < h"
begin

lemma find_fork_Ok:
  assumes "ok_state s" and "find_fork d s target height current = Ok f" and "0 \<le> height"
  shows "0 \<le> f \<and> f \<le> height \<and> (f = height \<longleftrightarrow> Hash current = target)
    \<and> (f < height \<longrightarrow> (\<exists>x. get_header d f s = Ok x \<and> Hash x = target))
    \<and> (\<forall>k. f < k \<and> k < height \<longrightarrow> (\<exists>y. get_header d k s = Ok y \<and> Hash y \<noteq> target))"
  using assms(2,3)
proof (induction "nat height" arbitrary: height current rule: less_induct)
  case less
  show ?case
  proof (cases "Hash current = target")
    case True
    then show ?thesis using less.prems by (auto simp: find_fork.simps [of d s target height])
  next
    case False
    then obtain x where x: "get_header d (height - 1) s = Ok x" "find_fork d s target (height - 1) x = Ok f"
      using less.prems by (auto simp: find_fork.simps [of d s target height] and_then_Ok_iff)
    have h: "0 \<le> height - 1" using x(1) get_negative [OF assms(1), of "height - 1"] by force
    have ih: "0 \<le> f" "f \<le> height - 1" "f = height - 1 \<longleftrightarrow> Hash x = target"
      "f < height - 1 \<Longrightarrow> \<exists>x. get_header d f s = Ok x \<and> Hash x = target"
      "\<And>k. f < k \<and> k < height - 1 \<Longrightarrow> \<exists>y. get_header d k s = Ok y \<and> Hash y \<noteq> target"
      using less.hyps [OF _ x(2) h] h by auto
    have "\<exists>y. get_header d k s = Ok y \<and> Hash y \<noteq> target" if "f < k" "k < height" for k
      using ih(3,5) that x(1) by (cases "k = height - 1") auto
    moreover have "\<exists>x. get_header d f s = Ok x \<and> Hash x = target"
      using ih(2,3,4) x(1) by (cases "f = height - 1") auto
    ultimately show ?thesis using ih False by auto
  qed
qed

lemma find_fork_no_panic: "find_fork d s target height current \<noteq> Panic p"
proof (induction "nat (height + 1)" arbitrary: height current rule: less_induct)
  case less
  then show ?case
    using get_no_panic [of "height - 1" s p]
    by (cases "get_header d (height - 1) s") (auto simp: find_fork.simps [of d s target height])
qed

text \<open>The fork point is the highest stored ancestor, and the roll-back is exact.\<close>

lemma tip_height: "ok_state s \<Longrightarrow> get_header d k s = Ok tip \<Longrightarrow> Height tip = k \<and> 0 \<le> k"
  using get_ok [of k s tip] get_negative [of s k] by force

lemma fork_found:
  assumes "ok_state s" and "get_header d (Height new - 1) s = Ok tip" and "Hash tip \<noteq> PrevHash new"
    and "findForkPoint d s tip (PrevHash new) = Ok f"
  shows "0 \<le> f" and "f < Height new - 1" and "\<exists>x. get_header d f s = Ok x \<and> Hash x = PrevHash new"
    and "f < k \<and> k < Height new \<longrightarrow> (\<exists>y. get_header d k s = Ok y \<and> Hash y \<noteq> PrevHash new)"
proof -
  have h: "Height tip = Height new - 1" "0 \<le> Height tip" using tip_height [OF assms(1,2)] by auto
  note fork = find_fork_Ok [OF assms(1) assms(4) [unfolded findForkPoint_def] h(2)]
  show "0 \<le> f" "f < Height new - 1" "\<exists>x. get_header d f s = Ok x \<and> Hash x = PrevHash new"
    using fork assms(3) h by auto
  show "f < k \<and> k < Height new \<longrightarrow> (\<exists>y. get_header d k s = Ok y \<and> Hash y \<noteq> PrevHash new)"
    using fork assms(2,3) h by (cases "k = Height new - 1") auto
qed

lemma reorg_cases:
  assumes "ok_state s" and "Height new \<noteq> 0" and "DetectAndHandleReorg d new s = (s', r)"
  shows "case r of
      Ok _ \<Rightarrow> (s' = s \<and> (\<exists>x. get_header d (Height new - 1) s = Ok x \<and> Hash x = PrevHash new))
        \<or> (\<exists>f x. 0 \<le> f \<and> f < Height new - 1 \<and> get_header d f s = Ok x \<and> Hash x = PrevHash new
            \<and> (\<forall>k. f < k \<and> k < Height new \<longrightarrow> (\<exists>y. get_header d k s = Ok y \<and> Hash y \<noteq> PrevHash new))
            \<and> delete_from d (f + 1) s = (s', None))
    | Err e \<Rightarrow> s' = s \<or> (\<exists>h. s' = fst (delete_from d h s))
    | Panic _ \<Rightarrow> False"
proof (cases "get_header d (Height new - 1) s")
  case tip: (Ok tip)
  show ?thesis
  proof (cases "Hash tip = PrevHash new")
    case True
    then show ?thesis using assms(2,3) tip by (auto simp: DetectAndHandleReorg_def)
  next
    case False
    show ?thesis
    proof (cases "findForkPoint d s tip (PrevHash new)")
      case (Ok f)
      note found = fork_found [OF assms(1) tip False Ok]
      have "(s', r) = (case delete_from d (f + 1) s of (s', None) \<Rightarrow> (s', Ok ()) | (s', Some e) \<Rightarrow> (s', Err e))"
        using assms(2,3) False Ok tip by (simp add: DetectAndHandleReorg_def)
      then consider "r = Ok ()" "delete_from d (f + 1) s = (s', None)"
        | e where "r = Err e" "s' = fst (delete_from d (f + 1) s)"
        by (auto split: prod.splits option.splits)
      then show ?thesis
      proof cases
        case 1
        with found show ?thesis by (simp only: outcome.case) blast
      qed auto
    qed (use assms(2,3) False tip find_fork_no_panic in \<open>auto simp: DetectAndHandleReorg_def findForkPoint_def\<close>)
  qed
qed (use assms(2,3) get_no_panic in \<open>auto simp: DetectAndHandleReorg_def\<close>)

text \<open>When a block id occurs at one height only, there is no ancestor to find below the tip.\<close>

lemma reorg_unchanged:
  assumes "ok_state s" and "Height new \<noteq> 0" and "DetectAndHandleReorg d new s = (s', r)"
    and "\<And>x. stored s x \<Longrightarrow> Hash x = PrevHash new \<Longrightarrow> Height x = Height new - 1"
  shows "s' = s \<and> (r = Ok () \<longleftrightarrow> (\<exists>x. get_header d (Height new - 1) s = Ok x \<and> Hash x = PrevHash new))"
proof (cases "get_header d (Height new - 1) s")
  case (Ok tip)
  have h: "Height tip = Height new - 1" "0 \<le> Height tip"
    using get_ok [OF Ok] get_negative [OF assms(1), of "Height new - 1"] Ok by force+
  have "findForkPoint d s tip (PrevHash new) \<noteq> Ok f" if "Hash tip \<noteq> PrevHash new" for f
    using find_fork_Ok [OF assms(1) _ h(2), of "PrevHash new" tip f] that assms(4) get_ok h
    by (fastforce simp: findForkPoint_def)
  then show ?thesis
    using assms(2,3) Ok by (auto simp: DetectAndHandleReorg_def split: if_splits outcome.splits)
qed (use assms(2,3) in \<open>auto simp: DetectAndHandleReorg_def\<close>)

end

section \<open>The database as a header store\<close>

definition nonnegative_heights :: "model list \<Rightarrow> bool" where
  "nonnegative_heights rs \<longleftrightarrow> list_all (\<lambda>m. case m of BtcBlockHeaderM h \<Rightarrow> 0 \<le> bbh_Height h | _ \<Rightarrow> True) rs"

definition lite :: "(string \<Rightarrow> hash outcome) \<Rightarrow> btc_block_header \<Rightarrow> block_header_lite outcome" where
  "lite newHashFromStr h =
     and_then (newHashFromStr (bbh_Hash h)) (\<lambda>hash.
     and_then (newHashFromStr (bbh_PrevBlockHash h)) (\<lambda>prevHash.
     Ok \<lparr>Height = bbh_Height h, Hash = hash, PrevHash = prevHash\<rparr>))"

definition stored_header :: "(string \<Rightarrow> hash outcome) \<Rightarrow> model list \<Rightarrow> block_header_lite \<Rightarrow> bool" where
  "stored_header newHashFromStr rs x \<longleftrightarrow> (\<exists>h. BtcBlockHeaderM h \<in> set rs \<and> lite newHashFromStr h = Ok x)"

locale hashed_engine = gorm_engine +
  fixes newHashFromStr :: "string \<Rightarrow> hash outcome"
  assumes newHash_no_panic: "newHashFromStr t \<noteq> Panic p"
begin

lemma GetBlockHeaderByHeight_eq:
  "GetBlockHeaderByHeight db newHashFromStr height s =
     and_then (and_then (First db BtcBlockHeaders (Eq ''height'' (SNum height)) None s) expect_BtcBlockHeader)
       (lite newHashFromStr)"
  by (simp add: GetBlockHeaderByHeight_def lite_def [abs_def])

lemma lite_Ok: "lite newHashFromStr h = Ok x \<Longrightarrow> Height x = bbh_Height h"
  by (auto simp: lite_def and_then_Ok_iff)

lemma lite_no_panic: "lite newHashFromStr h \<noteq> Panic p"
  using newHash_no_panic
  by (cases "newHashFromStr (bbh_Hash h)"; cases "newHashFromStr (bbh_PrevBlockHash h)") (auto simp: lite_def)

end

sublocale hashed_engine \<subseteq> store: header_store "DatabaseAdapter db newHashFromStr"
  "\<lambda>s. nonnegative_heights (rows s)" "\<lambda>s. stored_header newHashFromStr (rows s)"
proof
  fix h s x
  assume "get_header (DatabaseAdapter db newHashFromStr) h s = Ok x"
  then obtain m r where "First db BtcBlockHeaders (Eq ''height'' (SNum h)) None s = Ok m"
    "expect_BtcBlockHeader m = Ok r" "lite newHashFromStr r = Ok x"
    by (auto simp: DatabaseAdapter_def GetBlockHeaderByHeight_eq and_then_Ok_iff)
  with header_at show "Height x = h \<and> stored_header newHashFromStr (rows s) x"
    using lite_Ok by (fastforce simp: stored_header_def)
next
  fix s and h :: int
  assume "nonnegative_heights (rows s)" "h < 0"
  then have "matching column BtcBlockHeaders (Eq ''height'' (SNum h)) (rows s) = []"
    by (auto simp: matching_def nonnegative_heights_def list_all_iff filter_empty_conv
        table_of_constructors column_simps)
  from first_none [OF this, of None] show "\<exists>e. get_header (DatabaseAdapter db newHashFromStr) h s = Err e"
    by (auto simp: DatabaseAdapter_def GetBlockHeaderByHeight_def)
next
  fix h s p
  show "get_header (DatabaseAdapter db newHashFromStr) h s \<noteq> Panic p"
    using header_at [of h None s] first_no_panic [of BtcBlockHeaders _ None s p] lite_no_panic
    by (cases "First db BtcBlockHeaders (Eq ''height'' (SNum h)) None s")
      (auto simp: DatabaseAdapter_def GetBlockHeaderByHeight_eq)
next
  fix s and h :: int
  assume "nonnegative_heights (rows s)"
  moreover have "set (rows (fst (DeleteBlockAndTxsFromHeight db h s))) \<subseteq> set (rows s)"
    by (auto simp: DeleteBlockAndTxsFromHeight_def delete_ok delete_err split: prod.splits option.splits
        dest!: delete_ok delete_err)
  ultimately show "nonnegative_heights (rows (fst (delete_from (DatabaseAdapter db newHashFromStr) h s)))"
    by (auto simp: DatabaseAdapter_def nonnegative_heights_def list_all_iff)
next
  fix h s s' x
  assume "delete_from (DatabaseAdapter db newHashFromStr) h s = (s', None)"
  then have "rows s' = filter (\<lambda>m. case m of
      VaultTransactionM t \<Rightarrow> vt_BlockNumber t < u64_of_int h
    | BtcBlockHeaderM r \<Rightarrow> bbh_Height r < h | _ \<Rightarrow> True) (rows s)"
    by (simp add: DatabaseAdapter_def deleted_from)
  then show "stored_header newHashFromStr (rows s') x \<longleftrightarrow> stored_header newHashFromStr (rows s) x \<and> Height x < h"
    using lite_Ok by (auto simp: stored_header_def)
qed

context hashed_engine
begin

lemma db_reorg:
  assumes "nonnegative_heights (rows s)" and "Height new \<noteq> 0"
    and "DetectAndHandleReorg (DatabaseAdapter db newHashFromStr) new s = (s', Ok ())"
  shows "(s' = s \<and> (\<exists>x. GetBlockHeaderByHeight db newHashFromStr (Height new - 1) s = Ok x \<and> Hash x = PrevHash new))
    \<or> (\<exists>f x. 0 \<le> f \<and> f < Height new - 1 \<and> GetBlockHeaderByHeight db newHashFromStr f s = Ok x
         \<and> Hash x = PrevHash new
         \<and> (\<forall>k. f < k \<and> k < Height new \<longrightarrow>
              (\<exists>y. GetBlockHeaderByHeight db newHashFromStr k s = Ok y \<and> Hash y \<noteq> PrevHash new))
         \<and> rows s' = filter (\<lambda>m. case m of
               VaultTransactionM t \<Rightarrow> vt_BlockNumber t < u64_of_int (f + 1)
             | BtcBlockHeaderM h \<Rightarrow> bbh_Height h < f + 1 | _ \<Rightarrow> True) (rows s))"
  using store.reorg_cases [OF assms] deleted_from by (fastforce simp: DatabaseAdapter_def)

lemma db_reorg_unchanged:
  assumes "nonnegative_heights (rows s)" and "Height new \<noteq> 0"
    and "\<And>x. stored_header newHashFromStr (rows s) x \<Longrightarrow> Hash x = PrevHash new \<Longrightarrow> Height x = Height new - 1"
    and "DetectAndHandleReorg (DatabaseAdapter db newHashFromStr) new s = (s', r)"
  shows "s' = s \<and> (r = Ok () \<longleftrightarrow>
    (\<exists>x. GetBlockHeaderByHeight db newHashFromStr (Height new - 1) s = Ok x \<and> Hash x = PrevHash new))"
  using store.reorg_unchanged [OF assms(1,2,4,3)] by (simp add: DatabaseAdapter_def)

lemma db_reorg_no_panic:
  "nonnegative_heights (rows s) \<Longrightarrow> Height new \<noteq> 0 \<Longrightarrow>
     DetectAndHandleReorg (DatabaseAdapter db newHashFromStr) new s = (s', r) \<Longrightarrow> r \<noteq> Panic p"
  using store.reorg_cases [of s new s' r] by auto

end

section \<open>Properties\<close>

text \<open>The in-memory database, with texts as hashes.\<close>

definition example_newHash :: "string \<Rightarrow> hash outcome" where
  "example_newHash t = Ok (bytes_of_string t)"

interpretation mem_store: hashed_engine mem_engine "\<lambda>s. s" mem_column mem_assign example_newHash
  by unfold_locales (simp add: example_newHash_def)

lemma mem_delete_from: "\<exists>s'. DeleteBlockAndTxsFromHeight mem_engine h s = (s', None)"
  by (simp add: DeleteBlockAndTxsFromHeight_def mem_engine_def)

text \<open>
  C30: when the check of a new block succeeds, either the block extends the stored chain and
  nothing is changed, or the rows kept are exactly those up to the highest stored block whose
  hash is the new block's parent: every block above it was inspected and differs.
\<close>

theorem DetectAndHandleReorg_correct:
  assumes "hashed_engine db rows column assign newHashFromStr"
    and "nonnegative_heights (rows s)" and "Height new \<noteq> 0"
    and "DetectAndHandleReorg (DatabaseAdapter db newHashFromStr) new s = (s', Ok ())"
  shows "(s' = s \<and> (\<exists>x. GetBlockHeaderByHeight db newHashFromStr (Height new - 1) s = Ok x \<and> Hash x = PrevHash new))
    \<or> (\<exists>f x. 0 \<le> f \<and> f < Height new - 1 \<and> GetBlockHeaderByHeight db newHashFromStr f s = Ok x
         \<and> Hash x = PrevHash new
         \<and> (\<forall>k. f < k \<and> k < Height new \<longrightarrow>
              (\<exists>y. GetBlockHeaderByHeight db newHashFromStr k s = Ok y \<and> Hash y \<noteq> PrevHash new))
         \<and> rows s' = filter (\<lambda>m. case m of
               VaultTransactionM t \<Rightarrow> vt_BlockNumber t < u64_of_int (f + 1)
             | BtcBlockHeaderM h \<Rightarrow> bbh_Height h < f + 1 | _ \<Rightarrow> True) (rows s))"
  by (rule hashed_engine.db_reorg [OF assms])

definition example_chain_rows :: "model list" where
  "example_chain_rows = [BtcBlockHeaderM (example_header ''a'' ''g'' 0), BtcBlockHeaderM (example_header ''b'' ''a'' 1),
     BtcBlockHeaderM (example_header ''c'' ''b'' 2)]"

definition example_new :: "char \<Rightarrow> block_header_lite" where
  "example_new c = \<lparr>Height = 3, Hash = [122], PrevHash = bytes_of_string [c]\<rparr>"

lemma example_get:
  "GetBlockHeaderByHeight mem_engine example_newHash h example_chain_rows =
     (if h = 0 then Ok \<lparr>Height = 0, Hash = [97], PrevHash = [103]\<rparr>
      else if h = 1 then Ok \<lparr>Height = 1, Hash = [98], PrevHash = [97]\<rparr>
      else if h = 2 then Ok \<lparr>Height = 2, Hash = [99], PrevHash = [98]\<rparr>
      else Err (Errorf ''record not found''))"
  by (simp add: GetBlockHeaderByHeight_def mem_engine_def example_chain_rows_def matching_def example_header_def
      example_newHash_def bytes_of_string_def)

lemma example_nonnegative: "nonnegative_heights example_chain_rows"
  by (simp add: nonnegative_heights_def example_chain_rows_def example_header_def)

theorem DetectAndHandleReorg_correct_witness:
  "\<exists>s'. DetectAndHandleReorg (DatabaseAdapter mem_engine example_newHash) (example_new CHR ''a'') example_chain_rows
      = (s', Ok ()) \<and> s' = [BtcBlockHeaderM (example_header ''a'' ''g'' 0)]"
proof -
  have "\<exists>s'. DetectAndHandleReorg (DatabaseAdapter mem_engine example_newHash) (example_new CHR ''a'') example_chain_rows
      = (s', Ok ())"
    using mem_delete_from [of 1 example_chain_rows]
    by (auto simp: DetectAndHandleReorg_def DatabaseAdapter_def findForkPoint_def find_fork.simps example_get
        example_new_def bytes_of_string_def)
  then obtain s' where s': "DetectAndHandleReorg (DatabaseAdapter mem_engine example_newHash) (example_new CHR ''a'') example_chain_rows
      = (s', Ok ())" by blast
  from DetectAndHandleReorg_correct [OF mem_store.hashed_engine_axioms example_nonnegative _ s']
  have "s' = filter (\<lambda>m. case m of VaultTransactionM t \<Rightarrow> vt_BlockNumber t < u64_of_int 1
      | BtcBlockHeaderM h \<Rightarrow> bbh_Height h \<le> 0 | _ \<Rightarrow> True) example_chain_rows"
    by (auto simp: example_get example_new_def bytes_of_string_def split: if_splits)
  with s' show ?thesis by (simp add: example_chain_rows_def example_header_def)
qed

text \<open>
  C31: on a chain where a block id belongs to one height, the roll-back never happens. If no
  header stored at another height than the parent's carries the new block's parent id, the
  database is left as it was, and the call reports an error unless the block extends the
  tip: the search looks for the parent's id among blocks that are older than the parent.
\<close>

theorem DetectAndHandleReorg_never_rolls_back:
  assumes "hashed_engine db rows column assign newHashFromStr"
    and "nonnegative_heights (rows s)" and "Height new \<noteq> 0"
    and "\<And>x. stored_header newHashFromStr (rows s) x \<Longrightarrow> Hash x = PrevHash new \<Longrightarrow> Height x = Height new - 1"
    and "DetectAndHandleReorg (DatabaseAdapter db newHashFromStr) new s = (s', r)"
  shows "s' = s \<and> (r = Ok () \<longleftrightarrow>
    (\<exists>x. GetBlockHeaderByHeight db newHashFromStr (Height new - 1) s = Ok x \<and> Hash x = PrevHash new))"
  by (rule hashed_engine.db_reorg_unchanged [OF assms])

theorem DetectAndHandleReorg_never_rolls_back_witness:
  "\<exists>r. DetectAndHandleReorg (DatabaseAdapter mem_engine example_newHash) (example_new CHR ''x'') example_chain_rows
      = (example_chain_rows, r) \<and> r \<noteq> Ok ()"
proof -
  obtain s' r where d: "DetectAndHandleReorg (DatabaseAdapter mem_engine example_newHash) (example_new CHR ''x'') example_chain_rows
      = (s', r)" by fastforce
  have "\<not> stored_header example_newHash example_chain_rows x \<or> Hash x \<noteq> PrevHash (example_new CHR ''x'')" for x
    by (auto simp: stored_header_def lite_def example_newHash_def example_chain_rows_def example_header_def example_new_def bytes_of_string_def)
  with DetectAndHandleReorg_never_rolls_back [OF mem_store.hashed_engine_axioms example_nonnegative _ _ d] d
  show ?thesis by (auto simp: example_new_def example_get bytes_of_string_def)
qed

end
