(* ===== verification/BtcNode.thy ===== *)
theory BtcNode
  imports VaultParser Reorg
begin

text \<open>
  \<open>pkg/btc/btcnode.go\<close>, \<open>db.go\<close> and the rest of \<open>client.go\<close>: the indexer that reads blocks from a Bitcoin
  node. \<open>orchestrateFetching\<close> turns the node's height into a stream of block heights, and \<open>indexBlock\<close> stores
  each block's header and vault transactions; the worker pools between them are in \<open>Pipeline\<close>. The node's
  answers and the clock are arguments.
\<close>

section \<open>Model\<close>

subsection \<open>Heights\<close>

text \<open>\<open>GetLatestIndexedHeight\<close> of \<open>db.go\<close>: a nil adapter is \<^const>\<open>None\<close>.\<close>

definition Client_GetLatestIndexedHeight :: "'s gorm option \<Rightarrow> btc_config \<Rightarrow> 's \<Rightarrow> int outcome" where
  "Client_GetLatestIndexedHeight dbAdapter config s =
     (case dbAdapter of
        None \<Rightarrow> Err (Errorf ''db adapter is nil'')
      | Some db \<Rightarrow> GetLatestIndexedHeight db (SourceChain config) s)"

record orchestrator =
  startHeight :: int
  lastBlockHeight :: u64
  emitted :: "int list"

definition orchestrate_init :: "btc_config \<Rightarrow> int outcome \<Rightarrow> u64 \<Rightarrow> orchestrator" where
  "orchestrate_init config latest lastBlock =
     (let lastHeight = (case latest of Ok h \<Rightarrow> h | _ \<Rightarrow> 0);
          start = StartHeight config
      in \<lparr>startHeight = (if start < lastHeight + 1 then lastHeight + 1 else start),
          lastBlockHeight = lastBlock, emitted = []\<rparr>)"

text \<open>One tick: \<open>tip\<close> is the height of the node's best block, or the error of either call.\<close>

definition orchestrate_tick :: "btc_config \<Rightarrow> int outcome \<Rightarrow> orchestrator \<Rightarrow> orchestrator" where
  "orchestrate_tick config tip st =
     (case tip of
        Ok h \<Rightarrow>
          let st = st\<lparr>lastBlockHeight := u64_of_int h\<rparr>;
              endHeight = (if h > EndHeight config \<and> EndHeight config > 0 then EndHeight config else h)
          in if startHeight st > endHeight then st
             else st\<lparr>startHeight := endHeight + 1, emitted := emitted st @ [startHeight st..endHeight]\<rparr>
      | _ \<Rightarrow> st)"

definition orchestrateFetching :: "btc_config \<Rightarrow> int outcome \<Rightarrow> u64 \<Rightarrow> int outcome list \<Rightarrow> orchestrator" where
  "orchestrateFetching config latest lastBlock tips =
     foldl (\<lambda>st tip. orchestrate_tick config tip st) (orchestrate_init config latest lastBlock) tips"

record chunk =
  Start :: int
  End :: int

function chunk_ranges :: "int \<Rightarrow> int \<Rightarrow> int \<Rightarrow> chunk list" where
  "chunk_ranges batchSize start endHeight =
     (if start \<le> endHeight \<and> 0 < batchSize then
        \<lparr>Start = start,
         End = (if start + batchSize - 1 > endHeight then endHeight else start + batchSize - 1)\<rparr>
        # chunk_ranges batchSize (start + batchSize) endHeight
      else [])"
  by pat_completeness auto
termination
  by (relation "measure (\<lambda>(b, s, e). nat (e - s + 1))") auto

declare chunk_ranges.simps [simp del]

definition defineChunks :: "btc_config \<Rightarrow> int \<Rightarrow> int \<Rightarrow> chunk list" where
  "defineChunks config start endHeight =
     (let batchSize = (if BatchSize config \<le> 0 then 64 else BatchSize config)
      in chunk_ranges batchSize start endHeight)"

subsection \<open>Block headers\<close>

record wire_header =
  wh_Version :: int
  wh_PrevBlock :: hash
  wh_MerkleRoot :: hash
  wh_Timestamp :: int
  wh_Bits :: u32
  wh_Nonce :: u32

text \<open>\<open>wire.NewBlockHeader\<close> stamps the header with the current time \<open>now\<close>.\<close>

definition NewBlockHeader :: "int \<Rightarrow> int \<Rightarrow> hash \<Rightarrow> hash \<Rightarrow> u32 \<Rightarrow> u32 \<Rightarrow> wire_header" where
  "NewBlockHeader now version prevHash merkleRootHash bits nonce =
     \<lparr>wh_Version = version, wh_PrevBlock = prevHash, wh_MerkleRoot = merkleRootHash,
      wh_Timestamp = now, wh_Bits = bits, wh_Nonce = nonce\<rparr>"

definition extractBlockHeader :: "btc_lib \<Rightarrow> int \<Rightarrow> block_verbose \<Rightarrow> wire_header outcome" where
  "extractBlockHeader lib now block =
     and_then (NewHashFromStr lib (Block_PreviousHash block)) (\<lambda>prevHash.
     and_then (NewHashFromStr lib (Block_MerkleRoot block)) (\<lambda>merkleRootHash.
     let (bits, err) = ParseUint (Block_Bits block) 32 in
     Ok (NewBlockHeader now (Block_Version block) prevHash merkleRootHash (of_nat bits) (Block_Nonce block))))"

definition StoreBlockHeader ::
  "'s gorm \<Rightarrow> btc_lib \<Rightarrow> (wire_header \<Rightarrow> hash) \<Rightarrow> wire_header \<Rightarrow> int \<Rightarrow> 's db_write" where
  "StoreBlockHeader db lib BlockHash header height =
     CreateBtcBlockHeader db
       \<lparr>bbh_Version = wh_Version header,
        bbh_PrevBlockHash = Hash_String lib (wh_PrevBlock header),
        bbh_MerkleRoot = wh_MerkleRoot header,
        bbh_Time = word_of_int (wh_Timestamp header),
        bbh_CompactTarget = wh_Bits header,
        bbh_Nonce = wh_Nonce header,
        bbh_Hash = Hash_String lib (BlockHash header),
        bbh_Height = height\<rparr>"

subsection \<open>Vault transactions\<close>

definition StoreVaultTransaction :: "'s gorm \<Rightarrow> vault_transaction \<Rightarrow> 's db_write" where
  "StoreVaultTransaction db vaultTx = Create db VaultTransactions NoConflict [Some (VaultTransactionM vaultTx)]"

definition vault_chunkSize :: nat where "vault_chunkSize = 1000"

fun store_chunks :: "'s gorm \<Rightarrow> vault_transaction list list \<Rightarrow> 's db_write" where
  "store_chunks db [] s = (s, None)"
| "store_chunks db (c # cs) s =
     (case wrap_err ''failed to store vault transactions chunk''
             (Create db VaultTransactions (RawClause ''ON CONFLICT (chain, tx_hash) DO NOTHING'')
                (map (Some \<circ> VaultTransactionM) c) s) of
        (s', Some e) \<Rightarrow> (s', Some e)
      | (s', None) \<Rightarrow> store_chunks db cs s')"

text \<open>The chunking loop with its constant size always ends (\<open>chunk_loop_chunks_of\<close>).\<close>

definition StoreVaultTransactions :: "'s gorm \<Rightarrow> vault_transaction list \<Rightarrow> 's db_write" where
  "StoreVaultTransactions db vaultTxs s =
     (if vaultTxs = [] then (s, None)
      else
        (case chunk_loop (int vault_chunkSize) vaultTxs 0 [] of
           Some (Ok chunks) \<Rightarrow> store_chunks db chunks s
         | _ \<Rightarrow> (s, Some (Errorf ''unreachable''))))"

subsection \<open>indexBlock\<close>

definition FINAL_CONFIRMATIONS :: int where "FINAL_CONFIRMATIONS = 12"

text \<open>The loop over \<open>block.Tx\<close>: a transaction that fails to parse is skipped.\<close>

fun index_txs :: "btc_lib \<Rightarrow> btc_config \<Rightarrow> block_verbose \<Rightarrow> int \<Rightarrow> tx_raw list \<Rightarrow> vault_transaction list outcome" where
  "index_txs lib config block i [] = Ok []"
| "index_txs lib config block i (tx # txs) =
     (case ParseVaultTxRawResult lib config tx block i of
        Panic p \<Rightarrow> Panic p
      | Ok (Some vaultTx) \<Rightarrow> and_then (index_txs lib config block (i + 1) txs) (\<lambda>vs. Ok (vaultTx # vs))
      | _ \<Rightarrow> index_txs lib config block (i + 1) txs)"

record 's node =
  node_db :: "'s gorm"
  node_lib :: btc_lib
  node_hash :: "wire_header \<Rightarrow> hash"
  node_config :: btc_config

text \<open>
  One received block; \<^const>\<open>None\<close> is the nil that a receive from the closed channel yields. The
  result is the database afterwards: every error is logged and the loop goes on.
\<close>

definition check_reorg :: "'s node \<Rightarrow> wire_header \<Rightarrow> u64 \<Rightarrow> block_verbose \<Rightarrow> 's \<Rightarrow> 's option outcome" where
  "check_reorg n blockHeader currHeight block s =
     (if Block_Height block > int_of_u64 currHeight - FINAL_CONFIRMATIONS then
        (case NewHashFromStr (node_lib n) (Block_Hash block) of
           Err _ \<Rightarrow> Ok None
         | Panic p \<Rightarrow> Panic p
         | Ok blockHash \<Rightarrow>
             (case DetectAndHandleReorg (DatabaseAdapter (node_db n) (NewHashFromStr (node_lib n)))
                     \<lparr>Height = Block_Height block, Hash = blockHash, PrevHash = wh_PrevBlock blockHeader\<rparr> s of
                (s', Panic p) \<Rightarrow> Panic p
              | (s', _) \<Rightarrow> Ok (Some s')))
      else Ok (Some s))"

definition index_one :: "'s node \<Rightarrow> int \<Rightarrow> u64 \<Rightarrow> block_verbose option \<Rightarrow> 's \<Rightarrow> 's outcome" where
  "index_one n now currHeight received s =
     (case received of
        None \<Rightarrow> Panic NilDereference
      | Some block \<Rightarrow>
          (case extractBlockHeader (node_lib n) now block of
             Err _ \<Rightarrow> Ok s
           | Panic p \<Rightarrow> Panic p
           | Ok blockHeader \<Rightarrow>
               and_then (check_reorg n blockHeader currHeight block s) (\<lambda>r.
               case r of
                 None \<Rightarrow> Ok s
               | Some s \<Rightarrow>
                   let s = fst (StoreBlockHeader (node_db n) (node_lib n) (node_hash n) blockHeader
                                  (Block_Height block) s)
                   in and_then (index_txs (node_lib n) (node_config n) block 0 (Block_Tx block)) (\<lambda>vaultTxs.
                      if vaultTxs = [] then Ok s
                      else Ok (fst (StoreVaultTransactions (node_db n) vaultTxs s))))))"

section \<open>The stream of heights\<close>

definition heights_inv :: "int \<Rightarrow> orchestrator \<Rightarrow> bool" where
  "heights_inv first st \<longleftrightarrow> first \<le> startHeight st \<and> emitted st = [first..startHeight st - 1]"

lemma orchestrate_tick_inv:
  "heights_inv first st \<Longrightarrow> heights_inv first (orchestrate_tick config tip st)"
  using upto_append [of first "startHeight st - 1"]
  by (cases tip) (auto simp: orchestrate_tick_def heights_inv_def Let_def)

lemma orchestrate_ticks_inv:
  "heights_inv first st \<Longrightarrow> heights_inv first (foldl (\<lambda>st tip. orchestrate_tick config tip st) st tips)"
  by (induction tips arbitrary: st) (auto simp: orchestrate_tick_inv)

lemma orchestrate_init_inv:
  "heights_inv (startHeight (orchestrate_init config latest lb)) (orchestrate_init config latest lb)"
  by (simp add: heights_inv_def orchestrate_init_def Let_def)

lemma orchestrate_tick_end:
  "EndHeight config > 0 \<Longrightarrow> emitted st = [] \<or> list_all (\<lambda>h. h \<le> EndHeight config) (emitted st) \<Longrightarrow>
     list_all (\<lambda>h. h \<le> EndHeight config) (emitted (orchestrate_tick config tip st))"
  by (cases tip) (auto simp: orchestrate_tick_def Let_def list_all_iff)

text \<open>
  C13: whatever the node answers at each tick, the heights sent to the workers are consecutive:
  from the larger of the configured start and the height after the last indexed one, without
  a gap or a repetition, and up to just below the next height to send.
\<close>

theorem orchestrateFetching_consecutive:
  "emitted (orchestrateFetching config latest lb tips) =
     [max (StartHeight config) ((case latest of Ok h \<Rightarrow> h | _ \<Rightarrow> 0) + 1)
       .. startHeight (orchestrateFetching config latest lb tips) - 1]"
proof -
  have "startHeight (orchestrate_init config latest lb) =
      max (StartHeight config) ((case latest of Ok h \<Rightarrow> h | _ \<Rightarrow> 0) + 1)"
    by (auto simp: orchestrate_init_def Let_def max_def)
  then show ?thesis
    using orchestrate_ticks_inv [OF orchestrate_init_inv]
    by (simp add: heights_inv_def orchestrateFetching_def)
qed

lemma chunk_ranges_cover:
  "0 < b \<Longrightarrow> concat (map (\<lambda>c. [Start c..End c]) (chunk_ranges b s e)) = [s..e]"
proof (induction b s e rule: chunk_ranges.induct)
  case (1 b s e)
  show ?case
  proof (cases "s \<le> e")
    case True
    then show ?thesis
      using 1 upto_append [of s "s + b - 1" e] by (subst chunk_ranges.simps) auto
  qed (simp add: chunk_ranges.simps)
qed

lemma emitted_from:
  "x \<in> set (emitted (orchestrateFetching config latest lb tips)) \<Longrightarrow> (case latest of Ok h \<Rightarrow> h | _ \<Rightarrow> 0) < x"
  using orchestrate_ticks_inv [OF orchestrate_init_inv, of config latest lb config tips]
  by (auto simp: heights_inv_def orchestrateFetching_def orchestrate_init_def Let_def split: if_splits)

lemma emitted_distinct: "distinct (emitted (orchestrateFetching config latest lb tips))"
  using orchestrate_ticks_inv [OF orchestrate_init_inv] by (simp add: heights_inv_def orchestrateFetching_def)

section \<open>Stored headers and transactions\<close>

lemma parse_digits_bad:
  assumes "\<exists>c \<in> set cs. digit_val c = None" and "(n + 1) * 10 ^ length cs \<le> m + 1"
  shows "parse_digits m n cs = (0, Some ErrSyntax)"
  using assms
proof (induction cs arbitrary: n)
  case (Cons c cs)
  show ?case
  proof (cases "digit_val c")
    case (Some d)
    have d: "d < 10" using Some by (rule digit_val_less)
    have "(n * 10 + d + 1) * 10 ^ length cs \<le> (n + 1) * 10 * 10 ^ length cs"
      using d by (intro mult_le_mono1) simp
    also have "\<dots> \<le> m + 1" using Cons.prems(2) by (simp add: algebra_simps)
    finally have b: "(n * 10 + d + 1) * 10 ^ length cs \<le> m + 1" .
    have "(n * 10 + d + 1) * 1 \<le> (n * 10 + d + 1) * 10 ^ length cs" by (intro mult_le_mono2) simp
    from le_trans [OF this b] have "n * 10 + d \<le> m" by simp
    moreover have "parse_digits m (n * 10 + d) cs = (0, Some ErrSyntax)"
      using Cons.IH [OF _ b] Cons.prems(1) Some by auto
    ultimately show ?thesis using Some by simp
  qed simp
qed simp

text \<open>
  The difficulty bits, which the node reports in hexadecimal, are read as a decimal
  number. When they contain a hexadecimal letter the error is ignored and the header is stored
  with difficulty 0; its time is the time of indexing, not the block's.
\<close>

theorem extractBlockHeader_hex_bits:
  assumes "extractBlockHeader lib now block = Ok header"
    and "\<exists>c \<in> set (Block_Bits block). digit_val c = None" and "length (Block_Bits block) \<le> 9"
  shows "wh_Bits header = 0 \<and> wh_Timestamp header = now"
proof -
  have "(10 :: nat) ^ length (Block_Bits block) \<le> 10 ^ 9"
    using assms(3) by (rule power_increasing) simp
  then have "parse_digits (2 ^ 32 - 1) 0 (Block_Bits block) = (0, Some ErrSyntax)"
    using assms(2) by (intro parse_digits_bad) auto
  moreover have "Block_Bits block \<noteq> []" using assms(2) by auto
  ultimately show ?thesis
    using assms(1) by (auto simp: extractBlockHeader_def and_then_Ok_iff ParseUint_def NewBlockHeader_def)
qed

theorem extractBlockHeader_hex_bits_witness:
  "\<exists>header. extractBlockHeader example_lib 5 (example_block\<lparr>Block_Bits := ''1d00ffff''\<rparr>) = Ok header
    \<and> wh_Bits header = 0 \<and> wh_Timestamp header = 5"
proof -
  obtain header where h: "extractBlockHeader example_lib 5 (example_block\<lparr>Block_Bits := ''1d00ffff''\<rparr>) = Ok header"
    by (cases "ParseUint ''1d00ffff'' 32") (auto simp: extractBlockHeader_def example_lib_def)
  from extractBlockHeader_hex_bits [OF h] h show ?thesis
    by (simp add: digit_val_def)
qed

text \<open>
  Vault transactions are sent to the database in order, in statements of at most 1000
  rows, none of them empty, and all of them are sent unless a statement fails.
\<close>

lemma StoreVaultTransactions_in_chunks:
  "\<exists>chunks. concat chunks = vaultTxs \<and> list_all (\<lambda>c. 0 < length c \<and> length c \<le> 1000) chunks
    \<and> StoreVaultTransactions db vaultTxs s = store_chunks db chunks s"
proof -
  have "chunk_loop (int vault_chunkSize) vaultTxs 0 [] = Some (Ok (chunks_of vault_chunkSize vaultTxs))"
    using chunk_loop_chunks_of [of vault_chunkSize 0 vaultTxs "[]"] by (simp add: vault_chunkSize_def)
  then have "StoreVaultTransactions db vaultTxs s = store_chunks db (chunks_of vault_chunkSize vaultTxs) s"
    by (cases "vaultTxs = []") (auto simp: StoreVaultTransactions_def)
  then show ?thesis
    using concat_chunks_of [of vault_chunkSize vaultTxs] chunks_of_sizes [of vault_chunkSize _ vaultTxs]
    by (intro exI [of _ "chunks_of vault_chunkSize vaultTxs"]) (auto simp: vault_chunkSize_def list_all_iff)
qed

end
