(* ===== verification/Pipeline.thy ===== *)
theory Pipeline
  imports BtcNode "HOL-Library.Multiset"
begin

text \<open>
  The goroutines of \<open>StartBtcIndexer\<close> (\<open>pkg/btc/btcnode.go\<close>): two worker pools turn heights into block hashes
  (\<open>fetchBlockHashes\<close>) and hashes into blocks (\<open>fetchBlockData\<close>), and \<open>indexBlock\<close> receives the blocks. Any goroutine may
  act at any time: a step of the system is a step of one of them.
\<close>

section \<open>Model\<close>

text \<open>What the node answers; a height is asked for once, so the answer may depend on it alone.\<close>

record node_rpc =
  GetBlockHash :: "int \<Rightarrow> hash outcome"
  GetBlockVerboseTx :: "hash \<Rightarrow> block_verbose outcome"

text \<open>
  The channels, the requests in the hands of the workers of each pool, the blocks that
  \<open>indexBlock\<close> has received, and the heights whose request failed. \<open>blockHeightChan\<close> stands for the channel
  together with the heights that the orchestrator is still sending.
\<close>

record pipeline =
  blockHeightChan :: "int list"
  hash_workers :: "int multiset"
  blockHashesChan :: "(hash \<times> int) list"
  block_workers :: "(hash \<times> int) multiset"
  blockChan :: "block_verbose list"
  received :: "block_verbose list"
  lost :: "int multiset"

definition chan_size :: nat where "chan_size = 1024"

definition hash_numWorkers :: "btc_config \<Rightarrow> int" where
  "hash_numWorkers config =
     (if FetchThread config > 0 then FetchThread config
      else if BatchSize config > 0 \<and> BatchSize config < 50 then BatchSize config
      else 10)"

inductive fetchBlockHashes :: "btc_config \<Rightarrow> node_rpc \<Rightarrow> pipeline \<Rightarrow> pipeline \<Rightarrow> bool" for config rpc where
  take_height: "blockHeightChan p = h # hs \<Longrightarrow> int (size (hash_workers p)) < hash_numWorkers config \<Longrightarrow>
     fetchBlockHashes config rpc p (p\<lparr>blockHeightChan := hs, hash_workers := add_mset h (hash_workers p)\<rparr>)"
| hash_failed: "h \<in># hash_workers p \<Longrightarrow> \<not> is_ok (GetBlockHash rpc h) \<Longrightarrow>
     fetchBlockHashes config rpc p (p\<lparr>hash_workers := hash_workers p - {#h#}, lost := add_mset h (lost p)\<rparr>)"
| hash_fetched: "h \<in># hash_workers p \<Longrightarrow> GetBlockHash rpc h = Ok x \<Longrightarrow> length (blockHashesChan p) < chan_size \<Longrightarrow>
     fetchBlockHashes config rpc p
       (p\<lparr>hash_workers := hash_workers p - {#h#}, blockHashesChan := blockHashesChan p @ [(x, h)]\<rparr>)"

definition block_numWorkers :: "btc_config \<Rightarrow> int" where
  "block_numWorkers config = (if FetchThread config > 0 then FetchThread config else 10)"

inductive fetchBlockData :: "btc_config \<Rightarrow> node_rpc \<Rightarrow> pipeline \<Rightarrow> pipeline \<Rightarrow> bool" for config rpc where
  take_hash: "blockHashesChan p = r # rs \<Longrightarrow> int (size (block_workers p)) < block_numWorkers config \<Longrightarrow>
     fetchBlockData config rpc p (p\<lparr>blockHashesChan := rs, block_workers := add_mset r (block_workers p)\<rparr>)"
| block_failed: "r \<in># block_workers p \<Longrightarrow> \<not> is_ok (GetBlockVerboseTx rpc (fst r)) \<Longrightarrow>
     fetchBlockData config rpc p (p\<lparr>block_workers := block_workers p - {#r#}, lost := add_mset (snd r) (lost p)\<rparr>)"
| block_fetched: "r \<in># block_workers p \<Longrightarrow> GetBlockVerboseTx rpc (fst r) = Ok b \<Longrightarrow> length (blockChan p) < chan_size \<Longrightarrow>
     fetchBlockData config rpc p (p\<lparr>block_workers := block_workers p - {#r#}, blockChan := blockChan p @ [b]\<rparr>)"

inductive pipeline_step :: "btc_config \<Rightarrow> node_rpc \<Rightarrow> pipeline \<Rightarrow> pipeline \<Rightarrow> bool" for config rpc where
  hashes: "fetchBlockHashes config rpc p q \<Longrightarrow> pipeline_step config rpc p q"
| data: "fetchBlockData config rpc p q \<Longrightarrow> pipeline_step config rpc p q"
| index: "blockChan p = b # bs \<Longrightarrow> pipeline_step config rpc p (p\<lparr>blockChan := bs, received := received p @ [b]\<rparr>)"

definition pipeline_init :: "int list \<Rightarrow> pipeline" where
  "pipeline_init hs = \<lparr>blockHeightChan = hs, hash_workers = {#}, blockHashesChan = [], block_workers = {#},
     blockChan = [], received = [], lost = {#}\<rparr>"

definition pipeline_idle :: "pipeline \<Rightarrow> bool" where
  "pipeline_idle p \<longleftrightarrow> blockHeightChan p = [] \<and> hash_workers p = {#} \<and> blockHashesChan p = [] \<and> block_workers p = {#}
     \<and> blockChan p = []"

text \<open>\<open>indexBlock\<close> over the blocks in the order it receives them; a panic ends the process.\<close>

fun indexBlock :: "'s node \<Rightarrow> (int \<times> u64 \<times> block_verbose option) list \<Rightarrow> 's \<Rightarrow> 's outcome" where
  "indexBlock n [] s = Ok s"
| "indexBlock n ((now, currHeight, block) # rest) s = and_then (index_one n now currHeight block s) (indexBlock n rest)"

section \<open>Conservation\<close>

definition served_hash :: "node_rpc \<Rightarrow> hash \<times> int \<Rightarrow> block_verbose option" where
  "served_hash rpc r = (case GetBlockVerboseTx rpc (fst r) of Ok b \<Rightarrow> Some b | _ \<Rightarrow> None)"

definition served :: "node_rpc \<Rightarrow> int \<Rightarrow> block_verbose option" where
  "served rpc h = (case GetBlockHash rpc h of Ok x \<Rightarrow> served_hash rpc (x, h) | _ \<Rightarrow> None)"

definition somes :: "('a \<Rightarrow> 'b option) \<Rightarrow> 'a multiset \<Rightarrow> 'b multiset" where
  "somes f M = image_mset (the \<circ> f) (filter_mset (\<lambda>x. f x \<noteq> None) M)"

lemma somes_simps [simp]:
  "somes f {#} = {#}" "somes f (add_mset x M) = (case f x of None \<Rightarrow> somes f M | Some y \<Rightarrow> add_mset y (somes f M))"
  "somes f (M + N) = somes f M + somes f N"
  by (auto simp: somes_def split: option.split)

lemma somes_remove: "x \<in># M \<Longrightarrow> somes f M = (case f x of None \<Rightarrow> {#} | Some y \<Rightarrow> {#y#}) + somes f (M - {#x#})"
  using somes_simps(2) [of f x "M - {#x#}"] by (auto split: option.splits)

text \<open>The blocks that have come or are still to come, and the heights that are lost or will be.\<close>

definition due :: "node_rpc \<Rightarrow> pipeline \<Rightarrow> block_verbose multiset" where
  "due rpc p = somes (served rpc) (mset (blockHeightChan p)) + somes (served rpc) (hash_workers p)
     + somes (served_hash rpc) (mset (blockHashesChan p)) + somes (served_hash rpc) (block_workers p)
     + mset (blockChan p) + mset (received p)"

definition failing :: "node_rpc \<Rightarrow> pipeline \<Rightarrow> int multiset" where
  "failing rpc p = filter_mset (\<lambda>h. served rpc h = None) (mset (blockHeightChan p) + hash_workers p)
     + image_mset snd (filter_mset (\<lambda>r. served_hash rpc r = None) (mset (blockHashesChan p) + block_workers p)) + lost p"

lemma served_Ok: "GetBlockHash rpc h = Ok x \<Longrightarrow> served rpc h = served_hash rpc (x, h)"
  by (simp add: served_def)

lemma served_failed: "\<not> is_ok (GetBlockHash rpc h) \<Longrightarrow> served rpc h = None"
  by (cases "GetBlockHash rpc h") (simp_all add: served_def)

lemma served_hash_failed: "\<not> is_ok (GetBlockVerboseTx rpc (fst r)) \<Longrightarrow> served_hash rpc r = None"
  by (cases "GetBlockVerboseTx rpc (fst r)") (simp_all add: served_hash_def)

lemmas served_simps = served_Ok served_failed served_hash_failed

lemma pipeline_step_due: "pipeline_step config rpc p q \<Longrightarrow> due rpc q = due rpc p"
proof (induction rule: pipeline_step.induct)
  case (hashes p q)
  then show ?case
    by cases (auto simp: due_def served_simps somes_remove [of _ "hash_workers p"] split: option.splits)
next
  case (data p q)
  then show ?case
  proof cases
    case (block_fetched r b)
    then have "served_hash rpc r = Some b" by (simp add: served_hash_def)
    with block_fetched show ?thesis by (simp add: due_def somes_remove [of r "block_workers p"])
  qed (auto simp: due_def served_simps somes_remove [of _ "block_workers p"] split: option.splits)
qed (simp add: due_def)

lemma pipeline_step_failing: "pipeline_step config rpc p q \<Longrightarrow> failing rpc q = failing rpc p"
proof (induction rule: pipeline_step.induct)
  case (hashes p q)
  then show ?case
    by cases (auto simp: failing_def served_simps dest!: multi_member_split)
next
  case (data p q)
  then show ?case
  proof cases
    case (block_fetched r b)
    then have "served_hash rpc r = Some b" by (simp add: served_hash_def)
    with block_fetched show ?thesis by (auto simp: failing_def dest!: multi_member_split)
  qed (auto simp: failing_def served_simps dest!: multi_member_split)
qed (simp add: failing_def)

lemma pipeline_conserves:
  "(pipeline_step config rpc)\<^sup>*\<^sup>* p q \<Longrightarrow> due rpc q = due rpc p \<and> failing rpc q = failing rpc p"
  by (induction rule: rtranclp_induct) (auto simp: pipeline_step_due pipeline_step_failing)

section \<open>Progress\<close>

text \<open>The steps that a pipeline can still make: a request takes at most five.\<close>

definition work :: "pipeline \<Rightarrow> nat" where
  "work p = 5 * length (blockHeightChan p) + 4 * size (hash_workers p) + 3 * length (blockHashesChan p)
     + 2 * size (block_workers p) + length (blockChan p)"

lemma pipeline_step_work: "pipeline_step config rpc p q \<Longrightarrow> work q < work p"
proof (induction rule: pipeline_step.induct)
  case (hashes p q)
  then show ?case by cases (auto simp: work_def size_Diff_singleton dest!: multi_member_split)
next
  case (data p q)
  then show ?case by cases (auto simp: work_def dest!: multi_member_split)
qed (simp add: work_def)

lemma numWorkers_positive: "0 < hash_numWorkers config" "0 < block_numWorkers config"
  by (auto simp: hash_numWorkers_def block_numWorkers_def)

lemma not_is_ok: "\<not> is_ok x \<or> (\<exists>y. x = Ok y)"
  by (cases x) auto

lemma pipeline_not_stuck:
  assumes "\<not> pipeline_idle p"
  shows "\<exists>q. pipeline_step config rpc p q"
proof -
  consider b bs where "blockChan p = b # bs"
    | r where "blockChan p = []" "r \<in># block_workers p"
    | r rs where "block_workers p = {#}" "blockHashesChan p = r # rs"
    | h where "blockHashesChan p = []" "h \<in># hash_workers p"
    | h hs where "hash_workers p = {#}" "blockHeightChan p = h # hs"
    using assms unfolding pipeline_idle_def by (metis list.exhaust multiset_nonemptyE)
  then show ?thesis
  proof cases
    case 1
    then show ?thesis by (blast intro: pipeline_step.index)
  next
    case (2 r)
    then show ?thesis
      using not_is_ok [of "GetBlockVerboseTx rpc (fst r)"]
        fetchBlockData.block_failed [of r p rpc config] fetchBlockData.block_fetched [of r p rpc _ config]
      by (auto simp: chan_size_def intro: pipeline_step.data)
  next
    case (3 r rs)
    then show ?thesis
      using numWorkers_positive(2) [of config] fetchBlockData.take_hash [of p r rs config rpc]
      by (auto intro: pipeline_step.data)
  next
    case (4 h)
    then show ?thesis
      using not_is_ok [of "GetBlockHash rpc h"]
        fetchBlockHashes.hash_failed [of h p rpc config] fetchBlockHashes.hash_fetched [of h p rpc _ config]
      by (auto simp: chan_size_def intro: pipeline_step.hashes)
  next
    case (5 h hs)
    then show ?thesis
      using numWorkers_positive(1) [of config] fetchBlockHashes.take_height [of p h hs config rpc]
      by (auto intro: pipeline_step.hashes)
  qed
qed

lemma pipeline_finishes: "\<exists>q. (pipeline_step config rpc)\<^sup>*\<^sup>* p q \<and> pipeline_idle q"
  by (rule runs_to_end [of "measure work" "\<lambda>_. True"])
    (use pipeline_not_stuck pipeline_step_work in \<open>auto simp del: split_paired_Ex\<close>)

section \<open>Properties\<close>

lemma somes_map_filter: "somes f (mset xs) = mset (List.map_filter f xs)"
  by (induction xs) (auto simp: map_filter_simps split: option.split)

lemma pipeline_received:
  assumes "(pipeline_step config rpc)\<^sup>*\<^sup>* (pipeline_init hs) p" and "pipeline_idle p"
  shows "mset (received p) = mset (List.map_filter (served rpc) hs)"
  using pipeline_conserves [OF assms(1)] assms(2)
  by (simp add: due_def pipeline_init_def pipeline_idle_def somes_map_filter)

text \<open>
  C10: no block is duplicated in the pipeline, and none disappears silently. When the workers
  have nothing left to do, \<open>indexBlock\<close> has received the block of every height that was sent and for which
  both requests were answered, once each, in some order; the other heights, and only those, are
  lost, and nothing asks for them again.
\<close>

theorem pipeline_delivers_or_loses:
  assumes "(pipeline_step config rpc)\<^sup>*\<^sup>* (pipeline_init (emitted (orchestrateFetching config latest lb tips))) p"
    and "pipeline_idle p"
  shows "mset (received p) =
      mset (List.map_filter (served rpc) (emitted (orchestrateFetching config latest lb tips)))
    \<and> mset_set {h \<in> set (emitted (orchestrateFetching config latest lb tips)). served rpc h = None} = lost p"
proof -
  let ?e = "emitted (orchestrateFetching config latest lb tips)"
  have "lost p = filter_mset (\<lambda>h. served rpc h = None) (mset ?e)"
    using pipeline_conserves [OF assms(1)] assms(2) by (simp add: failing_def pipeline_init_def pipeline_idle_def)
  moreover have "filter_mset P (mset ?e) = mset_set {h \<in> set ?e. P h}" for P
    using emitted_distinct [of config latest lb tips] by (simp add: mset_set_set [symmetric] filter_mset_mset_set)
  ultimately show ?thesis using pipeline_received [OF assms] by simp
qed

lemma example_heights:
  "emitted (orchestrateFetching example_config (Ok 4) 0 [Ok 5]) = [5]"
  by (simp add: orchestrateFetching_def orchestrate_init_def orchestrate_tick_def example_config_def)

definition example_node_rpc :: node_rpc where
  "example_node_rpc = \<lparr>GetBlockHash = (\<lambda>h. Err (Errorf ''timeout'')), GetBlockVerboseTx = (\<lambda>x. Ok example_block)\<rparr>"

theorem pipeline_delivers_or_loses_witness:
  "\<exists>p. (pipeline_step example_config example_node_rpc)\<^sup>*\<^sup>*
        (pipeline_init (emitted (orchestrateFetching example_config (Ok 4) 0 [Ok 5]))) p
    \<and> received p = [] \<and> lost p = {#5#}"
proof -
  let ?p0 = "pipeline_init [5]"
  let ?p1 = "?p0\<lparr>blockHeightChan := [], hash_workers := {#5#}\<rparr>"
  let ?p2 = "?p1\<lparr>hash_workers := {#}, lost := {#5#}\<rparr>"
  have "fetchBlockHashes example_config example_node_rpc ?p0 ?p1"
    using take_height [of ?p0 5 "[]" example_config] numWorkers_positive(1) by (simp add: pipeline_init_def)
  moreover have "fetchBlockHashes example_config example_node_rpc ?p1 ?p2"
    using hash_failed [of 5 ?p1 example_node_rpc example_config] by (simp add: pipeline_init_def example_node_rpc_def)
  ultimately have s: "(pipeline_step example_config example_node_rpc)\<^sup>*\<^sup>*
      (pipeline_init (emitted (orchestrateFetching example_config (Ok 4) 0 [Ok 5]))) ?p2"
    unfolding example_heights by (meson hashes converse_rtranclp_into_rtranclp r_into_rtranclp)
  have "pipeline_idle ?p2" by (simp add: pipeline_idle_def pipeline_init_def)
  from pipeline_delivers_or_loses [OF s this] s show ?thesis
    by (intro exI [of _ ?p2]) (simp add: example_heights served_def example_node_rpc_def map_filter_simps pipeline_init_def)
qed

lemma pipeline_steps_work: "(pipeline_step config rpc ^^ n) p q \<Longrightarrow> work q + n \<le> work p"
proof (induction n arbitrary: q)
  case (Suc n)
  then obtain r where "(pipeline_step config rpc ^^ n) p r" "pipeline_step config rpc r q" by auto
  with Suc.IH [of r] pipeline_step_work [of config rpc r q] show ?case by simp
qed simp

text \<open>
  C11: the pipeline cannot block for ever. Whatever the node answers and whichever goroutine
  runs next, a pipeline with work left has a goroutine that can act, although channels are bounded, and no
  schedule is longer than five steps per height.
\<close>

theorem pipeline_live:
  "(pipeline_idle p \<or> (\<exists>q. pipeline_step config rpc p q))
    \<and> \<not> (pipeline_step config rpc ^^ Suc (5 * length hs)) (pipeline_init hs) p'"
  using pipeline_not_stuck [of p config rpc] pipeline_steps_work [of "Suc (5 * length hs)" config rpc "pipeline_init hs" p']
  by (auto simp: work_def pipeline_init_def simp del: relpowp.simps)

end
