(* ===== verification/BtcSync.thy ===== *)
theory BtcSync
  imports Pipeline
begin

text \<open>
  The Bitcoin indexer from end to end (\<open>StartBtcIndexer\<close> of \<open>pkg/btc/btcnode.go\<close>): heights, the worker pools, and what \<open>indexBlock\<close> leaves in the
  database, for deep blocks and for those near the tip, which go through the check for reorganisations (\<open>Reorg\<close>). The
  contract of the database is the locale \<open>inserting_engine\<close>.
\<close>

section \<open>Headers\<close>

context accepting_engine
begin

lemma header_stored_at:
  fixes header height s lib BlockHash
  defines "r \<equiv> rows (fst (StoreBlockHeader db lib BlockHash header height s))"
  shows "\<exists>h. BtcBlockHeaderM h \<in> set r \<and> bbh_Height h = height" and "set (rows s) \<subseteq> set r"
    and "m \<in> set r - set (rows s) \<Longrightarrow>
      \<exists>h. m = BtcBlockHeaderM h \<and> bbh_Height h = height \<and> bbh_Hash h = Hash_String lib (BlockHash header)"
proof -
  obtain h where h: "StoreBlockHeader db lib BlockHash header height = CreateBtcBlockHeader db h" "bbh_Height h = height"
    "bbh_Hash h = Hash_String lib (BlockHash header)"
    by (simp add: StoreBlockHeader_def)
  obtain s' where c: "CreateBtcBlockHeader db h s = (s', None)"
    using accepts [of "[Some (BtcBlockHeaderM h)]" BtcBlockHeaders "[''height'']" s]
    by (simp add: CreateBtcBlockHeader_def) (metis prod.collapse)
  have "r = rows s'" using h c by (simp add: r_def)
  with header_created [OF c] h show "\<exists>h. BtcBlockHeaderM h \<in> set r \<and> bbh_Height h = height" "set (rows s) \<subseteq> set r"
    "m \<in> set r - set (rows s) \<Longrightarrow>
      \<exists>h. m = BtcBlockHeaderM h \<and> bbh_Height h = height \<and> bbh_Hash h = Hash_String lib (BlockHash header)"
    by (auto split: if_splits)
qed

text \<open>A second header at a height is dropped, and the highest height limits where the next start begins.\<close>

lemma header_dropped:
  assumes "BtcBlockHeaderM h \<in> set (rows s)" and "bbh_Height h = height"
  shows "rows (fst (StoreBlockHeader db lib BlockHash header height s)) = rows s"
proof -
  obtain h' where h': "StoreBlockHeader db lib BlockHash header height = CreateBtcBlockHeader db h'" "bbh_Height h' = height"
    by (simp add: StoreBlockHeader_def)
  obtain s' where c: "CreateBtcBlockHeader db h' s = (s', None)"
    using accepts [of "[Some (BtcBlockHeaderM h')]" BtcBlockHeaders "[''height'']" s]
    by (simp add: CreateBtcBlockHeader_def) (metis prod.collapse)
  have "\<exists>x. BtcBlockHeaderM x \<in> set (rows s) \<and> bbh_Height x = bbh_Height h'" 
    using assms h'(2) by (intro exI [of _ h]) simp
  with header_created [OF c] have "rows s' = rows s" by simp
  with c h'(1) show ?thesis by simp
qed

lemma latest_height:
  assumes "GetLatestIndexedHeight db chain s = Ok k" and "BtcBlockHeaderM h \<in> set (rows s)"
  shows "bbh_Height h \<le> k"
proof -
  obtain m h' where m: "First db BtcBlockHeaders All (Some ''height'') s = Ok m" "expect_BtcBlockHeader m = Ok h'" "k = bbh_Height h'"
    using assms(1) by (auto simp: GetLatestIndexedHeight_def and_then_Ok_iff)
  have "m = BtcBlockHeaderM h'" using m(2) by (cases m) auto
  moreover have "BtcBlockHeaderM h \<in> set (matching column BtcBlockHeaders All (rows s))"
    using assms(2) by (simp add: matching_def table_of_constructors)
  ultimately have "\<not> num_less (column (BtcBlockHeaderM h') ''height'') (column (BtcBlockHeaderM h) ''height'')"
    using first_row [OF m(1)] by blast
  then show ?thesis using m(3) by (simp add: column_simps num_less_def)
qed

end

section \<open>Inserts of vault transactions\<close>

text \<open>
  \<open>gorm.Expr\<close> is an expression and not a clause of the statement: GORM adds it to the conditions, which an insert does not
  have, so the rows are inserted as they are. No statement fails.
\<close>

locale inserting_engine = accepting_engine +
  assumes raw_insert: "Create db t (RawClause q) (map Some ms) s = (s', err) \<Longrightarrow> err = None \<and> rows s' = rows s @ ms"
begin

lemma store_chunks_rows:
  "store_chunks db cs s = (s', err) \<Longrightarrow> rows s' = rows s @ map VaultTransactionM (concat cs)"
proof (induction cs arbitrary: s)
  case (Cons c cs)
  obtain s1 e1 where c: "Create db VaultTransactions (RawClause ''ON CONFLICT (chain, tx_hash) DO NOTHING'')
      (map (Some \<circ> VaultTransactionM) c) s = (s1, e1)" by fastforce
  then have "e1 = None" "rows s1 = rows s @ map VaultTransactionM c"
    using raw_insert [where ms = "map VaultTransactionM c"] by (auto simp: comp_def)
  with Cons c show ?case by (auto simp: wrap_err_def)
qed simp

lemma vault_transactions_stored:
  "rows (fst (StoreVaultTransactions db vs s)) = rows s @ map VaultTransactionM vs"
proof -
  obtain cs where "concat cs = vs" "StoreVaultTransactions db vs s = store_chunks db cs s"
    using StoreVaultTransactions_in_chunks [of vs db s] by blast
  with store_chunks_rows [of cs s] show ?thesis by (cases "store_chunks db cs s") auto
qed

end

interpretation mem_inserting: inserting_engine mem_engine "\<lambda>s. s" mem_column mem_assign
proof
  fix t q ms and s s' :: "model list" and err
  have "insert_rows mem_column mem_assign (RawClause q) s ms = s @ ms"
    by (induction ms arbitrary: s) (simp_all add: insert_row_def)
  then show "Create mem_engine t (RawClause q) (map Some ms) s = (s', err) \<Longrightarrow> err = None \<and> s' = s @ ms"
    by (auto simp: mem_engine_def comp_def)
qed

section \<open>Indexing\<close>

text \<open>The header can be read; the block is too deep to be checked for a reorganisation, or its own hash can be read.\<close>

definition readable :: "btc_lib \<Rightarrow> block_verbose \<Rightarrow> bool" where
  "readable lib block \<longleftrightarrow>
     is_ok (NewHashFromStr lib (Block_PreviousHash block)) \<and> is_ok (NewHashFromStr lib (Block_MerkleRoot block))"

definition deep :: "u64 \<Rightarrow> block_verbose \<Rightarrow> bool" where
  "deep currHeight block \<longleftrightarrow> Block_Height block \<le> int_of_u64 currHeight - FINAL_CONFIRMATIONS"

definition checkable :: "btc_lib \<Rightarrow> u64 \<Rightarrow> block_verbose \<Rightarrow> bool" where
  "checkable lib currHeight block \<longleftrightarrow> deep currHeight block \<or> is_ok (NewHashFromStr lib (Block_Hash block))"

text \<open>What the database must hold of an indexed block: a header at its height and all its vault transactions.\<close>

definition block_indexed :: "'s node \<Rightarrow> block_verbose \<Rightarrow> model list \<Rightarrow> bool" where
  "block_indexed n block rs \<longleftrightarrow>
     (\<exists>h. BtcBlockHeaderM h \<in> set rs \<and> bbh_Height h = Block_Height block)
   \<and> (\<forall>vs. index_txs (node_lib n) (node_config n) block 0 (Block_Tx block) = Ok vs \<longrightarrow> VaultTransactionM ` set vs \<subseteq> set rs)"

lemma block_indexed_mono: "block_indexed n block rs \<Longrightarrow> set rs \<subseteq> set rs' \<Longrightarrow> block_indexed n block rs'"
  unfolding block_indexed_def by blast

lemma readable_extract: "readable lib block \<Longrightarrow> \<exists>header. extractBlockHeader lib now block = Ok header"
  by (auto simp: readable_def is_ok_iff extractBlockHeader_def split: prod.splits)

lemma extracted_parent:
  "extractBlockHeader lib now block = Ok header \<Longrightarrow> NewHashFromStr lib (Block_PreviousHash block) = Ok (wh_PrevBlock header)"
  by (cases "ParseUint (Block_Bits block) 32") (auto simp: extractBlockHeader_def and_then_Ok_iff NewBlockHeader_def)

text \<open>
  A block id belongs to one height: a header that carries the id which a block names as its parent lies just below
  that block. \<open>parents_below\<close> says it of the stored headers, \<open>linked\<close> of the headers that will be stored.
\<close>

type_synonym index_step = "int \<times> u64 \<times> block_verbose option"

definition parents_below :: "btc_lib \<Rightarrow> block_verbose list \<Rightarrow> model list \<Rightarrow> bool" where
  "parents_below lib blocks rs \<longleftrightarrow> nonnegative_heights rs
     \<and> list_all (\<lambda>m. case m of
          BtcBlockHeaderM h \<Rightarrow> list_all (\<lambda>b. NewHashFromStr lib (bbh_Hash h) = NewHashFromStr lib (Block_PreviousHash b) \<longrightarrow>
            bbh_Height h = Block_Height b - 1) blocks
        | _ \<Rightarrow> True) rs"

definition linked :: "'s node \<Rightarrow> index_step list \<Rightarrow> block_verbose list \<Rightarrow> bool" where
  "linked n steps blocks \<longleftrightarrow> list_all (\<lambda>(now, currHeight, b). case b of
        None \<Rightarrow> True
      | Some block \<Rightarrow> 0 \<le> Block_Height block \<and>
          (case extractBlockHeader (node_lib n) now block of
             Ok header \<Rightarrow> list_all (\<lambda>b'. NewHashFromStr (node_lib n) (Block_PreviousHash b') = Ok (node_hash n header) \<longrightarrow>
               Block_Height block = Block_Height b' - 1) blocks
           | _ \<Rightarrow> True)) steps"

lemma parents_belowD:
  assumes "parents_below lib blocks rs" and "stored_header (NewHashFromStr lib) rs x" and "b \<in> set blocks"
    and "NewHashFromStr lib (Block_PreviousHash b) = Ok (Hash x)"
  shows "Height x = Block_Height b - 1"
proof -
  obtain h where h: "BtcBlockHeaderM h \<in> set rs" "lite (NewHashFromStr lib) h = Ok x"
    using assms(2) by (auto simp: stored_header_def)
  then have "NewHashFromStr lib (bbh_Hash h) = Ok (Hash x)" "bbh_Height h = Height x"
    by (auto simp: lite_def and_then_Ok_iff)
  with h(1) assms(1,3,4) show ?thesis by (fastforce simp: parents_below_def list_all_iff)
qed

lemma check_reorg_keeps:
  assumes "hashed_engine (node_db n) rows column assign (NewHashFromStr (node_lib n))"
    and "parents_below (node_lib n) blocks (rows s)" and "block \<in> set blocks"
    and "extractBlockHeader (node_lib n) now block = Ok header" and "checkable (node_lib n) currHeight block"
  shows "check_reorg n header currHeight block s = Ok (Some s)"
proof (cases "deep currHeight block")
  case False
  then obtain hash where hash: "NewHashFromStr (node_lib n) (Block_Hash block) = Ok hash"
    using assms(5) by (auto simp: checkable_def is_ok_iff)
  let ?new = "\<lparr>Height = Block_Height block, Hash = hash, PrevHash = wh_PrevBlock header\<rparr>"
  let ?d = "DatabaseAdapter (node_db n) (NewHashFromStr (node_lib n))"
  obtain s' r where d: "DetectAndHandleReorg ?d ?new s = (s', r)" by fastforce
  have "s' = s \<and> (\<nexists>p. r = Panic p)"
  proof (cases "Block_Height block = 0")
    case True
    then show ?thesis using d by (auto simp: DetectAndHandleReorg_def)
  next
    case False
    have "nonnegative_heights (rows s)" using assms(2) by (simp add: parents_below_def)
    moreover have "Height x = Height ?new - 1"
      if "stored_header (NewHashFromStr (node_lib n)) (rows s) x" "Hash x = PrevHash ?new" for x
      using parents_belowD [OF assms(2) that(1) assms(3)] extracted_parent [OF assms(4)] that(2) by simp
    ultimately show ?thesis
      using hashed_engine.db_reorg_unchanged [OF assms(1) _ _ _ d] hashed_engine.db_reorg_no_panic [OF assms(1) _ _ d] False
      by simp
  qed
  with hash d show ?thesis by (auto simp: check_reorg_def split: outcome.splits)
qed (simp add: check_reorg_def deep_def)

context inserting_engine
begin

text \<open>What indexing a block does to the rows when the check for a reorganisation changes nothing.\<close>

lemma index_one_rows:
  assumes "index_one n now currHeight (Some block) s = Ok s'" and "node_db n = db"
    and "\<And>header. extractBlockHeader (node_lib n) now block = Ok header \<Longrightarrow>
      check_reorg n header currHeight block s = Ok (Some s)"
  shows "set (rows s) \<subseteq> set (rows s')" and "readable (node_lib n) block \<Longrightarrow> block_indexed n block (rows s')"
    and "BtcBlockHeaderM h \<in> set (rows s') \<Longrightarrow> BtcBlockHeaderM h \<notin> set (rows s) \<Longrightarrow>
      \<exists>header. extractBlockHeader (node_lib n) now block = Ok header
        \<and> bbh_Height h = Block_Height block \<and> bbh_Hash h = Hash_String (node_lib n) (node_hash n header)"
proof -
  let ?rows = "\<lambda>header. rows (fst (StoreBlockHeader db (node_lib n) (node_hash n) header (Block_Height block) s))"
  consider "s' = s" "\<not> readable (node_lib n) block"
    | header vs where "extractBlockHeader (node_lib n) now block = Ok header"
        "index_txs (node_lib n) (node_config n) block 0 (Block_Tx block) = Ok vs" "rows s' = ?rows header @ map VaultTransactionM vs"
  proof (cases "extractBlockHeader (node_lib n) now block")
    case (Ok header)
    then show ?thesis
      using assms vault_transactions_stored that(2) [of header]
      by (auto simp: index_one_def and_then_Ok_iff Let_def split: if_splits)
  qed (use assms(1) readable_extract [of "node_lib n" block now] that(1) in \<open>auto simp: index_one_def\<close>)
  then have "set (rows s) \<subseteq> set (rows s') \<and> (readable (node_lib n) block \<longrightarrow> block_indexed n block (rows s'))
    \<and> (BtcBlockHeaderM h \<in> set (rows s') - set (rows s) \<longrightarrow>
        (\<exists>header. extractBlockHeader (node_lib n) now block = Ok header
          \<and> bbh_Height h = Block_Height block \<and> bbh_Hash h = Hash_String (node_lib n) (node_hash n header)))"
  proof cases
    case (2 header vs)
    note st = header_stored_at [where lib = "node_lib n" and BlockHash = "node_hash n" and height = "Block_Height block"
        and s = s and header = header]
    show ?thesis
      using 2 st(1,2) st(3) [of "BtcBlockHeaderM h"] by (auto simp: block_indexed_def)
  qed simp
  then show "set (rows s) \<subseteq> set (rows s')" "readable (node_lib n) block \<Longrightarrow> block_indexed n block (rows s')"
    "BtcBlockHeaderM h \<in> set (rows s') \<Longrightarrow> BtcBlockHeaderM h \<notin> set (rows s) \<Longrightarrow>
      \<exists>header. extractBlockHeader (node_lib n) now block = Ok header
        \<and> bbh_Height h = Block_Height block \<and> bbh_Hash h = Hash_String (node_lib n) (node_hash n header)"
    by blast+
qed

lemma index_one_parents:
  assumes "index_one n now currHeight (Some block) s = Ok s'" and "node_db n = db"
    and "hashed_engine db rows column assign (NewHashFromStr (node_lib n))"
    and "\<And>h. NewHashFromStr (node_lib n) (Hash_String (node_lib n) h) = Ok h"
    and "parents_below (node_lib n) blocks (rows s)" and "linked n [(now, currHeight, Some block)] blocks"
    and "block \<in> set blocks" and "checkable (node_lib n) currHeight block"
  shows "parents_below (node_lib n) blocks (rows s')"
proof -
  have "check_reorg n header currHeight block s = Ok (Some s)" if "extractBlockHeader (node_lib n) now block = Ok header" for header
    by (rule check_reorg_keeps [OF assms(3) [folded assms(2)] assms(5,7) that assms(8)])
  note new = index_one_rows(3) [OF assms(1,2) this]
  have "0 \<le> bbh_Height h \<and> (\<forall>b \<in> set blocks.
      NewHashFromStr (node_lib n) (bbh_Hash h) = NewHashFromStr (node_lib n) (Block_PreviousHash b) \<longrightarrow>
        bbh_Height h = Block_Height b - 1)" if h: "BtcBlockHeaderM h \<in> set (rows s')" for h
  proof (cases "BtcBlockHeaderM h \<in> set (rows s)")
    case True
    then show ?thesis using assms(5) by (fastforce simp: parents_below_def nonnegative_heights_def list_all_iff)
  next
    case False
    then obtain header where "extractBlockHeader (node_lib n) now block = Ok header"
      "bbh_Height h = Block_Height block" "bbh_Hash h = Hash_String (node_lib n) (node_hash n header)"
      using new h by blast
    then show ?thesis using assms(4,6) by (auto simp: linked_def list_all_iff)
  qed
  then show ?thesis by (auto simp: parents_below_def nonnegative_heights_def list_all_iff split: model.splits)
qed

lemma indexBlock_rows:
  assumes "indexBlock n steps s = Ok s'" and "node_db n = db"
    and "hashed_engine db rows column assign (NewHashFromStr (node_lib n))"
    and "\<And>h. NewHashFromStr (node_lib n) (Hash_String (node_lib n) h) = Ok h"
    and "parents_below (node_lib n) blocks (rows s)" and "linked n steps blocks"
    and "\<forall>(now, currHeight, b) \<in> set steps. \<exists>block \<in> set blocks. b = Some block \<and> checkable (node_lib n) currHeight block"
  shows "set (rows s) \<subseteq> set (rows s')
    \<and> (\<forall>(now, currHeight, b) \<in> set steps. readable (node_lib n) (the b) \<longrightarrow> block_indexed n (the b) (rows s'))"
  using assms(1,5-7)
proof (induction steps arbitrary: s)
  case (Cons step steps)
  obtain now cur block where step: "step = (now, cur, Some block)" "block \<in> set blocks" "checkable (node_lib n) cur block"
    using Cons.prems(4) by auto
  then obtain s1 where s1: "index_one n now cur (Some block) s = Ok s1" "indexBlock n steps s1 = Ok s'"
    using Cons.prems(1) by (auto simp: and_then_Ok_iff)
  have l: "linked n [(now, cur, Some block)] blocks" "linked n steps blocks"
    using Cons.prems(3) step(1) by (simp_all add: linked_def)
  have "check_reorg n header cur block s = Ok (Some s)" if "extractBlockHeader (node_lib n) now block = Ok header" for header
    by (rule check_reorg_keeps [OF assms(3) [folded assms(2)] Cons.prems(2) step(2) that step(3)])
  note one = index_one_rows(1,2) [OF s1(1) assms(2) this]
  have "parents_below (node_lib n) blocks (rows s1)"
    by (rule index_one_parents [OF s1(1) assms(2-4) Cons.prems(2) l(1) step(2,3)])
  then have rest: "set (rows s1) \<subseteq> set (rows s')"
    "\<forall>(now, currHeight, b) \<in> set steps. readable (node_lib n) (the b) \<longrightarrow> block_indexed n (the b) (rows s')"
    using Cons.IH [OF s1(2) _ l(2)] Cons.prems(4) by auto
  show ?case using one rest block_indexed_mono [OF _ rest(1)] step(1) by auto
qed simp

end

section \<open>From the node to the rows\<close>


text \<open>An instance: the block at the tip of a chain, without transactions, and an empty database.\<close>

definition sync_block :: block_verbose where
  "sync_block = example_block\<lparr>Block_Tx := []\<rparr>"

definition sync_rpc :: node_rpc where
  "sync_rpc = \<lparr>GetBlockHash = (\<lambda>h. Ok []), GetBlockVerboseTx = (\<lambda>x. Ok sync_block)\<rparr>"

definition sync_node :: "model list node" where
  "sync_node = \<lparr>node_db = mem_engine, node_lib = example_lib\<lparr>Hash_String := string_of_bytes\<rparr>, node_hash = (\<lambda>_. [1]),
     node_config = example_config\<rparr>"

lemma sync_hashes:
  "NewHashFromStr (node_lib sync_node) = example_newHash"
  "NewHashFromStr (node_lib sync_node) (Hash_String (node_lib sync_node) h) = Ok h"
proof -
  show "NewHashFromStr (node_lib sync_node) = example_newHash"
    by (simp add: sync_node_def example_lib_def example_newHash_def fun_eq_iff)
  have "(of_nat (of_char (char_of (unat b) :: char)) :: byte) = b" for b :: byte
    using unsigned_less [of b, where ?'a = nat] by simp
  then show "NewHashFromStr (node_lib sync_node) (Hash_String (node_lib sync_node) h) = Ok h"
    by (simp add: sync_node_def example_lib_def string_of_bytes_def bytes_of_string_def comp_def)
qed

lemma sync_indexes:
  "\<not> deep 82333 sync_block" "checkable (node_lib sync_node) 82333 sync_block" "readable (node_lib sync_node) sync_block"
  "linked sync_node [(0, 82333, Some sync_block)] [sync_block]" "parents_below (node_lib sync_node) [sync_block] []"
proof -
  show "\<not> deep 82333 sync_block"
    by (simp add: deep_def sync_block_def example_block_def FINAL_CONFIRMATIONS_def int_of_u64_small)
  show "checkable (node_lib sync_node) 82333 sync_block" "readable (node_lib sync_node) sync_block"
    by (simp_all add: checkable_def readable_def sync_hashes(1) example_newHash_def)
  show "parents_below (node_lib sync_node) [sync_block] []" by (simp add: parents_below_def nonnegative_heights_def)
  show "linked sync_node [(0, 82333, Some sync_block)] [sync_block]"
    by (cases "ParseUint [] 32")
      (simp add: linked_def sync_block_def example_block_def bytes_of_string_def extractBlockHeader_def sync_node_def
        example_lib_def)
qed

lemma sync_engines:
  "inserting_engine (node_db sync_node) (\<lambda>s. s) mem_column mem_assign"
  "hashed_engine (node_db sync_node) (\<lambda>s. s) mem_column mem_assign (NewHashFromStr (node_lib sync_node))"
  using mem_inserting.inserting_engine_axioms mem_store.hashed_engine_axioms
  by (simp_all add: sync_hashes(1)) (simp_all add: sync_node_def)

lemma sync_runs: "\<exists>s'. indexBlock sync_node [(0, 82333, Some sync_block)] [] = Ok s'"
proof -
  obtain header where h: "extractBlockHeader (node_lib sync_node) 0 sync_block = Ok header"
    using readable_extract sync_indexes(3) by blast
  have "check_reorg sync_node header 82333 sync_block [] = Ok (Some [])"
    by (rule check_reorg_keeps [OF sync_engines(2) sync_indexes(5) _ h sync_indexes(2)]) simp
  with h show ?thesis by (simp add: index_one_def sync_block_def Let_def)
qed


end
