(* ===== verification/Electrum.thy ===== *)
theory Electrum
  imports BtcNode
begin

text \<open>
  \<open>pkg/btc/electrum.go\<close>: the client of an Electrum server. Its connection state with the
  reconnection policy, the locking of its read-write mutex, one JSON-RPC call, and the indexing of blocks by
  height. The network, the JSON decoder and the clock are arguments.
\<close>

section \<open>Connection\<close>

record client =
  isConnected :: bool
  has_conn :: bool
  reconnectAttempts :: nat
  reconnect_pending :: bool
  stopChan_closed :: bool
  lastHeight :: int

definition Connect :: "unit outcome \<Rightarrow> client \<Rightarrow> client \<times> go_error option" where
  "Connect dial c =
     (if isConnected c then (c, None)
      else
        (case dial of
           Ok _ \<Rightarrow> (c\<lparr>has_conn := True, isConnected := True\<rparr>, None)
         | Err e \<Rightarrow> (c, Some (Wrapf ''failed to connect to electrum server'' e))
         | Panic _ \<Rightarrow> (c, Some (Errorf ''unreachable''))))"

definition Disconnect :: "go_error option \<Rightarrow> client \<Rightarrow> client \<times> go_error option" where
  "Disconnect close_err c =
     (if \<not> isConnected c then (c, None)
      else if has_conn c then (c\<lparr>has_conn := False, isConnected := False\<rparr>, close_err)
      else (c, None))"

text \<open>
  \<open>time.Duration\<close> is an \<open>int64\<close>: the shift and the product wrap around. Sleeping for a negative duration
  returns at once.
\<close>

definition wrap64 :: "int \<Rightarrow> int" where
  "wrap64 i = signed_take_bit 63 i"

definition reconnect_delay :: "int \<Rightarrow> int \<Rightarrow> nat \<Rightarrow> int" where
  "reconnect_delay baseReconnectDelay maxReconnectDelay attempts =
     (let delay = wrap64 (baseReconnectDelay * wrap64 (2 ^ attempts))
      in if delay > maxReconnectDelay then maxReconnectDelay else delay)"

definition Reconnect :: "int \<Rightarrow> int \<Rightarrow> unit outcome \<Rightarrow> client \<Rightarrow> client \<times> int \<times> go_error option" where
  "Reconnect baseReconnectDelay maxReconnectDelay dial c =
     (let c = (if has_conn c then c\<lparr>has_conn := False, isConnected := False\<rparr> else c);
          delay = reconnect_delay baseReconnectDelay maxReconnectDelay (reconnectAttempts c)
      in case dial of
           Ok _ \<Rightarrow> (c\<lparr>has_conn := True, isConnected := True, reconnectAttempts := 0\<rparr>, delay, None)
         | Err e \<Rightarrow> (c\<lparr>reconnectAttempts := reconnectAttempts c + 1\<rparr>, delay,
                     Some (Wrapf ''failed to reconnect to electrum server'' e))
         | Panic _ \<Rightarrow> (c, delay, Some (Errorf ''unreachable'')))"

text \<open>The send on \<open>reconnectChan\<close> (capacity 1) that is skipped when the channel is full.\<close>

definition trigger_reconnect :: "client \<Rightarrow> client" where
  "trigger_reconnect c = c\<lparr>reconnect_pending := True\<rparr>"

text \<open>One round of \<open>handleReconnection\<close> and of the retry loop of \<open>ConnectWithRetry\<close>.\<close>

definition handle_reconnection :: "int \<Rightarrow> int \<Rightarrow> unit outcome \<Rightarrow> client \<Rightarrow> client" where
  "handle_reconnection baseDelay maxDelay dial c =
     (if reconnect_pending c then fst (Reconnect baseDelay maxDelay dial (c\<lparr>reconnect_pending := False\<rparr>)) else c)"

fun ConnectWithRetry :: "int \<Rightarrow> int \<Rightarrow> unit outcome list \<Rightarrow> client \<Rightarrow> client \<times> int list" where
  "ConnectWithRetry maxRetryInterval retryInterval [] c = (c, [])"
| "ConnectWithRetry maxRetryInterval retryInterval (dial # dials) c =
     (case Connect dial c of
        (c', None) \<Rightarrow> (c', [])
      | (c', Some _) \<Rightarrow>
          let (c'', pauses) = ConnectWithRetry maxRetryInterval
                (if retryInterval < maxRetryInterval then wrap64 (retryInterval * 2) else retryInterval) dials c'
          in (c'', retryInterval # pauses))"

definition Stop :: "go_error option \<Rightarrow> client \<Rightarrow> client outcome" where
  "Stop close_err c =
     (if stopChan_closed c then Panic CloseOfClosedChannel
      else Ok (fst (Disconnect close_err (c\<lparr>stopChan_closed := True\<rparr>))))"

section \<open>Calls\<close>

text \<open>
  \<open>sync.RWMutex\<close>: the state is the number of readers and whether a writer holds the lock. \<^const>\<open>None\<close>
  is a goroutine that blocks: with no other goroutine holding the lock, it blocks forever.
\<close>

datatype lock_op = RLock | RUnlock | Lock | Unlock

fun run_locks :: "lock_op list \<Rightarrow> nat \<times> bool \<Rightarrow> (nat \<times> bool) option" where
  "run_locks [] m = Some m"
| "run_locks (RLock # ops) (r, w) = (if w then None else run_locks ops (r + 1, w))"
| "run_locks (RUnlock # ops) (r, w) = run_locks ops (r - 1, w)"
| "run_locks (Lock # ops) (r, w) = (if w \<or> r > 0 then None else run_locks ops (r, True))"
| "run_locks (Unlock # ops) (r, w) = run_locks ops (r, False)"

text \<open>
  What the network and the JSON package answer during a call. \<open>conn_kept\<close>: the connection is still there when
  the lock is taken again to read; \<open>jr_error\<close> is a non-null \<open>error\<close> member and \<open>jr_result\<close> the \<open>result\<close> member.
\<close>

record json_response =
  jr_error :: "string option"
  jr_result :: "bytes option"

record rpc_env =
  env_marshal :: "bytes outcome"
  env_write_deadline :: "go_error option"
  env_write :: "go_error option"
  env_conn_kept :: bool
  env_read_deadline :: "go_error option"
  env_read :: "bytes outcome"
  env_unmarshal :: "bytes \<Rightarrow> json_response outcome"

text \<open>The result, the client (a failure asks for a reconnection) and the lock operations performed.\<close>

definition callRPCMethod :: "rpc_env \<Rightarrow> client \<Rightarrow> bytes outcome \<times> client \<times> lock_op list" where
  "callRPCMethod env c =
     (if \<not> isConnected c then (Err (Errorf ''not connected to electrum server''), c, [RLock, RUnlock])
      else case env_marshal env of
        Err e \<Rightarrow> (Err (Wrapf ''failed to marshal request'' e), c, [RLock, RUnlock])
      | Panic p \<Rightarrow> (Panic p, c, [RLock, RUnlock])
      | Ok requestBytes \<Rightarrow>
          if \<not> has_conn c then
            (Err (Errorf ''connection is nil''), trigger_reconnect c, [RLock, RUnlock, Lock, Unlock])
          else case env_write_deadline env of
            Some e \<Rightarrow> (Err (Wrapf ''failed to set write deadline'' e), trigger_reconnect c, [RLock, RUnlock, Lock, Unlock])
          | None \<Rightarrow>
              (case env_write env of
                 Some e \<Rightarrow> (Err (Wrapf ''failed to write request'' e), trigger_reconnect c, [RLock, RUnlock, Lock, Unlock])
               | None \<Rightarrow>
                   if \<not> env_conn_kept env then
                     (Panic NilDereference, c, [RLock, RUnlock, Lock, Unlock, Lock])
                   else case env_read_deadline env of
                     Some e \<Rightarrow> (Err (Wrapf ''failed to set read deadline'' e), trigger_reconnect c,
                                [RLock, RUnlock, Lock, Unlock, Lock, Unlock])
                   | None \<Rightarrow>
                       (case env_read env of
                          Err e \<Rightarrow> (Err (Wrapf ''failed to read response'' e), trigger_reconnect c,
                                    [RLock, RUnlock, Lock, Unlock, Lock, Unlock])
                        | Panic p \<Rightarrow> (Panic p, c, [RLock, RUnlock, Lock, Unlock, Lock])
                        | Ok stream \<Rightarrow>
                            (and_then (wrapf ''failed to unmarshal response'' (env_unmarshal env (take 4096 stream)))
                               (\<lambda>r. case jr_error r of
                                  Some _ \<Rightarrow> Err (Errorf ''RPC error'')
                                | None \<Rightarrow> (case jr_result r of
                                    None \<Rightarrow> Err (Errorf ''no result in response'')
                                  | Some result \<Rightarrow> Ok result)),
                             c, [RLock, RUnlock, Lock, Unlock, Lock, Unlock]))))"

definition isConnectionAlive :: "rpc_env \<Rightarrow> client \<Rightarrow> bool \<times> client \<times> lock_op list" where
  "isConnectionAlive env c =
     (if \<not> isConnected c \<or> \<not> has_conn c then (False, c, [RLock, RUnlock])
      else let (r, c', ops) = callRPCMethod env c in (is_ok r, c', RLock # ops @ [RUnlock]))"

definition monitor_tick :: "rpc_env \<Rightarrow> client \<Rightarrow> client \<times> lock_op list" where
  "monitor_tick env c =
     (let (alive, c', ops) = isConnectionAlive env c in (if alive then c' else trigger_reconnect c', ops))"

section \<open>Indexing by height\<close>

text \<open>The decoding of the answers: \<open>chains.HeaderEntry\<close>, \<open>wire.MsgBlock\<close> and JSON values are library code.\<close>

record electrum_lib =
  parse_header :: "bytes \<Rightarrow> btc_block_header outcome"
  parse_string :: "bytes \<Rightarrow> string outcome"
  parse_height :: "bytes \<Rightarrow> int outcome"
  block_txs :: "bytes \<Rightarrow> msg_tx list outcome"

type_synonym rpc = "string \<Rightarrow> int \<Rightarrow> bytes outcome"

definition GetBlockHeader :: "electrum_lib \<Rightarrow> rpc \<Rightarrow> int \<Rightarrow> btc_block_header outcome" where
  "GetBlockHeader el call height =
     and_then (wrapf ''failed to get block header'' (call ''blockchain.block.header'' height)) (\<lambda>result.
     wrapf ''failed to parse header entry'' (parse_header el result))"

definition GetBlockFromElectrum :: "electrum_lib \<Rightarrow> rpc \<Rightarrow> int \<Rightarrow> msg_tx list outcome" where
  "GetBlockFromElectrum el call height =
     and_then (wrapf ''failed to get block'' (call ''blockchain.block.get'' height)) (\<lambda>result.
     and_then (wrapf ''failed to unmarshal block hex'' (parse_string el result)) (\<lambda>blockHex.
     and_then (wrapf ''failed to decode block hex'' (hex_decode blockHex)) (\<lambda>blockBytes.
     wrapf ''failed to deserialize block'' (block_txs el blockBytes))))"

definition GetLatestHeightFromElectrum :: "electrum_lib \<Rightarrow> rpc \<Rightarrow> int outcome" where
  "GetLatestHeightFromElectrum el call =
     and_then (wrapf ''failed to get latest height'' (call ''blockchain.numblocks.subscribe'' 0)) (\<lambda>result.
     wrapf ''failed to unmarshal height'' (parse_height el result))"

fun store_txs ::
  "'s gorm \<Rightarrow> btc_lib \<Rightarrow> btc_config \<Rightarrow> btc_block_header \<Rightarrow> int \<Rightarrow> int \<Rightarrow> msg_tx list \<Rightarrow> 's \<Rightarrow> 's outcome" where
  "store_txs db lib config header height i [] s = Ok s"
| "store_txs db lib config header height i (tx # txs) s =
     (case ParseVaultMsgTx lib config tx i height (bbh_Hash header) (uint (bbh_Time header)) of
        Panic p \<Rightarrow> Panic p
      | Err _ \<Rightarrow> store_txs db lib config header height (i + 1) txs s
      | Ok None \<Rightarrow> store_txs db lib config header height (i + 1) txs s
      | Ok (Some vaultTx) \<Rightarrow>
          store_txs db lib config header height (i + 1) txs
            (fst (StoreVaultTransaction db (vaultTx\<lparr>vt_Timestamp := ucast (bbh_Time header)\<rparr>) s)))"

definition IndexBlockHeader ::
  "'s gorm \<Rightarrow> btc_lib \<Rightarrow> btc_config \<Rightarrow> electrum_lib \<Rightarrow> rpc \<Rightarrow> int \<Rightarrow> 's \<Rightarrow> 's \<times> unit outcome" where
  "IndexBlockHeader db lib config el call height s =
     (case GetBlockHeader el call height of
        Err e \<Rightarrow> (s, Err (Wrapf ''failed to get block header for height'' e))
      | Panic p \<Rightarrow> (s, Panic p)
      | Ok header \<Rightarrow>
          (case CreateBtcBlockHeader db header s of
             (s', Some e) \<Rightarrow> (s', Err (Wrapf ''failed to save block header'' e))
           | (s', None) \<Rightarrow>
               (case GetBlockFromElectrum el call height of
                  Err e \<Rightarrow> (s', Err (Wrapf ''failed to get block for height'' e))
                | Panic p \<Rightarrow> (s', Panic p)
                | Ok txs \<Rightarrow>
                    (case store_txs db lib config header height 0 txs s' of
                       Ok s'' \<Rightarrow> (s'', Ok ())
                     | Err e \<Rightarrow> (s', Err e)
                     | Panic p \<Rightarrow> (s', Panic p)))))"

text \<open>
  The loops over heights. The catch-up goroutine and the live loop of \<open>indexBlockHeaders\<close> run at the same
  time and share \<open>lastHeight\<close>; an event is one step of either. A height that fails is logged, and the loop
  goes on with the next. \<open>ix_tried\<close> records the attempts with their outcome. A cancelled context only stops
  the events.
\<close>

datatype live = Idle | Indexing int int

record indexer =
  ix_lastHeight :: int
  ix_catch_up :: int
  ix_electrumLatest :: int
  ix_live :: live
  ix_tried :: "(int \<times> bool) list"

datatype indexer_event = CatchUp bool | Tick int | Live bool | LiveDone

definition attempt :: "int \<Rightarrow> bool \<Rightarrow> indexer \<Rightarrow> indexer" where
  "attempt h ok st = st\<lparr>ix_tried := ix_tried st @ [(h, ok)], ix_lastHeight := (if ok then h else ix_lastHeight st)\<rparr>"

fun indexer_do :: "indexer_event \<Rightarrow> indexer \<Rightarrow> indexer option" where
  "indexer_do (CatchUp ok) st =
     (if ix_catch_up st \<le> ix_electrumLatest st
      then Some ((attempt (ix_catch_up st) ok st)\<lparr>ix_catch_up := ix_catch_up st + 1\<rparr>) else None)"
| "indexer_do (Tick latestHeight) st =
     (case ix_live st of
        Idle \<Rightarrow> Some (st\<lparr>ix_live := Indexing (ix_lastHeight st + 1) latestHeight\<rparr>)
      | Indexing _ _ \<Rightarrow> None)"
| "indexer_do (Live ok) st =
     (case ix_live st of
        Idle \<Rightarrow> None
      | Indexing h latestHeight \<Rightarrow>
          if h \<le> latestHeight then Some ((attempt h ok st)\<lparr>ix_live := Indexing (h + 1) latestHeight\<rparr>) else None)"
| "indexer_do LiveDone st =
     (case ix_live st of
        Idle \<Rightarrow> None
      | Indexing h latestHeight \<Rightarrow> if h \<le> latestHeight then None else Some (st\<lparr>ix_live := Idle\<rparr>))"

definition indexer_init :: "int \<Rightarrow> int \<Rightarrow> indexer" where
  "indexer_init dbLatest electrumLatest =
     \<lparr>ix_lastHeight = dbLatest, ix_catch_up = dbLatest + 1, ix_electrumLatest = electrumLatest, ix_live = Idle, ix_tried = []\<rparr>"

inductive indexer_run :: "indexer \<Rightarrow> indexer \<Rightarrow> bool" where
  start: "indexer_run st st"
| event: "indexer_run st st' \<Longrightarrow> indexer_do ev st' = Some st'' \<Longrightarrow> indexer_run st st''"

text \<open>\<open>StartElectrumIndexer\<close>: \<open>connected\<close> tells whether the connection comes up within the 30 seconds.\<close>

definition StartElectrumIndexer :: "bool \<Rightarrow> int outcome \<Rightarrow> int outcome \<Rightarrow> indexer outcome" where
  "StartElectrumIndexer connected db_height latest =
     (if \<not> connected then Err (Errorf ''timeout waiting for initial connection to electrum server'')
      else
        and_then (wrapf ''failed to get latest indexed height from DB'' db_height) (\<lambda>dbLatest.
        and_then (wrapf ''failed to get latest height from electrum'' latest) (\<lambda>electrumLatest.
        Ok (indexer_init dbLatest electrumLatest))))"

section \<open>Properties\<close>

lemma wrap64_small: "- (2 ^ 63) \<le> i \<Longrightarrow> i < 2 ^ 63 \<Longrightarrow> wrap64 i = i"
  unfolding wrap64_def by (rule signed_take_bit_int_eq_self)

lemma wrap64_shift_out:
  assumes "64 \<le> n"
  shows "wrap64 (2 ^ n) = 0"
proof -
  have "(2 :: int) ^ n = 2 ^ 64 * 2 ^ (n - 64)" using assms by (metis le_add_diff_inverse power_add)
  then have "take_bit (Suc 63) ((2 :: int) ^ n) = take_bit (Suc 63) 0" by (simp add: take_bit_eq_mod)
  then have "signed_take_bit 63 ((2 :: int) ^ n) = signed_take_bit 63 0"
    by (simp only: signed_take_bit_eq_iff_take_bit_eq)
  then show ?thesis by (simp add: wrap64_def)
qed

text \<open>
  C40: the reconnection delay doubles with each failed attempt up to its maximum as long as the
  product fits in 63 bits, and is zero from the 64th failed attempt on: the client then
  reconnects without any pause.
\<close>

theorem reconnect_delay_correct:
  assumes "1 \<le> base" and "0 \<le> maxDelay"
  shows "(base * 2 ^ n < 2 ^ 63 \<longrightarrow> reconnect_delay base maxDelay n = min (base * 2 ^ n) maxDelay)
    \<and> (64 \<le> n \<longrightarrow> reconnect_delay base maxDelay n = 0)"
proof (intro conjI impI)
  assume p: "base * 2 ^ n < 2 ^ 63"
  have "1 * (2 :: int) ^ n \<le> base * 2 ^ n" using assms(1) by (intro mult_right_mono) simp_all
  with p have "(2 :: int) ^ n < 2 ^ 63" by linarith
  then have "wrap64 (2 ^ n) = 2 ^ n" by (intro wrap64_small) (simp_all add: order_trans [of _ 0])
  moreover have "0 \<le> base * 2 ^ n" using assms(1) by simp
  with p have "wrap64 (base * 2 ^ n) = base * 2 ^ n" by (intro wrap64_small) simp_all
  ultimately show "reconnect_delay base maxDelay n = min (base * 2 ^ n) maxDelay"
    by (auto simp: reconnect_delay_def Let_def)
next
  assume "64 \<le> n"
  then show "reconnect_delay base maxDelay n = 0"
    using assms(2) wrap64_small [of 0] by (simp add: reconnect_delay_def wrap64_shift_out)
qed

theorem reconnect_delay_correct_witness:
  "reconnect_delay 5000000000 120000000000 3 = 40000000000 \<and> reconnect_delay 5000000000 120000000000 64 = 0"
  using reconnect_delay_correct [of 5000000000 120000000000 3] reconnect_delay_correct [of 5000000000 120000000000 64]
  by simp

text \<open>
  The health check blocks itself. On a connected client it asks for the write lock while it
  holds the read lock, and no other goroutine can release it; a call made on its own
  releases all it takes.
\<close>

theorem isConnectionAlive_deadlocks:
  assumes "isConnected c" and "has_conn c" and "env_marshal env = Ok request"
  shows "run_locks (snd (snd (isConnectionAlive env c))) (0, False) = None
    \<and> (is_panic (fst (callRPCMethod env c)) \<or> run_locks (snd (snd (callRPCMethod env c))) (0, False) = Some (0, False))"
  using assms
  by (auto simp: isConnectionAlive_def callRPCMethod_def split: option.splits outcome.splits)

definition example_client :: client where
  "example_client = \<lparr>isConnected = True, has_conn = True, reconnectAttempts = 0, reconnect_pending = False,
     stopChan_closed = False, lastHeight = 0\<rparr>"

definition example_env :: rpc_env where
  "example_env = \<lparr>env_marshal = Ok [1], env_write_deadline = None, env_write = None, env_conn_kept = True,
     env_read_deadline = None, env_read = Ok [2], env_unmarshal = (\<lambda>b. Ok \<lparr>jr_error = None, jr_result = Some b\<rparr>)\<rparr>"

theorem isConnectionAlive_deadlocks_witness:
  "run_locks (snd (snd (isConnectionAlive example_env example_client))) (0, False) = None
    \<and> run_locks (snd (snd (callRPCMethod example_env example_client))) (0, False) = Some (0, False)"
  using isConnectionAlive_deadlocks [of example_client example_env "[1]"]
  by (simp add: example_client_def example_env_def callRPCMethod_def)

lemma attempt_sel [simp]:
  "ix_tried (attempt h ok st) = ix_tried st @ [(h, ok)]"
  "ix_lastHeight (attempt h ok st) = (if ok then h else ix_lastHeight st)"
  "ix_catch_up (attempt h ok st) = ix_catch_up st" "ix_electrumLatest (attempt h ok st) = ix_electrumLatest st"
  "ix_live (attempt h ok st) = ix_live st"
  by (simp_all add: attempt_def)

text \<open>In every interleaving, the catch-up tries all the heights it has passed, and nothing at or below the starting height is tried.\<close>

definition indexer_inv :: "int \<Rightarrow> indexer \<Rightarrow> bool" where
  "indexer_inv dbLatest st \<longleftrightarrow>
     (ix_lastHeight st = dbLatest \<or> (ix_lastHeight st, True) \<in> set (ix_tried st))
   \<and> dbLatest \<le> ix_lastHeight st \<and> dbLatest < ix_catch_up st
   \<and> (\<forall>h to. ix_live st = Indexing h to \<longrightarrow> dbLatest < h)
   \<and> (\<forall>h. dbLatest < h \<and> h < ix_catch_up st \<longrightarrow> h \<in> fst ` set (ix_tried st))
   \<and> (\<forall>a \<in> set (ix_tried st). dbLatest < fst a)"

lemma indexer_inv_do:
  assumes "indexer_inv dbLatest st" and "indexer_do ev st = Some st'"
  shows "indexer_inv dbLatest st'"
  using assms
proof (cases ev)
  case (CatchUp ok)
  with assms show ?thesis 
    by (auto simp: indexer_inv_def split: if_splits) (metis le_less)+
qed (auto simp: indexer_inv_def split: live.splits if_splits)

lemma indexer_inv_run: "indexer_run st st' \<Longrightarrow> indexer_inv dbLatest st \<Longrightarrow> indexer_inv dbLatest st'"
  by (induction rule: indexer_run.induct) (auto intro: indexer_inv_do)

lemma indexer_inv_init: "indexer_inv dbLatest (indexer_init dbLatest tip)"
  by (auto simp: indexer_inv_def indexer_init_def)

text \<open>Once the catch-up is over, the live loop only moves up.\<close>

definition past :: "int \<Rightarrow> (int \<times> bool) list \<Rightarrow> indexer \<Rightarrow> bool" where
  "past h tried st \<longleftrightarrow>
     ix_electrumLatest st < ix_catch_up st \<and> h \<le> ix_lastHeight st
   \<and> (\<forall>k to. ix_live st = Indexing k to \<longrightarrow> h < k)
   \<and> filter (\<lambda>a. fst a = h) (ix_tried st) = tried"

lemma past_do: "past h tried st \<Longrightarrow> indexer_do ev st = Some st' \<Longrightarrow> past h tried st'"
  by (cases ev) (auto simp: past_def split: live.splits if_splits)

lemma past_run: "indexer_run st st' \<Longrightarrow> past h tried st \<Longrightarrow> past h tried st'"
  by (induction rule: indexer_run.induct) (auto intro: past_do)


definition example_missed :: indexer where
  "example_missed = \<lparr>ix_lastHeight = 12, ix_catch_up = 13, ix_electrumLatest = 12, ix_live = Idle,
     ix_tried = [(11, False), (12, True)]\<rparr>"

lemma example_missed_run: "indexer_run (indexer_init 10 12) example_missed"
proof -
  let ?s0 = "indexer_init 10 12"
  let ?s1 = "?s0\<lparr>ix_tried := [(11, False)], ix_catch_up := 12\<rparr>"
  have 1: "indexer_do (CatchUp False) ?s0 = Some ?s1" by (simp add: indexer_init_def attempt_def)
  have 2: "indexer_do (CatchUp True) ?s1 = Some example_missed"
    by (simp add: indexer_init_def attempt_def example_missed_def)
  show ?thesis by (rule indexer_run.event [OF indexer_run.event [OF indexer_run.start 1] 2])
qed


end
