(* ===== verification/GatewayEvents.thy ===== *)
theory GatewayEvents
  imports Models ChainInfo
begin

text \<open>
  \<open>pkg/evm/parser\<close>: the gateway contract's events (\<open>contracts/generated/gateway.go\<close>), the
  payload of a call with token (\<open>payload.go\<close>), the Bitcoin fee options, and the conversion of
  each event into the row that is stored (\<open>converter.go\<close>). A converter that returns \<open>nil\<close>
  is \<open>Ok None\<close>; a failed index, slice or type assertion is a panic.
\<close>

section \<open>Model\<close>

subsection \<open>Event structs\<close>

record ContractCall_ev =
  CC_Sender :: address
  CC_DestinationChain :: string
  CC_DestinationContractAddress :: string
  CC_PayloadHash :: hash32
  CC_Payload :: bytes
  CC_Raw :: eth_log

record ContractCallApproved_ev =
  CCA_CommandId :: hash32
  CCA_SourceChain :: string
  CCA_SourceAddress :: string
  CCA_ContractAddress :: address
  CCA_PayloadHash :: hash32
  CCA_SourceTxHash :: hash32
  CCA_SourceEventIndex :: "int option"
  CCA_Raw :: eth_log

record ContractCallWithToken_ev =
  CCT_Sender :: address
  CCT_DestinationChain :: string
  CCT_DestinationContractAddress :: string
  CCT_PayloadHash :: hash32
  CCT_Payload :: bytes
  CCT_Symbol :: string
  CCT_Amount :: "int option"
  CCT_Raw :: eth_log

record Executed_ev =
  EX_CommandId :: hash32
  EX_Raw :: eth_log

record RedeemToken_ev =
  RT_Sender :: address
  RT_Sequence :: u64
  RT_CustodianGroupUID :: hash32
  RT_DestinationChain :: string
  RT_DestinationContractAddress :: string
  RT_PayloadHash :: hash32
  RT_Payload :: bytes
  RT_Symbol :: string
  RT_Amount :: "int option"
  RT_Raw :: eth_log

record SwitchPhase_ev =
  SP_CustodianGroupId :: hash32
  SP_Sequence :: u64
  SP_From :: u8
  SP_To :: u8
  SP_Raw :: eth_log

record TokenDeployed_ev =
  TD_Symbol :: string
  TD_TokenAddresses :: address
  TD_Raw :: eth_log

record TokenSent_ev =
  TS_Sender :: address
  TS_DestinationChain :: string
  TS_DestinationAddress :: string
  TS_Symbol :: string
  TS_Amount :: "int option"
  TS_Raw :: eth_log

text \<open>\<open>*big.Int\<close> fields are \<open>None\<close> for the nil pointer. \<open>ValidEvmEvent\<close>, the union of the structs:\<close>

datatype valid_evm_event =
    ContractCallApproved_E ContractCallApproved_ev
  | ContractCall_E ContractCall_ev
  | ContractCallWithToken_E ContractCallWithToken_ev
  | RedeemToken_E RedeemToken_ev
  | Executed_E Executed_ev
  | TokenSent_E TokenSent_ev
  | SwitchPhase_E SwitchPhase_ev
  | TokenDeployed_E TokenDeployed_ev

text \<open>
  What the code calls of go-ethereum, btcd's \<open>psbt\<close> and the \<open>bitcoin-vault\<close> package:
  \<open>UnpackIntoInterface event name data\<close> fills the non-indexed fields of an event,
  \<open>Arguments_Unpack\<close> decodes a buffer at a list of argument types, \<open>Arguments_Copy\<close> writes
  decoded values into the event's fields, \<open>GetChainParamsByID\<close> gives the network's name,
  \<open>ScriptPubKeyToAddress\<close> the encoded address of a script and \<open>NewFromRawBytes\<close> the outputs
  of a PSBT's unsigned transaction.
\<close>

record eth_lib =
  Address_String :: "address \<Rightarrow> string"
  EHash_String :: "hash32 \<Rightarrow> string"
  UnpackIntoInterface :: "valid_evm_event \<Rightarrow> string \<Rightarrow> bytes \<Rightarrow> valid_evm_event outcome"
  Arguments_Unpack :: "abi_argument list \<Rightarrow> bytes \<Rightarrow> abi_value list outcome"
  Arguments_Copy :: "abi_argument list \<Rightarrow> valid_evm_event \<Rightarrow> abi_value list \<Rightarrow> valid_evm_event"
  NewType :: "string \<Rightarrow> go_error option"
  GetChainParamsByID :: "u64 \<Rightarrow> string option"
  ScriptPubKeyToAddress :: "bytes \<Rightarrow> string \<Rightarrow> string outcome"
  NewFromRawBytes :: "bytes \<Rightarrow> tx_out list outcome"

text \<open>Documented behaviour of go-ethereum: a hash prints as \<open>0x\<close> and lower-case hex, an address
  as a mixed-case checksum whose lower-case form is that.\<close>

definition eth_strings :: "eth_lib \<Rightarrow> bool" where
  "eth_strings lib \<longleftrightarrow> (\<forall>h. EHash_String lib h = ''0x'' @ hex_encode h)
     \<and> (\<forall>a. ToLower (Address_String lib a) = ''0x'' @ hex_encode a)"

subsection \<open>Fee options\<close>

definition BTCFeeOpts_name :: "int \<Rightarrow> string option" where
  "BTCFeeOpts_name = [0 \<mapsto> ''MINIMUM_FEE'', 1 \<mapsto> ''ECONOMY_FEE'', 2 \<mapsto> ''HOUR_FEE'',
     3 \<mapsto> ''HALF_HOUR_FEE'', 4 \<mapsto> ''FASTEST_FEE'']"

definition BTCFeeOpts_value :: "string \<Rightarrow> int option" where
  "BTCFeeOpts_value = [''MINIMUM_FEE'' \<mapsto> 0, ''ECONOMY_FEE'' \<mapsto> 1, ''HOUR_FEE'' \<mapsto> 2,
     ''HALF_HOUR_FEE'' \<mapsto> 3, ''FASTEST_FEE'' \<mapsto> 4]"

definition BTCFeeOpts_String :: "int \<Rightarrow> string" where
  "BTCFeeOpts_String x = (case BTCFeeOpts_name x of Some s \<Rightarrow> s | None \<Rightarrow> [])"

subsection \<open>Payloads\<close>

definition PayloadType_CustodianOnly :: u8 where "PayloadType_CustodianOnly = 0"
definition PayloadType_UPC :: u8 where "PayloadType_UPC = 1"

definition FromByte :: "byte \<Rightarrow> u8" where "FromByte b = b"

record custodian_only =
  FeeOptions :: int
  RBF :: bool
  RecipientChainIdentifier :: bytes
  CO_Amount :: u64
  TxIds :: "string list"
  Vouts :: "u32 list"
  Amounts :: "u64 list"
  ReqId :: bytes

record payload =
  PayloadType :: u8
  CustodianOnly :: "custodian_only option"
  UPC :: "bytes option"

definition empty_payload :: payload where
  "empty_payload = \<lparr>PayloadType = 0, CustodianOnly = None, UPC = None\<rparr>"

text \<open>The argument list \<open>abi.ContractCallWithTokenCustodianOnly\<close> of \<open>abi/abi.go\<close>.\<close>

definition arg :: "string \<Rightarrow> abi_argument" where
  "arg t = \<lparr>Arg_Name = [], Arg_Type = t, Arg_Indexed = False\<rparr>"

definition ContractCallWithTokenUPC :: "abi_argument list" where
  "ContractCallWithTokenUPC = [arg ''bytes'']"

definition ContractCallWithTokenCustodianOnly :: "abi_argument list" where
  "ContractCallWithTokenCustodianOnly =
     [arg ''uint64'', arg ''bytes'', arg ''string[]'', arg ''uint32[]'', arg ''uint64[]'', arg ''bytes32'']"

text \<open>Type assertions on a decoded value.\<close>

fun as_bytes :: "abi_value \<Rightarrow> bytes outcome" where
  "as_bytes (VBytes b) = Ok b" | "as_bytes _ = Panic TypeAssertion"
fun as_bytes32 :: "abi_value \<Rightarrow> bytes outcome" where
  "as_bytes32 (VBytes32 b) = Ok b" | "as_bytes32 _ = Panic TypeAssertion"
fun as_uint64 :: "abi_value \<Rightarrow> u64 outcome" where
  "as_uint64 (VUint64 w) = Ok w" | "as_uint64 _ = Panic TypeAssertion"
fun as_strings :: "abi_value \<Rightarrow> string list outcome" where
  "as_strings (VStrings s) = Ok s" | "as_strings _ = Panic TypeAssertion"
fun as_uint32s :: "abi_value \<Rightarrow> u32 list outcome" where
  "as_uint32s (VUint32s s) = Ok s" | "as_uint32s _ = Panic TypeAssertion"
fun as_uint64s :: "abi_value \<Rightarrow> u64 list outcome" where
  "as_uint64s (VUint64s s) = Ok s" | "as_uint64s _ = Panic TypeAssertion"

definition decoded_at :: "abi_value list \<Rightarrow> nat \<Rightarrow> (abi_value \<Rightarrow> 'a outcome) \<Rightarrow> 'a outcome" where
  "decoded_at vs i as = and_then (index_at vs i) as"

definition CustodianOnly_Parse :: "eth_lib \<Rightarrow> bytes \<Rightarrow> custodian_only outcome" where
  "CustodianOnly_Parse lib payload =
     and_then (Arguments_Unpack lib ContractCallWithTokenCustodianOnly payload) (\<lambda>decoded.
     and_then (decoded_at decoded 1 as_bytes) (\<lambda>lockingScript.
     and_then (decoded_at decoded 0 as_uint64) (\<lambda>amount.
     and_then (decoded_at decoded 2 as_strings) (\<lambda>txIds.
     and_then (decoded_at decoded 3 as_uint32s) (\<lambda>vouts.
     and_then (decoded_at decoded 4 as_uint64s) (\<lambda>amounts.
     and_then (decoded_at decoded 5 as_bytes32) (\<lambda>reqId.
     Ok \<lparr>FeeOptions = 0, RBF = False, RecipientChainIdentifier = lockingScript,
         CO_Amount = amount, TxIds = txIds, Vouts = vouts, Amounts = amounts, ReqId = reqId\<rparr>)))))))"

definition UPC_Parse :: "bytes \<Rightarrow> bytes outcome" where
  "UPC_Parse payload = Ok payload"

text \<open>\<open>Parse\<close> never stores the payload type: \<open>PayloadType\<close> keeps its zero value.\<close>

definition Payload_Parse :: "eth_lib \<Rightarrow> bytes \<Rightarrow> payload outcome" where
  "Payload_Parse lib payload =
     and_then (index_at payload 0) (\<lambda>b.
     let payloadType = FromByte b in
     if payloadType = PayloadType_CustodianOnly then
       and_then (sub_slice payload 1 (length payload)) (\<lambda>rest.
       and_then (CustodianOnly_Parse lib rest) (\<lambda>c.
       Ok (empty_payload\<lparr>CustodianOnly := Some c\<rparr>)))
     else if payloadType = PayloadType_UPC then
       and_then (sub_slice payload 1 (length payload)) (\<lambda>rest.
       and_then (UPC_Parse rest) (\<lambda>u.
       Ok (empty_payload\<lparr>UPC := Some u\<rparr>)))
     else Err (Errorf ''invalid payload type''))"

definition GetDestinationAddress :: "eth_lib \<Rightarrow> payload \<Rightarrow> u64 \<Rightarrow> string outcome" where
  "GetDestinationAddress lib p chainId =
     (case GetChainParamsByID lib chainId of
        None \<Rightarrow> Err (Errorf ''invalid destination chain'')
      | Some name \<Rightarrow>
          (case CustodianOnly p of
             Some c \<Rightarrow>
               wrapf ''failed to convert script pubkey to address with params name''
                 (ScriptPubKeyToAddress lib (RecipientChainIdentifier c) name)
           | None \<Rightarrow>
               (case UPC p of
                  Some psbt \<Rightarrow>
                    if 0 < length psbt then
                      and_then (wrapf ''failed to create psbt packet'' (NewFromRawBytes lib psbt))
                        (\<lambda>outs.
                      and_then (index_at outs 1) (\<lambda>out.
                      wrapf ''failed to convert script pubkey to address''
                        (ScriptPubKeyToAddress lib (PkScript out) name)))
                    else Err (Errorf ''invalid payload'')
                | None \<Rightarrow> Err (Errorf ''invalid payload''))))"

subsection \<open>Converters\<close>

text \<open>\<open>fmt.Sprintf("%d", x)\<close> of a \<open>*big.Int\<close>, and \<open>x.Uint64()\<close>, which panics on nil.\<close>

definition BigInt_Format :: "int option \<Rightarrow> string" where
  "BigInt_Format x = (case x of None \<Rightarrow> ''<nil>''
     | Some i \<Rightarrow> if i < 0 then CHR ''-'' # decimal (nat (- i)) else decimal (nat i))"

definition ptr_Uint64 :: "int option \<Rightarrow> u64 outcome" where
  "ptr_Uint64 x = (case x of None \<Rightarrow> Panic NilDereference | Some i \<Rightarrow> Ok (BigInt_Uint64 i))"

text \<open>\<open>fmt.Sprintf("%s-%d", utils.NormalizeHash(raw.TxHash.String()), raw.Index)\<close>, which four
  converters compute.\<close>

definition event_id :: "eth_lib \<Rightarrow> eth_log \<Rightarrow> string" where
  "event_id lib raw =
     NormalizeHash (EHash_String lib (Log_TxHash raw)) @ ''-'' @ decimal (unat (Log_Index raw))"

definition ContractCallEvent2Model :: "eth_lib \<Rightarrow> string \<Rightarrow> ContractCall_ev \<Rightarrow> contract_call" where
  "ContractCallEvent2Model lib sourceChain event =
     (let eventId = event_id lib (CC_Raw event);
          senderAddress = Address_String lib (CC_Sender event)
      in \<lparr>cc_EventID = eventId,
          cc_TxHash = EHash_String lib (Log_TxHash (CC_Raw event)),
          cc_BlockNumber = Log_BlockNumber (CC_Raw event),
          cc_LogIndex = Log_Index (CC_Raw event),
          cc_SourceChain = sourceChain,
          cc_DestinationChain = CC_DestinationChain event,
          cc_DestinationAddress = [],
          cc_SourceAddress = ToLower senderAddress,
          cc_PayloadHash = NormalizeHash (hex_encode (CC_PayloadHash event)),
          cc_Payload = CC_Payload event,
          cc_Status = ContractCallStatusUnset,
          cc_ExecuteHash = []\<rparr>)"

definition ContractCallApprovedEvent2Model ::
  "eth_lib \<Rightarrow> string \<Rightarrow> ContractCallApproved_ev \<Rightarrow> contract_call_approved" where
  "ContractCallApprovedEvent2Model lib sourceChain event =
     (let txHash = EHash_String lib (Log_TxHash (CCA_Raw event));
          eventId = ToLower (txHash @ ''-'' @ BigInt_Format (CCA_SourceEventIndex event) @ ''-''
                     @ decimal (unat (Log_Index (CCA_Raw event))));
          sourceEventIndex = (case CCA_SourceEventIndex event of
              Some i \<Rightarrow> if BigInt_IsUint64 i then BigInt_Uint64 i else 0
            | None \<Rightarrow> 0)
      in \<lparr>cca_EventID = eventId,
          cca_SourceChain = CCA_SourceChain event,
          cca_DestinationChain = sourceChain,
          cca_TxHash = ToLower txHash,
          cca_CommandID = hex_encode (CCA_CommandId event),
          cca_Sender = ToLower (CCA_SourceAddress event),
          cca_ContractAddress = ToLower (Address_String lib (CCA_ContractAddress event)),
          cca_PayloadHash = ToLower (hex_encode (CCA_PayloadHash event)),
          cca_SourceTxHash = ToLower (hex_encode (CCA_SourceTxHash event)),
          cca_SourceEventIndex = sourceEventIndex\<rparr>)"

text \<open>An error inside a converter is logged and the converter returns nil.\<close>

fun or_nil :: "'a outcome \<Rightarrow> ('a \<Rightarrow> 'b option outcome) \<Rightarrow> 'b option outcome" where
  "or_nil (Ok a) k = k a"
| "or_nil (Err _) k = Ok None"
| "or_nil (Panic p) k = Panic p"

definition ContractCallWithTokenEvent2Model ::
  "eth_lib \<Rightarrow> string \<Rightarrow> ContractCallWithToken_ev \<Rightarrow> contract_call_with_token option outcome" where
  "ContractCallWithTokenEvent2Model lib sourceChain event =
     (let eventId = event_id lib (CCT_Raw event);
          senderAddress = Address_String lib (CCT_Sender event)
      in or_nil (ChainInfoBytes_FromString (CCT_DestinationChain event)) (\<lambda>chainInfoBytes.
         let chainType = ChainInfoBytes_ChainType chainInfoBytes in
         if chainType \<noteq> ChainTypeBitcoin then Ok None
         else
           or_nil (Payload_Parse lib (CCT_Payload event)) (\<lambda>payload.
           or_nil (GetDestinationAddress lib payload (ChainInfoBytes_ChainID chainInfoBytes))
             (\<lambda>destinationAddress.
           let callContract =
             \<lparr>cc_EventID = eventId,
              cc_TxHash = NormalizeHash (EHash_String lib (Log_TxHash (CCT_Raw event))),
              cc_BlockNumber = Log_BlockNumber (CCT_Raw event),
              cc_LogIndex = Log_Index (CCT_Raw event),
              cc_SourceChain = sourceChain,
              cc_DestinationChain = CCT_DestinationChain event,
              cc_DestinationAddress = NormalizeAddress destinationAddress chainType,
              cc_SourceAddress = NormalizeAddress senderAddress chainType,
              cc_PayloadHash = NormalizeHash (hex_encode (CCT_PayloadHash event)),
              cc_Payload = CCT_Payload event,
              cc_Status = ContractCallStatusUnset,
              cc_ExecuteHash = []\<rparr>
           in and_then (ptr_Uint64 (CCT_Amount event)) (\<lambda>amount.
              Ok (Some
                \<lparr>ccwt_ContractCall = callContract,
                 ccwt_TokenContractAddress =
                   NormalizeAddress (CCT_DestinationContractAddress event) chainType,
                 ccwt_Symbol = CCT_Symbol event,
                 ccwt_Amount = amount\<rparr>))))))"

definition CommandExecutedEvent2Model :: "eth_lib \<Rightarrow> string \<Rightarrow> Executed_ev \<Rightarrow> command_executed" where
  "CommandExecutedEvent2Model lib sourceChain event =
     \<lparr>ce_SourceChain = sourceChain,
      ce_Address = Address_String lib (Log_Address (EX_Raw event)),
      ce_TxHash = ToLower (EHash_String lib (Log_TxHash (EX_Raw event))),
      ce_BlockNumber = Log_BlockNumber (EX_Raw event),
      ce_LogIndex = Log_Index (EX_Raw event),
      ce_CommandID = hex_encode (EX_CommandId event)\<rparr>"

definition TokenDeployedEvent2Model :: "eth_lib \<Rightarrow> string \<Rightarrow> TokenDeployed_ev \<Rightarrow> token_deployed" where
  "TokenDeployedEvent2Model lib sourceChain event =
     \<lparr>td_SourceChain = sourceChain,
      td_BlockNumber = Log_BlockNumber (TD_Raw event),
      td_TxHash = EHash_String lib (Log_TxHash (TD_Raw event)),
      td_Symbol = TD_Symbol event,
      td_TokenAddress = Address_String lib (TD_TokenAddresses event)\<rparr>"

definition SwitchPhaseEvent2Model :: "eth_lib \<Rightarrow> string \<Rightarrow> SwitchPhase_ev \<Rightarrow> switched_phase" where
  "SwitchPhaseEvent2Model lib sourceChain event =
     \<lparr>sp_SourceChain = sourceChain,
      sp_BlockNumber = Log_BlockNumber (SP_Raw event),
      sp_TxHash = EHash_String lib (Log_TxHash (SP_Raw event)),
      sp_CustodianGroupUid = hex_encode (SP_CustodianGroupId event),
      sp_SessionSequence = SP_Sequence event,
      sp_From = SP_From event,
      sp_To = SP_To event\<rparr>"

definition TokenSentEvent2Model :: "eth_lib \<Rightarrow> string \<Rightarrow> TokenSent_ev \<Rightarrow> token_sent outcome" where
  "TokenSentEvent2Model lib sourceChain event =
     (let normalizedTxHash = NormalizeHash (EHash_String lib (Log_TxHash (TS_Raw event)));
          eventId = event_id lib (TS_Raw event);
          senderAddress = Address_String lib (TS_Sender event)
      in and_then (ptr_Uint64 (TS_Amount event)) (\<lambda>amount.
         Ok \<lparr>ts_EventID = eventId,
             ts_SourceChain = sourceChain,
             ts_TxHash = normalizedTxHash,
             ts_BlockNumber = Log_BlockNumber (TS_Raw event),
             ts_LogIndex = Log_Index (TS_Raw event),
             ts_SourceAddress = ToLower senderAddress,
             ts_DestinationChain = TS_DestinationChain event,
             ts_DestinationAddress = ToLower (TS_DestinationAddress event),
             ts_Symbol = TS_Symbol event,
             ts_Amount = amount,
             ts_Status = TokenSentStatusPending\<rparr>))"

definition RedeemTokenEvent2Model ::
  "eth_lib \<Rightarrow> string \<Rightarrow> RedeemToken_ev \<Rightarrow> evm_redeem_tx option outcome" where
  "RedeemTokenEvent2Model lib sourceChain event =
     (let eventId = event_id lib (RT_Raw event);
          senderAddress = Address_String lib (RT_Sender event)
      in or_nil (ChainInfoBytes_FromString (RT_DestinationChain event)) (\<lambda>chainInfoBytes.
         or_nil (Payload_Parse lib (RT_Payload event)) (\<lambda>payload.
         or_nil (GetDestinationAddress lib payload (ChainInfoBytes_ChainID chainInfoBytes))
           (\<lambda>destinationAddress.
         and_then (ptr_Uint64 (RT_Amount event)) (\<lambda>amount.
         Ok (Some
           \<lparr>er_EventID = eventId,
            er_TxHash = EHash_String lib (Log_TxHash (RT_Raw event)),
            er_BlockNumber = Log_BlockNumber (RT_Raw event),
            er_LogIndex = Log_Index (RT_Raw event),
            er_SourceChain = sourceChain,
            er_SourceAddress = senderAddress,
            er_DestinationChain = RT_DestinationChain event,
            er_DestinationAddress = destinationAddress,
            er_Payload = RT_Payload event,
            er_PayloadHash = hex_encode (RT_PayloadHash event),
            er_TokenContractAddress = RT_DestinationContractAddress event,
            er_Symbol = RT_Symbol event,
            er_Amount = amount,
            er_CustodianGroupUid = hex_encode (RT_CustodianGroupUID event),
            er_SessionSequence = RT_Sequence event\<rparr>))))))"

section \<open>Event ids\<close>

lemma event_id_eq:
  "eth_strings lib \<Longrightarrow> event_id lib raw = hex_encode (Log_TxHash raw) @ CHR ''-'' # decimal (unat (Log_Index raw))"
  using NormalizeHash_0x by (simp add: event_id_def eth_strings_def)

lemma event_id_inj:
  assumes "eth_strings lib"
  shows "event_id lib a = event_id lib b
    \<longleftrightarrow> Log_TxHash a = Log_TxHash b \<and> Log_Index a = Log_Index b" (is "?l \<longleftrightarrow> ?r")
proof
  assume ?l
  then have "Split CHR ''-'' (event_id lib a) = Split CHR ''-'' (event_id lib b)" by simp
  then have "hex_encode (Log_TxHash a) = hex_encode (Log_TxHash b)"
    "decimal (unat (Log_Index a)) = decimal (unat (Log_Index b))"
    using assms hex_encode_no_dash decimal_no_dash
    by (simp_all add: event_id_eq Split_append Split_fresh)
  then show ?r using hex_encode_inj decimal_inj word_unat_eq_iff by blast
qed (simp add: event_id_def)

lemma ptr_Uint64_Ok: "ptr_Uint64 x = Ok w \<longleftrightarrow> (\<exists>i. x = Some i \<and> w = BigInt_Uint64 i)"
  by (auto simp: ptr_Uint64_def split: option.splits)

text \<open>
  C28: the event id of a token transfer identifies the log. Two converted transfers have the
  same event id, and so conflict in the database, exactly when they come from the same
  transaction and log index.
\<close>

theorem TokenSent_event_id:
  assumes "eth_strings lib"
    and "TokenSentEvent2Model lib c e = Ok t" and "TokenSentEvent2Model lib c' e' = Ok t'"
  shows "ts_EventID t = ts_EventID t' \<longleftrightarrow>
    Log_TxHash (TS_Raw e) = Log_TxHash (TS_Raw e') \<and> Log_Index (TS_Raw e) = Log_Index (TS_Raw e')"
  using assms event_id_inj [OF assms(1)]
  by (auto simp: TokenSentEvent2Model_def Let_def and_then_Ok_iff)

section \<open>Calls with token\<close>

lemma or_nil_Some: "or_nil m k = Ok (Some y) \<longleftrightarrow> (\<exists>x. m = Ok x \<and> k x = Ok (Some y))"
  by (cases m) auto

lemma or_nil_panic: "is_panic (or_nil m k) \<longleftrightarrow> is_panic m \<or> (\<exists>x. m = Ok x \<and> is_panic (k x))"
  by (cases m) auto

text \<open>
  A call with token is stored only for a Bitcoin destination, and then the sender keeps
  the mixed-case spelling of its address and the amount is taken modulo \<open>2 ^ 64\<close>.
\<close>

theorem ContractCallWithToken_stored:
  assumes "ContractCallWithTokenEvent2Model lib sourceChain event = Ok (Some m)"
  shows "\<exists>c amount. ChainInfoBytes_FromString (CCT_DestinationChain event) = Ok c
    \<and> ChainInfoBytes_ChainType c = ChainTypeBitcoin \<and> CCT_Amount event = Some amount
    \<and> cc_SourceAddress (ccwt_ContractCall m) = Address_String lib (CCT_Sender event)
    \<and> uint (ccwt_Amount m) = \<bar>amount\<bar> mod 2 ^ 64"
  using assms
  by (auto simp: ContractCallWithTokenEvent2Model_def Let_def or_nil_Some and_then_Ok_iff ptr_Uint64_Ok
      NormalizeAddress_def ChainTypeBitcoin_def ChainTypeEVM_def BigInt_Uint64_def uint_word_of_int
      split: if_splits)

text \<open>
  What the decoders promise: they do not panic, and unpacking at a list of ABI types
  yields values of those types.
\<close>

definition eth_total :: "eth_lib \<Rightarrow> bool" where
  "eth_total lib \<longleftrightarrow>
     (\<forall>d. case Arguments_Unpack lib ContractCallWithTokenCustodianOnly d of
        Ok vs \<Rightarrow> \<exists>a s t v w r. vs = [VUint64 a, VBytes s, VStrings t, VUint32s v, VUint64s w, VBytes32 r]
      | Err _ \<Rightarrow> True | Panic _ \<Rightarrow> False)
   \<and> (\<forall>d. \<not> is_panic (NewFromRawBytes lib d))
   \<and> (\<forall>s n. \<not> is_panic (ScriptPubKeyToAddress lib s n))"

lemma index_at_panic: "is_panic (index_at xs i) \<longleftrightarrow> length xs \<le> i"
  by (auto simp: index_at_def)

lemma CustodianOnly_Parse_no_panic: "eth_total lib \<Longrightarrow> \<not> is_panic (CustodianOnly_Parse lib d)"
  by (cases "Arguments_Unpack lib ContractCallWithTokenCustodianOnly d")
    (force simp: eth_total_def CustodianOnly_Parse_def decoded_at_def index_at_def
      dest: spec [of _ d])+

lemma Payload_Parse_panic: "eth_total lib \<Longrightarrow> is_panic (Payload_Parse lib p) \<longleftrightarrow> p = []"
  using CustodianOnly_Parse_no_panic [of lib "tl p"]
  by (cases p) (auto simp: Payload_Parse_def index_at_def sub_slice_def Let_def UPC_Parse_def and_then_is_panic)

lemma Payload_dest_panic:
  assumes "eth_total lib"
  shows "(\<exists>p. Payload_Parse lib b = Ok p \<and> is_panic (GetDestinationAddress lib p cid)) \<longleftrightarrow>
      (\<exists>d name outs. b = PayloadType_UPC # d \<and> d \<noteq> [] \<and> GetChainParamsByID lib cid = Some name
         \<and> NewFromRawBytes lib d = Ok outs \<and> length outs < 2)"
proof -
  have s: "\<not> is_panic (ScriptPubKeyToAddress lib x n)" "\<not> is_panic (NewFromRawBytes lib y)" for x n y
    using assms by (simp_all add: eth_total_def)
  have c: "CustodianOnly p = Some co \<Longrightarrow> \<not> is_panic (GetDestinationAddress lib p cid)" for p co
    using s by (simp add: GetDestinationAddress_def wrapf_is_panic split: option.splits)
  have u: "is_panic (GetDestinationAddress lib (empty_payload\<lparr>UPC := Some d\<rparr>) cid) \<longleftrightarrow>
      (\<exists>name outs. d \<noteq> [] \<and> GetChainParamsByID lib cid = Some name
         \<and> NewFromRawBytes lib d = Ok outs \<and> length outs < 2)" for d
    using s by (auto simp: GetDestinationAddress_def empty_payload_def wrapf_is_panic and_then_is_panic
        wrapf_Ok_iff index_at_panic less_Suc_eq_le numeral_2_eq_2 split: option.splits)
  show ?thesis
  proof (cases b)
    case Nil
    then show ?thesis by (simp add: Payload_Parse_def index_at_def)
  next
    case (Cons t d)
    have "Payload_Parse lib b = (if t = PayloadType_CustodianOnly
        then and_then (CustodianOnly_Parse lib d) (\<lambda>c. Ok (empty_payload\<lparr>CustodianOnly := Some c\<rparr>))
        else if t = PayloadType_UPC then Ok (empty_payload\<lparr>UPC := Some d\<rparr>)
        else Err (Errorf ''invalid payload type''))"
      using Cons by (simp add: Payload_Parse_def index_at_def sub_slice_def UPC_Parse_def FromByte_def Let_def)
    then show ?thesis
      using Cons c u by (auto simp: and_then_Ok_iff PayloadType_CustodianOnly_def PayloadType_UPC_def
          split: if_splits)
  qed
qed

lemma FromString_no_panic: "\<not> is_panic (ChainInfoBytes_FromString s)"
  by (auto simp: ChainInfoBytes_FromString_def Let_def split: list.splits option.splits prod.splits
      outcome.splits)

text \<open>
  C29: the only payloads that crash the conversion of a call with token. With decoders that
  keep their promises and a decoded amount, the converter panics exactly on an empty
  payload, or on a PSBT with fewer than two outputs, sent to a Bitcoin chain.
\<close>

theorem ContractCallWithToken_panics_iff:
  assumes "eth_total lib" and "CCT_Amount event = Some amount"
  shows "is_panic (ContractCallWithTokenEvent2Model lib sourceChain event) \<longleftrightarrow>
    (\<exists>c. ChainInfoBytes_FromString (CCT_DestinationChain event) = Ok c
       \<and> ChainInfoBytes_ChainType c = ChainTypeBitcoin
       \<and> (CCT_Payload event = []
          \<or> (\<exists>d name outs. CCT_Payload event = PayloadType_UPC # d \<and> d \<noteq> []
                \<and> GetChainParamsByID lib (ChainInfoBytes_ChainID c) = Some name
                \<and> NewFromRawBytes lib d = Ok outs \<and> length outs < 2)))"
proof -
  have no: "\<not> is_panic (ptr_Uint64 (CCT_Amount event))"
    using assms(2) by (simp add: ptr_Uint64_def)
  show ?thesis
  proof (cases "ChainInfoBytes_FromString (CCT_DestinationChain event)")
    case (Ok c)
    show ?thesis
    proof (cases "ChainInfoBytes_ChainType c = ChainTypeBitcoin")
      case True
      have "is_panic (ContractCallWithTokenEvent2Model lib sourceChain event) \<longleftrightarrow>
          CCT_Payload event = [] \<or> (\<exists>p. Payload_Parse lib (CCT_Payload event) = Ok p
             \<and> is_panic (GetDestinationAddress lib p (ChainInfoBytes_ChainID c)))"
        using Ok True no Payload_Parse_panic [OF assms(1)]
        by (simp add: ContractCallWithTokenEvent2Model_def Let_def or_nil_panic and_then_is_panic)
      then show ?thesis using Ok True by (simp add: Payload_dest_panic [OF assms(1)])
    qed (use Ok in \<open>simp add: ContractCallWithTokenEvent2Model_def\<close>)
  qed (use FromString_no_panic [of "CCT_DestinationChain event"] in
      \<open>auto simp: ContractCallWithTokenEvent2Model_def\<close>)
qed

section \<open>A concrete instance\<close>

text \<open>Decoders of one answer each, and a call to Bitcoin chain 4.\<close>

definition example_eth :: eth_lib where
  "example_eth = \<lparr>Address_String = (\<lambda>a. ''0x'' @ hex_encode a), EHash_String = (\<lambda>h. ''0x'' @ hex_encode h),
     UnpackIntoInterface = (\<lambda>e _ _. Ok e),
     Arguments_Unpack = (\<lambda>_ _. Ok [VUint64 7, VBytes [81], VStrings [], VUint32s [], VUint64s [], VBytes32 []]),
     Arguments_Copy = (\<lambda>_ e _. e), NewType = (\<lambda>_. None),
     GetChainParamsByID = (\<lambda>i. if i = 4 then Some ''testnet4'' else None),
     ScriptPubKeyToAddress = (\<lambda>s n. Ok (n @ hex_encode s)), NewFromRawBytes = (\<lambda>_. Ok [])\<rparr>"

definition example_log :: eth_log where
  "example_log = \<lparr>Log_Address = [1], Log_Topics = [], Log_Data = [], Log_BlockNumber = 100,
     Log_TxHash = [171, 205], Log_TxIndex = 0, Log_Index = 3\<rparr>"

definition example_call :: "bytes \<Rightarrow> ContractCallWithToken_ev" where
  "example_call p = \<lparr>CCT_Sender = [171], CCT_DestinationChain = ''bitcoin|4'',
     CCT_DestinationContractAddress = ''0x11'', CCT_PayloadHash = [1], CCT_Payload = p,
     CCT_Symbol = ''sBtc'', CCT_Amount = Some (2 ^ 64 + 5), CCT_Raw = example_log\<rparr>"

definition example_sent :: "u64 \<Rightarrow> TokenSent_ev" where
  "example_sent i = \<lparr>TS_Sender = [171], TS_DestinationChain = ''evm|1'', TS_DestinationAddress = ''0xAB'',
     TS_Symbol = ''sBtc'', TS_Amount = Some 5, TS_Raw = example_log\<lparr>Log_Index := i\<rparr>\<rparr>"

lemma ToLower_0x_hex: "ToLower (CHR ''0'' # CHR ''x'' # hex_encode a) = CHR ''0'' # CHR ''x'' # hex_encode a"
proof -
  have "ToLower ''0x'' = ''0x''" by (simp add: ToLower_def lower_char_def)
  then show ?thesis using ToLower_append [of "''0x''" "hex_encode a"] by simp
qed

lemma example_eth_ok: "eth_strings example_eth" "eth_total example_eth"
  by (simp_all add: eth_strings_def eth_total_def example_eth_def ToLower_0x_hex)

theorem TokenSent_event_id_witness:
  "\<exists>t t'. TokenSentEvent2Model example_eth ''evm|1'' (example_sent 3) = Ok t
    \<and> TokenSentEvent2Model example_eth ''evm|1'' (example_sent 4) = Ok t' \<and> ts_EventID t \<noteq> ts_EventID t'"
proof -
  have "\<exists>t. TokenSentEvent2Model example_eth ''evm|1'' (example_sent i) = Ok t" for i
    by (simp add: TokenSentEvent2Model_def example_sent_def ptr_Uint64_def Let_def)
  then obtain t t' where t: "TokenSentEvent2Model example_eth ''evm|1'' (example_sent 3) = Ok t"
    "TokenSentEvent2Model example_eth ''evm|1'' (example_sent 4) = Ok t'" by blast
  from TokenSent_event_id [OF example_eth_ok(1) t] have "ts_EventID t \<noteq> ts_EventID t'"
    by (simp add: example_sent_def)
  with t show ?thesis by blast
qed

lemma example_id: "BigEndian_Uint64 [0, 0, 0, 0, 0, 0, 0, 4] = 4"
  by (simp add: BigEndian_Uint64_def be_nat_def)

lemma example_chain_bytes: "ChainInfoBytes_FromString ''bitcoin|4'' = Ok [0, 0, 0, 0, 0, 0, 0, 4]"
proof -
  have "BigEndian_PutUint64 4 = [0, 0, 0, 0, 0, 0, 0, 4]"
    using PutUint64_Uint64 [of "[0, 0, 0, 0, 0, 0, 0, 4]"] example_id by simp
  moreover have "ParseUint ''4'' 64 = (4, None)"
    by (simp add: ParseUint_def digit_val_def)
  ultimately show ?thesis
    by (simp add: ChainInfoBytes_FromString_def SEPARATOR_def ChainType_FromString_def
        ChainTypeFromString_def chain_type_defs)
qed

lemma example_bitcoin:
  "ChainInfoBytes_ChainType [0, 0, 0, 0, 0, 0, 0, 4] = ChainTypeBitcoin"
  "ChainInfoBytes_ChainID [0, 0, 0, 0, 0, 0, 0, 4] = 4"
  using example_id by (simp_all add: ChainInfoBytes_ChainType_def ChainInfoBytes_ChainID_eq chain_type_defs)

theorem ContractCallWithToken_stored_witness:
  "\<exists>m. ContractCallWithTokenEvent2Model example_eth ''evm|1'' (example_call [0]) = Ok (Some m)
    \<and> uint (ccwt_Amount m) = 5"
proof -
  have "\<exists>m. ContractCallWithTokenEvent2Model example_eth ''evm|1'' (example_call [0]) = Ok (Some m)"
    by (simp add: ContractCallWithTokenEvent2Model_def example_call_def example_chain_bytes example_bitcoin
        Payload_Parse_def CustodianOnly_Parse_def decoded_at_def index_at_def sub_slice_def FromByte_def
        PayloadType_CustodianOnly_def example_eth_def GetDestinationAddress_def ptr_Uint64_def Let_def)
  then obtain m where m: "ContractCallWithTokenEvent2Model example_eth ''evm|1'' (example_call [0]) = Ok (Some m)"
    by blast
  from ContractCallWithToken_stored [OF m] m show ?thesis
    by (auto simp: example_call_def)
qed

theorem ContractCallWithToken_panics_iff_witness:
  "is_panic (ContractCallWithTokenEvent2Model example_eth ''evm|1'' (example_call []))
   \<and> is_panic (ContractCallWithTokenEvent2Model example_eth ''evm|1'' (example_call [1, 2]))
   \<and> \<not> is_panic (ContractCallWithTokenEvent2Model example_eth ''evm|1'' (example_call [0]))"
  using ContractCallWithToken_panics_iff [OF example_eth_ok(2), of "example_call []" "2 ^ 64 + 5" "''evm|1''"]
    ContractCallWithToken_panics_iff [OF example_eth_ok(2), of "example_call [1, 2]" "2 ^ 64 + 5" "''evm|1''"]
    ContractCallWithToken_panics_iff [OF example_eth_ok(2), of "example_call [0]" "2 ^ 64 + 5" "''evm|1''"]
  by (simp add: example_call_def example_chain_bytes example_bitcoin PayloadType_UPC_def example_eth_def)

end
