(* ===== verification/Processing.thy ===== *)
theory Processing
  imports GatewayEvents DatabaseLaws
begin

text \<open>
  From fetched logs to rows: the events the indexer knows (\<open>pkg/evm/abi\<close>), decoding of a log
  (\<open>pkg/evm/parser/parser.go\<close> and \<open>pkg/evm/parser.go\<close>), and the batches in which rows are
  saved (\<open>pkg/evm/processing.go\<close>). A model in an \<open>any\<close> can be a nil pointer of a known type.
\<close>

section \<open>Events\<close>

definition EVENT_EVM_CONTRACT_CALL_APPROVED :: string where
  "EVENT_EVM_CONTRACT_CALL_APPROVED = ''ContractCallApproved''"
definition EVENT_EVM_CONTRACT_CALL :: string where "EVENT_EVM_CONTRACT_CALL = ''ContractCall''"
definition EVENT_EVM_CONTRACT_CALL_WITH_TOKEN :: string where
  "EVENT_EVM_CONTRACT_CALL_WITH_TOKEN = ''ContractCallWithToken''"
definition EVENT_EVM_REDEEM_TOKEN :: string where "EVENT_EVM_REDEEM_TOKEN = ''RedeemToken''"
definition EVENT_EVM_TOKEN_SENT :: string where "EVENT_EVM_TOKEN_SENT = ''TokenSent''"
definition EVENT_EVM_COMMAND_EXECUTED :: string where "EVENT_EVM_COMMAND_EXECUTED = ''Executed''"
definition EVENT_EVM_TOKEN_DEPLOYED :: string where "EVENT_EVM_TOKEN_DEPLOYED = ''TokenDeployed''"
definition EVENT_EVM_SWITCHED_PHASE :: string where "EVENT_EVM_SWITCHED_PHASE = ''SwitchPhase''"

lemmas event_names = EVENT_EVM_CONTRACT_CALL_APPROVED_def EVENT_EVM_CONTRACT_CALL_def
  EVENT_EVM_CONTRACT_CALL_WITH_TOKEN_def EVENT_EVM_REDEEM_TOKEN_def EVENT_EVM_TOKEN_SENT_def
  EVENT_EVM_COMMAND_EXECUTED_def EVENT_EVM_TOKEN_DEPLOYED_def EVENT_EVM_SWITCHED_PHASE_def

definition ALL_EVENTS :: "string list" where
  "ALL_EVENTS = [EVENT_EVM_CONTRACT_CALL, EVENT_EVM_CONTRACT_CALL_WITH_TOKEN, EVENT_EVM_TOKEN_SENT,
     EVENT_EVM_CONTRACT_CALL_APPROVED, EVENT_EVM_COMMAND_EXECUTED, EVENT_EVM_TOKEN_DEPLOYED,
     EVENT_EVM_SWITCHED_PHASE, EVENT_EVM_REDEEM_TOKEN]"

text \<open>
  The package variables of \<open>pkg/evm/abi/abi.go\<close>. \<open>GetAbi\<close> reads the ABI from the generated binding; its \<open>Events\<close> are a Go map,
  given as the list of its entries in the order in which they are visited. \<open>init\<close> ignores the error of \<open>GetAbi\<close>
  and then dereferences a nil pointer.
\<close>

record abi_vars =
  scalarGatewayAbi :: "(string \<times> abi_event) list option"
  abi_mapEvents :: "string \<rightharpoonup> abi_event"

definition abi_init :: "(string \<times> abi_event) list outcome \<Rightarrow> abi_vars outcome" where
  "abi_init GetAbi =
     (case GetAbi of
        Ok events \<Rightarrow> Ok \<lparr>scalarGatewayAbi = Some events,
          abi_mapEvents = foldl (\<lambda>m (key, event). m(Event_Name event \<mapsto> event)) Map.empty events\<rparr>
      | Err _ \<Rightarrow> Panic NilDereference
      | Panic p \<Rightarrow> Panic p)"

definition GetScalarGatewayAbi ::
  "(string \<times> abi_event) list outcome \<Rightarrow> abi_vars \<Rightarrow> (string \<times> abi_event) list outcome \<times> abi_vars" where
  "GetScalarGatewayAbi GetAbi vars =
     (case scalarGatewayAbi vars of
        Some events \<Rightarrow> (Ok events, vars)
      | None \<Rightarrow>
          (case GetAbi of
             Ok events \<Rightarrow> (Ok events, vars\<lparr>scalarGatewayAbi := Some events\<rparr>)
           | Err e \<Rightarrow> (Err e, vars)
           | Panic p \<Rightarrow> (Panic p, vars)))"

definition GetMapEvents :: "abi_vars \<Rightarrow> (string \<rightharpoonup> abi_event)" where
  "GetMapEvents vars = abi_mapEvents vars"

definition GetEventByName :: "abi_vars \<Rightarrow> string \<Rightarrow> abi_event option" where
  "GetEventByName vars name = abi_mapEvents vars name"

text \<open>Once the package is initialised, the ABI is there and an event is found under its own name.\<close>

lemma fold_events:
  "foldl (\<lambda>m (key, event). m(Event_Name event \<mapsto> event)) m events name = Some e \<Longrightarrow>
     m name = Some e \<or> (Event_Name e = name \<and> e \<in> snd ` set events)"
  by (induction events arbitrary: m) (fastforce split: if_splits)+

lemma abi_init_events:
  assumes "abi_init GetAbi = Ok vars"
  shows "\<exists>events. GetAbi = Ok events \<and> GetScalarGatewayAbi GetAbi' vars = (Ok events, vars)
    \<and> (\<forall>name e. GetEventByName vars name = Some e \<longrightarrow> Event_Name e = name \<and> e \<in> snd ` set events)"
proof (cases GetAbi)
  case (Ok events)
  then show ?thesis
    using assms fold_events [of Map.empty events]
    by (auto simp: abi_init_def GetScalarGatewayAbi_def GetEventByName_def)
qed (use assms in \<open>simp_all add: abi_init_def\<close>)

text \<open>
  \<open>PrepareEvents\<close> of \<open>client.go\<close>: the contract's events (\<open>gatewayAbi.Events\<close>, read from the
  generated binding) that have a known name, keyed by topic, with the list of topics.
\<close>

fun prepare :: "eth_lib \<Rightarrow> (string \<rightharpoonup> abi_event) \<Rightarrow> string list \<Rightarrow> (string \<rightharpoonup> abi_event) \<times> hash32 list" where
  "prepare lib abi [] = (Map.empty, [])"
| "prepare lib abi (eventName # names) =
     (let (eventMap, topics) = prepare lib abi names in
      case abi eventName of
        None \<Rightarrow> (eventMap, topics)
      | Some event \<Rightarrow>
          ((\<lambda>k. if k = EHash_String lib (Event_ID event) \<and> eventMap k = None then Some event else eventMap k),
           Event_ID event # topics))"

definition PrepareEvents ::
  "eth_lib \<Rightarrow> (string \<rightharpoonup> abi_event) outcome \<Rightarrow> ((string \<rightharpoonup> abi_event) \<times> hash32 list) outcome" where
  "PrepareEvents lib gatewayAbi =
     and_then (wrapf ''failed to get scalar gateway abi'' gatewayAbi) (\<lambda>abi. Ok (prepare lib abi ALL_EVENTS))"

text \<open>
  The table of events and the topics of the query fit together: a topic that is asked for has an entry, and an entry is
  a known event of the contract under its own topic.
\<close>

lemma prepare_sound:
  "fst (prepare lib abi names) k = Some e \<Longrightarrow>
     \<exists>name \<in> set names. abi name = Some e \<and> k = EHash_String lib (Event_ID e)"
  by (induction names) (auto simp: Let_def split: prod.splits option.splits if_splits)

lemma prepare_complete:
  "t \<in> set (snd (prepare lib abi names)) \<Longrightarrow> fst (prepare lib abi names) (EHash_String lib t) \<noteq> None"
  by (induction names) (auto simp: Let_def split: prod.splits option.splits)

lemma prepare_topics:
  "t \<in> set (snd (prepare lib abi names)) \<longleftrightarrow> (\<exists>name \<in> set names. \<exists>e. abi name = Some e \<and> Event_ID e = t)"
  by (induction names) (auto simp: Let_def split: prod.splits option.splits)

section \<open>Decoding a log\<close>

definition getEventIndexedArguments :: "abi_event option \<Rightarrow> abi_argument list" where
  "getEventIndexedArguments event =
     (case event of
        None \<Rightarrow> []
      | Some e \<Rightarrow> map (\<lambda>a. a\<lparr>Arg_Indexed := False\<rparr>) (filter Arg_Indexed (Event_Inputs e)))"

definition ParseEventData :: "eth_lib \<Rightarrow> eth_log \<Rightarrow> abi_event \<Rightarrow> valid_evm_event \<Rightarrow> valid_evm_event outcome" where
  "ParseEventData lib receiptLog event eventData =
     and_then (wrapf ''failed to unpack event''
                (UnpackIntoInterface lib eventData (Event_Name event) (Log_Data receiptLog))) (\<lambda>eventData.
     let buffer = concat (drop 1 (Log_Topics receiptLog));
         indexedArgs = getEventIndexedArguments (Some event)
     in if 0 < length buffer \<and> 0 < length indexedArgs then
          (case Arguments_Unpack lib indexedArgs buffer of
             Ok unpacked \<Rightarrow> Ok (Arguments_Copy lib indexedArgs eventData unpacked)
           | Err _ \<Rightarrow> Ok eventData
           | Panic p \<Rightarrow> Panic p)
        else Ok eventData)"

record 'a evm_event =
  ev_Hash :: string
  ev_BlockNumber :: u64
  ev_TxIndex :: u64
  ev_LogIndex :: u64
  ev_SourceChain :: string
  ev_DestinationChain :: string
  ev_EventName :: string
  ev_Args :: 'a

definition CreateEvmEventFromArgs :: "eth_lib \<Rightarrow> 'a \<Rightarrow> eth_log \<Rightarrow> 'a evm_event" where
  "CreateEvmEventFromArgs lib eventArgs log =
     \<lparr>ev_Hash = EHash_String lib (Log_TxHash log), ev_BlockNumber = Log_BlockNumber log,
      ev_TxIndex = Log_TxIndex log, ev_LogIndex = Log_Index log,
      ev_SourceChain = [], ev_DestinationChain = [], ev_EventName = [], ev_Args = eventArgs\<rparr>"

datatype go_any = TypedNil table | Ptr model

text \<open>The event structs with only \<open>Raw\<close> set.\<close>

definition zero32 :: bytes where "zero32 = replicate 32 0"
definition zero20 :: bytes where "zero20 = replicate 20 0"

definition new_event :: "string \<Rightarrow> eth_log \<Rightarrow> valid_evm_event option" where
  "new_event name raw =
     (if name = EVENT_EVM_TOKEN_SENT then
        Some (TokenSent_E \<lparr>TS_Sender = zero20, TS_DestinationChain = [], TS_DestinationAddress = [],
          TS_Symbol = [], TS_Amount = None, TS_Raw = raw\<rparr>)
      else if name = EVENT_EVM_CONTRACT_CALL_WITH_TOKEN then
        Some (ContractCallWithToken_E \<lparr>CCT_Sender = zero20, CCT_DestinationChain = [],
          CCT_DestinationContractAddress = [], CCT_PayloadHash = zero32, CCT_Payload = [], CCT_Symbol = [],
          CCT_Amount = None, CCT_Raw = raw\<rparr>)
      else if name = EVENT_EVM_CONTRACT_CALL then
        Some (ContractCall_E \<lparr>CC_Sender = zero20, CC_DestinationChain = [], CC_DestinationContractAddress = [],
          CC_PayloadHash = zero32, CC_Payload = [], CC_Raw = raw\<rparr>)
      else if name = EVENT_EVM_CONTRACT_CALL_APPROVED then
        Some (ContractCallApproved_E \<lparr>CCA_CommandId = zero32, CCA_SourceChain = [], CCA_SourceAddress = [],
          CCA_ContractAddress = zero20, CCA_PayloadHash = zero32, CCA_SourceTxHash = zero32,
          CCA_SourceEventIndex = None, CCA_Raw = raw\<rparr>)
      else if name = EVENT_EVM_REDEEM_TOKEN then
        Some (RedeemToken_E \<lparr>RT_Sender = zero20, RT_Sequence = 0, RT_CustodianGroupUID = zero32,
          RT_DestinationChain = [], RT_DestinationContractAddress = [], RT_PayloadHash = zero32, RT_Payload = [],
          RT_Symbol = [], RT_Amount = None, RT_Raw = raw\<rparr>)
      else if name = EVENT_EVM_COMMAND_EXECUTED then
        Some (Executed_E \<lparr>EX_CommandId = zero32, EX_Raw = raw\<rparr>)
      else if name = EVENT_EVM_TOKEN_DEPLOYED then
        Some (TokenDeployed_E \<lparr>TD_Symbol = [], TD_TokenAddresses = zero20, TD_Raw = raw\<rparr>)
      else if name = EVENT_EVM_SWITCHED_PHASE then
        Some (SwitchPhase_E \<lparr>SP_CustodianGroupId = zero32, SP_Sequence = 0, SP_From = 0, SP_To = 0, SP_Raw = raw\<rparr>)
      else None)"

text \<open>The converter of the event's type; a nil result keeps its static type inside the \<open>any\<close>.\<close>

fun event_model :: "eth_lib \<Rightarrow> string \<Rightarrow> valid_evm_event \<Rightarrow> go_any outcome" where
  "event_model lib c (TokenSent_E e) = and_then (TokenSentEvent2Model lib c e) (\<lambda>m. Ok (Ptr (TokenSentM m)))"
| "event_model lib c (ContractCallWithToken_E e) =
     and_then (ContractCallWithTokenEvent2Model lib c e) (\<lambda>r. case r of
        None \<Rightarrow> Ok (TypedNil ContractCallWithTokens) | Some m \<Rightarrow> Ok (Ptr (ContractCallWithTokenM m)))"
| "event_model lib c (ContractCall_E e) = Ok (Ptr (ContractCallM (ContractCallEvent2Model lib c e)))"
| "event_model lib c (ContractCallApproved_E e) =
     Ok (Ptr (ContractCallApprovedM (ContractCallApprovedEvent2Model lib c e)))"
| "event_model lib c (RedeemToken_E e) =
     and_then (RedeemTokenEvent2Model lib c e) (\<lambda>r. case r of
        None \<Rightarrow> Ok (TypedNil EvmRedeemTxs) | Some m \<Rightarrow> Ok (Ptr (EvmRedeemTxM m)))"
| "event_model lib c (Executed_E e) = Ok (Ptr (CommandExecutedM (CommandExecutedEvent2Model lib c e)))"
| "event_model lib c (TokenDeployed_E e) = Ok (Ptr (TokenDeployedM (TokenDeployedEvent2Model lib c e)))"
| "event_model lib c (SwitchPhase_E e) = Ok (Ptr (SwitchedPhaseM (SwitchPhaseEvent2Model lib c e)))"

definition parseEventLog :: "eth_lib \<Rightarrow> string \<Rightarrow> abi_event \<Rightarrow> eth_log \<Rightarrow> (valid_evm_event \<times> go_any) outcome" where
  "parseEventLog lib sourceChain event txLog =
     (case new_event (Event_Name event) txLog of
        None \<Rightarrow> Err (Errorf ''invalid event type'')
      | Some e0 \<Rightarrow>
          and_then (wrapf ''failed to parse event'' (ParseEventData lib txLog event e0)) (\<lambda>e.
          and_then (event_model lib sourceChain e) (\<lambda>m. Ok (e, m))))"

section \<open>Batches\<close>

definition BATCH_SIZE :: int where "BATCH_SIZE = 1000"
definition MAX_PARAMS_PER_QUERY :: int where "MAX_PARAMS_PER_QUERY = 65535"

text \<open>\<open>reflect.Type\<close>, as far as it is inspected.\<close>

datatype go_type = PtrT go_type | StructT nat | OtherT

fun CalculateOptimalBatchSize :: "go_type \<Rightarrow> int outcome" where
  "CalculateOptimalBatchSize (PtrT t) = CalculateOptimalBatchSize t"
| "CalculateOptimalBatchSize OtherT = Ok BATCH_SIZE"
| "CalculateOptimalBatchSize (StructT fieldCount) =
     (if fieldCount = 0 then Panic DivideByZero
      else
        let maxRecordsPerBatch = MAX_PARAMS_PER_QUERY div int fieldCount;
            maxRecordsPerBatch = (if maxRecordsPerBatch > BATCH_SIZE then BATCH_SIZE else maxRecordsPerBatch)
        in Ok (if maxRecordsPerBatch < 1 then 1 else maxRecordsPerBatch))"

definition ChunkRecords :: "'a list \<Rightarrow> int \<Rightarrow> 'a list list outcome option" where
  "ChunkRecords records batchSize =
     (if records = [] then Some (Ok []) else chunk_loop batchSize records 0 [])"

fun dyn_type :: "go_any \<Rightarrow> table" where
  "dyn_type (TypedNil t) = t"
| "dyn_type (Ptr m) = table_of m"

text \<open>The assertion \<open>record.(*chains.T)\<close> on each record: it fails on another type only.\<close>

fun sel_TokenSent where "sel_TokenSent (TokenSentM x) = Some x" | "sel_TokenSent _ = None"
fun sel_ContractCall where "sel_ContractCall (ContractCallM x) = Some x" | "sel_ContractCall _ = None"
fun sel_ContractCallWithToken where "sel_ContractCallWithToken (ContractCallWithTokenM x) = Some x" | "sel_ContractCallWithToken _ = None"
fun sel_ContractCallApproved where "sel_ContractCallApproved (ContractCallApprovedM x) = Some x" | "sel_ContractCallApproved _ = None"
fun sel_EvmRedeemTx where "sel_EvmRedeemTx (EvmRedeemTxM x) = Some x" | "sel_EvmRedeemTx _ = None"
fun sel_CommandExecuted where "sel_CommandExecuted (CommandExecutedM x) = Some x" | "sel_CommandExecuted _ = None"
fun sel_TokenDeployed where "sel_TokenDeployed (TokenDeployedM x) = Some x" | "sel_TokenDeployed _ = None"
fun sel_SwitchedPhase where "sel_SwitchedPhase (SwitchedPhaseM x) = Some x" | "sel_SwitchedPhase _ = None"

definition assert_type :: "(model \<Rightarrow> 'a option) \<Rightarrow> table \<Rightarrow> string \<Rightarrow> go_any list \<Rightarrow> 'a option list outcome" where
  "assert_type sel t msg records =
     collect (\<lambda>r. case r of
         TypedNil t' \<Rightarrow> if t' = t then Ok None else Err (Errorf msg)
       | Ptr m \<Rightarrow> (case sel m of Some x \<Rightarrow> Ok (Some x) | None \<Rightarrow> Err (Errorf msg))) records"

text \<open>
  A method call on a nil adapter dereferences it: \<open>with_db\<close>. The result is the database
  afterwards with the returned error.
\<close>

definition with_db ::
  "'s gorm option \<Rightarrow> 's \<Rightarrow> (model \<Rightarrow> 'a option) \<Rightarrow> table \<Rightarrow> string \<Rightarrow> go_any list
   \<Rightarrow> ('s gorm \<Rightarrow> 'a option list \<Rightarrow> 's \<times> go_error option) \<Rightarrow> ('s \<times> go_error option) outcome" where
  "with_db dbAdapter s sel t msg records save =
     (case assert_type sel t msg records of
        Err e \<Rightarrow> Ok (s, Some e)
      | Panic p \<Rightarrow> Panic p
      | Ok rows \<Rightarrow> (case dbAdapter of None \<Rightarrow> Panic NilDereference | Some db \<Rightarrow> Ok (save db rows)))"

definition SaveBatchRecords ::
  "'s gorm option \<Rightarrow> abi_event \<Rightarrow> go_any list \<Rightarrow> 's \<Rightarrow> ('s \<times> go_error option) outcome" where
  "SaveBatchRecords dbAdapter event records s =
     (if records = [] then Ok (s, None)
      else if \<not> list_all (\<lambda>r. dyn_type r = dyn_type (hd records)) records
      then Ok (s, Some (Errorf ''inconsistent record types''))
      else if Event_Name event = EVENT_EVM_TOKEN_SENT then
        with_db dbAdapter s sel_TokenSent TokenSents ''invalid record type for TokenSent'' records
          (\<lambda>db rs. SaveTokenSents db rs s)
      else if Event_Name event = EVENT_EVM_CONTRACT_CALL then
        with_db dbAdapter s sel_ContractCall ContractCalls ''invalid record type for ContractCall'' records
          (\<lambda>db rs. SaveContractCalls db rs s)
      else if Event_Name event = EVENT_EVM_CONTRACT_CALL_WITH_TOKEN then
        with_db dbAdapter s sel_ContractCallWithToken ContractCallWithTokens ''invalid record type for ContractCallWithToken'' records
          (\<lambda>db rs. SaveContractCallWithTokens db rs s)
      else if Event_Name event = EVENT_EVM_CONTRACT_CALL_APPROVED then
        with_db dbAdapter s sel_ContractCallApproved ContractCallApproveds ''invalid record type for ContractCallApproved'' records
          (\<lambda>db rs. SaveContractCallApproveds db rs s)
      else if Event_Name event = EVENT_EVM_REDEEM_TOKEN then
        with_db dbAdapter s sel_EvmRedeemTx EvmRedeemTxs ''invalid record type for EvmRedeemTx'' records
          (\<lambda>db rs. SaveEvmRedeemTxs db rs s)
      else if Event_Name event = EVENT_EVM_COMMAND_EXECUTED then
        with_db dbAdapter s sel_CommandExecuted CommandExecuteds ''invalid record type for CommandExecuted'' records
          (\<lambda>db rs. SaveCommandExecuteds db rs s)
      else if Event_Name event = EVENT_EVM_TOKEN_DEPLOYED then
        with_db dbAdapter s sel_TokenDeployed TokenDeployeds ''invalid record type for TokenDeployed'' records
          (\<lambda>db rs. SaveTokenDeployeds db rs s)
      else if Event_Name event = EVENT_EVM_SWITCHED_PHASE then
        with_db dbAdapter s sel_SwitchedPhase SwitchedPhases ''invalid record type for SwitchedPhase'' records
          (\<lambda>db rs. SaveSwitchedPhases db rs s)
      else Ok (s, Some (Errorf ''unknown event'')))"

fun save_chunks ::
  "'s gorm option \<Rightarrow> abi_event \<Rightarrow> go_any list list \<Rightarrow> 's \<Rightarrow> ('s \<times> go_error option) outcome" where
  "save_chunks dbAdapter event [] s = Ok (s, None)"
| "save_chunks dbAdapter event (chunk # chunks) s =
     and_then (SaveBatchRecords dbAdapter event chunk s) (\<lambda>(s', err).
     case err of
       Some e \<Rightarrow> Ok (s', Some (Wrapf ''failed to save batch'' e))
     | None \<Rightarrow> save_chunks dbAdapter event chunks s')"

text \<open>
  \<open>numField t\<close> is the number of fields of the struct type of table \<open>t\<close>; each record is a pointer to
  one. The outer \<^const>\<open>None\<close> would be a chunking loop that does not end.
\<close>

definition SaveRecords ::
  "(table \<Rightarrow> nat) \<Rightarrow> 's gorm option \<Rightarrow> abi_event \<Rightarrow> go_any list \<Rightarrow> 's \<Rightarrow> ('s \<times> go_error option) outcome option" where
  "SaveRecords numField dbAdapter event records s =
     (if records = [] then Some (Ok (s, None))
      else
        (case CalculateOptimalBatchSize (PtrT (StructT (numField (dyn_type (hd records))))) of
           Panic p \<Rightarrow> Some (Panic p)
         | Err e \<Rightarrow> Some (Err e)
         | Ok maxRecordsPerBatch \<Rightarrow>
             (case ChunkRecords records maxRecordsPerBatch of
                None \<Rightarrow> None
              | Some (Ok chunks) \<Rightarrow> Some (save_chunks dbAdapter event chunks s)
              | Some (Err e) \<Rightarrow> Some (Err e)
              | Some (Panic p) \<Rightarrow> Some (Panic p))))"

section \<open>One batch of logs\<close>

text \<open>
  \<open>mapRecords\<close> as a list of topics in the order they first occur, and \<open>mapBlockHeights\<close> as the list of
  its keys. A log whose topic is unknown or that fails to decode is logged and skipped.
\<close>

type_synonym map_records = "(string \<times> go_any list) list"

fun add_record :: "string \<Rightarrow> go_any \<Rightarrow> map_records \<Rightarrow> map_records" where
  "add_record topic r [] = [(topic, [r])]"
| "add_record topic r ((t, rs) # m) = (if t = topic then (t, rs @ [r]) # m else (t, rs) # add_record topic r m)"

fun gather ::
  "eth_lib \<Rightarrow> string \<Rightarrow> (string \<rightharpoonup> abi_event) \<Rightarrow> eth_log list \<Rightarrow> map_records \<Rightarrow> u64 list
   \<Rightarrow> (map_records \<times> u64 list) outcome" where
  "gather lib chain mapEvents [] records heights = Ok (records, heights)"
| "gather lib chain mapEvents (txLog # logs) records heights =
     (let heights = (if Log_BlockNumber txLog \<in> set heights then heights else heights @ [Log_BlockNumber txLog])
      in and_then (index_at (Log_Topics txLog) 0) (\<lambda>t.
         let topic = EHash_String lib t in
         case mapEvents topic of
           None \<Rightarrow> gather lib chain mapEvents logs records heights
         | Some event \<Rightarrow>
             (case parseEventLog lib chain event txLog of
                Ok (e, model) \<Rightarrow> gather lib chain mapEvents logs (add_record topic model records) heights
              | Err _ \<Rightarrow> gather lib chain mapEvents logs records heights
              | Panic p \<Rightarrow> Panic p)))"

text \<open>Go visits a map in any order; the order chosen is the argument \<open>visit\<close>.\<close>

fun save_topics ::
  "(table \<Rightarrow> nat) \<Rightarrow> 's gorm option \<Rightarrow> (string \<rightharpoonup> abi_event) \<Rightarrow> map_records \<Rightarrow> 's \<Rightarrow> 's outcome option" where
  "save_topics numField dbAdapter mapEvents [] s = Some (Ok s)"
| "save_topics numField dbAdapter mapEvents ((topic, records) # m) s =
     (case mapEvents topic of
        None \<Rightarrow> save_topics numField dbAdapter mapEvents m s
      | Some event \<Rightarrow>
          (case SaveRecords numField dbAdapter event records s of
             None \<Rightarrow> None
           | Some (Ok (s', err)) \<Rightarrow> save_topics numField dbAdapter mapEvents m s'
           | Some (Err e) \<Rightarrow> save_topics numField dbAdapter mapEvents m s
           | Some (Panic p) \<Rightarrow> Some (Panic p)))"

definition process_logs ::
  "eth_lib \<Rightarrow> string \<Rightarrow> (table \<Rightarrow> nat) \<Rightarrow> 's gorm option \<Rightarrow> (string \<rightharpoonup> abi_event) \<Rightarrow> (map_records \<Rightarrow> map_records)
   \<Rightarrow> eth_log list \<Rightarrow> 's \<Rightarrow> ('s \<times> u64 list) outcome option" where
  "process_logs lib chain numField dbAdapter mapEvents visit logs s =
     (case gather lib chain mapEvents logs [] [] of
        Panic p \<Rightarrow> Some (Panic p)
      | Err e \<Rightarrow> Some (Err e)
      | Ok (mapRecords, mapBlockHeights) \<Rightarrow>
          map_option (\<lambda>r. and_then r (\<lambda>s'. Ok (s', mapBlockHeights)))
            (save_topics numField dbAdapter mapEvents (visit mapRecords) s))"

section \<open>Properties of the batches\<close>

fun struct_fields :: "go_type \<Rightarrow> nat option" where
  "struct_fields (PtrT t) = struct_fields t"
| "struct_fields (StructT n) = Some n"
| "struct_fields OtherT = None"

lemma batch_size_bounds:
  "case CalculateOptimalBatchSize t of
     Ok b \<Rightarrow> 1 \<le> b \<and> b \<le> 1000 \<and> (case struct_fields t of Some f \<Rightarrow> b * int f \<le> max (int f) 65535 | None \<Rightarrow> True)
   | Err _ \<Rightarrow> False
   | Panic p \<Rightarrow> p = DivideByZero \<and> struct_fields t = Some 0"
proof (induction t rule: CalculateOptimalBatchSize.induct)
  case (1 t)
  then show ?case by (cases "CalculateOptimalBatchSize t") simp_all
next
  case (3 f)
  have "0 \<le> 65535 mod int f" by (cases "f = 0") simp_all
  then have q: "(65535 div int f) * int f \<le> 65535" using div_mult_mod_eq [of 65535 "int f"] by linarith
  moreover have "1000 * int f \<le> (65535 div int f) * int f" if "1000 < 65535 div int f"
    using that by (intro mult_right_mono) auto
  ultimately have "1000 * int f \<le> 65535" if "1000 < 65535 div int f" using that by linarith
  with q show ?case
    by (auto simp: Let_def BATCH_SIZE_def MAX_PARAMS_PER_QUERY_def max_def not_less)
qed (simp_all add: BATCH_SIZE_def)

text \<open>
  The batch size is between 1 and 1000 and a batch needs at most 65535 parameters, the
  limit of PostgreSQL (a single record excepted); the computation fails only on a struct without fields.
\<close>

theorem CalculateOptimalBatchSize_bounds:
  "case CalculateOptimalBatchSize t of
     Ok b \<Rightarrow> 1 \<le> b \<and> b \<le> 1000 \<and> (case struct_fields t of Some f \<Rightarrow> b * int f \<le> max (int f) 65535 | None \<Rightarrow> True)
   | Err _ \<Rightarrow> False
   | Panic p \<Rightarrow> p = DivideByZero \<and> struct_fields t = Some 0"
  by (rule batch_size_bounds)

lemma SaveRecords_chunks:
  assumes "0 < numField (dyn_type (hd records))"
  shows "\<exists>n. 0 < n \<and> SaveRecords numField dbAdapter event records s =
    Some (save_chunks dbAdapter event (chunks_of n records) s)"
proof (cases "records = []")
  case True
  then show ?thesis by (intro exI [of _ 1]) (simp add: SaveRecords_def)
next
  case False
  let ?t = "PtrT (StructT (numField (dyn_type (hd records))))"
  obtain b where b: "CalculateOptimalBatchSize ?t = Ok b" "1 \<le> b"
    using batch_size_bounds [of ?t] assms by (cases "CalculateOptimalBatchSize ?t") auto
  then have "ChunkRecords records b = Some (Ok (chunks_of (nat b) records))"
    using False chunk_loop_chunks_of [of "nat b" 0 records "[]"] by (simp add: ChunkRecords_def)
  with b False show ?thesis by (intro exI [of _ "nat b"]) (simp add: SaveRecords_def)
qed

lemma chunks_of_map: "chunks_of n (map f xs) = map (map f) (chunks_of n xs)"
proof (induction n xs rule: chunks_of.induct)
  case (1 n xs)
  then show ?case
    by (cases "xs = [] \<or> n = 0") (simp_all add: chunks_of.simps [of n] take_map drop_map)
qed

context gorm_engine
begin

lemma save_batch_with_nil:
  assumes "Event_Name event = EVENT_EVM_CONTRACT_CALL_WITH_TOKEN"
    and "list_all (\<lambda>r. dyn_type r = ContractCallWithTokens) records" and "TypedNil ContractCallWithTokens \<in> set records"
  shows "\<exists>s' e. SaveBatchRecords (Some db) event records s = Ok (s', Some e) \<and> rows s' = rows s"
proof -
  have a: "\<exists>rs. assert_type sel_ContractCallWithToken ContractCallWithTokens msg xs = Ok rs
      \<and> (TypedNil ContractCallWithTokens \<in> set xs \<longrightarrow> None \<in> set rs)"
    if "list_all (\<lambda>r. dyn_type r = ContractCallWithTokens) xs" for xs msg
    using that
  proof (induction xs)
    case (Cons x xs)
    then obtain rs where "assert_type sel_ContractCallWithToken ContractCallWithTokens msg xs = Ok rs"
      "TypedNil ContractCallWithTokens \<in> set xs \<longrightarrow> None \<in> set rs" by auto
    moreover have "x = TypedNil ContractCallWithTokens \<or> (\<exists>c. x = Ptr (ContractCallWithTokenM c))"
    proof (cases x)
      case (Ptr m)
      with Cons.prems show ?thesis by (cases m) auto
    qed (use Cons.prems in auto)
    ultimately show ?case by (auto simp: assert_type_def)
  qed (simp add: assert_type_def)
  obtain rs where rs: "assert_type sel_ContractCallWithToken ContractCallWithTokens
      ''invalid record type for ContractCallWithToken'' records = Ok rs" "None \<in> set rs"
    using a [OF assms(2)] assms(3) by blast
  have ne: "records \<noteq> []" using assms(3) by auto
  then have "list_all (\<lambda>r. dyn_type r = dyn_type (hd records)) records"
    using assms(2) by (simp add: list_all_iff)
  then have b: "SaveBatchRecords (Some db) event records s = Ok (SaveContractCallWithTokens db rs s)"
    using assms(1) rs(1) ne by (simp add: SaveBatchRecords_def with_db_def event_names)
  have "None \<in> set (map (map_option ContractCallWithTokenM) rs)" using rs(2) by force
  then obtain s' e where "SaveContractCallWithTokens db rs s = (s', Some e)"
    using create_nil unfolding SaveContractCallWithTokens_def by (metis not_None_eq prod.collapse)
  with b show ?thesis using create_err unfolding SaveContractCallWithTokens_def by auto
qed

end

definition example_event :: "string \<Rightarrow> abi_event" where
  "example_event name = \<lparr>Event_Name = name, Event_ID = [1], Event_Inputs = []\<rparr>"

text \<open>
  One undecodable call loses its whole batch. A converter that gives up returns a nil
  pointer, which is not a nil \<open>any\<close>, so it is kept among the records; the insert of a slice
  with a nil element fails and none of the other calls is stored.
\<close>

theorem nil_model_loses_batch:
  assumes "gorm_engine db rows column assign"
    and "Event_Name event = EVENT_EVM_CONTRACT_CALL_WITH_TOKEN"
    and "list_all (\<lambda>r. dyn_type r = ContractCallWithTokens) records" and "TypedNil ContractCallWithTokens \<in> set records"
  shows "\<exists>s' e. SaveBatchRecords (Some db) event records s = Ok (s', Some e) \<and> rows s' = rows s"
  by (rule gorm_engine.save_batch_with_nil [OF assms])

theorem nil_model_loses_batch_witness:
  "\<forall>c. \<exists>s' e. SaveBatchRecords (Some mem_engine) (example_event EVENT_EVM_CONTRACT_CALL_WITH_TOKEN)
      [Ptr (ContractCallWithTokenM c), TypedNil ContractCallWithTokens] [] = Ok (s', Some e) \<and> s' = []"
proof
  fix c
  show "\<exists>s' e. SaveBatchRecords (Some mem_engine) (example_event EVENT_EVM_CONTRACT_CALL_WITH_TOKEN)
      [Ptr (ContractCallWithTokenM c), TypedNil ContractCallWithTokens] [] = Ok (s', Some e) \<and> s' = []"
    by (rule nil_model_loses_batch [OF mem.gorm_engine_axioms]) (simp_all add: example_event_def)
qed

end
