(* ===== verification/LogBatch.thy ===== *)
theory LogBatch
  imports Processing
begin

text \<open>
  What a batch of logs leaves in the database: the body of the loop of \<open>ProcessLogsFromFetcher\<close> (\<open>pkg/evm/processing.go\<close>),
  from the grouping by topic to the rows.
\<close>

section \<open>One batch of logs\<close>

subsection \<open>Rows are only appended\<close>

text \<open>A call that returns, perhaps with an error, and leaves the earlier rows as they are.\<close>

definition extending :: "('s \<Rightarrow> model list) \<Rightarrow> 's \<Rightarrow> ('s \<times> go_error option) outcome \<Rightarrow> bool" where
  "extending rows s r \<longleftrightarrow> (\<exists>s' err. r = Ok (s', err) \<and> prefix (rows s) (rows s'))"

lemma extending_if: "extending rows s a \<Longrightarrow> extending rows s b \<Longrightarrow> extending rows s (if c then a else b)"
  by simp

lemma extending_same: "extending rows s (Ok (s, err))"
  by (simp add: extending_def)

lemmas save_defs = SaveTokenSents_def SaveContractCalls_def SaveContractCallWithTokens_def SaveContractCallApproveds_def
  SaveEvmRedeemTxs_def SaveCommandExecuteds_def SaveTokenDeployeds_def SaveSwitchedPhases_def

context gorm_engine
begin

lemma assert_type_no_panic: "assert_type sel t msg records \<noteq> Panic e"
proof (induction records)
  case (Cons r records)
  then show ?case
    by (cases "assert_type sel t msg records") (auto simp: assert_type_def split: go_any.splits option.splits)
qed (simp add: assert_type_def)

lemma with_db_extending:
  assumes "\<And>rs. prefix (rows s) (rows (fst (save db rs)))"
  shows "extending rows s (with_db (Some db) s sel t msg records save)"
proof (cases "assert_type sel t msg records")
  case (Ok rs)
  then show ?thesis using assms [of rs] by (cases "save db rs") (auto simp: with_db_def extending_def)
qed (auto simp: with_db_def extending_def assert_type_no_panic)

lemma SaveBatchRecords_extending: "extending rows s (SaveBatchRecords (Some db) event records s)"
  unfolding SaveBatchRecords_def
  by (intro extending_if with_db_extending extending_same) (simp_all add: save_defs create_nothing_extends)

lemma save_chunks_extending: "extending rows s (save_chunks (Some db) event cs s)"
proof (induction cs arbitrary: s)
  case (Cons c cs)
  obtain s1 err where b: "SaveBatchRecords (Some db) event c s = Ok (s1, err)" "prefix (rows s) (rows s1)"
    using SaveBatchRecords_extending [of s event c] by (auto simp: extending_def)
  with Cons [of s1] show ?case
    by (cases err) (auto simp: extending_def intro: prefix_order.trans)
qed (simp add: extending_def)

lemma SaveRecords_extends:
  assumes "\<And>t. 0 < numField t"
  shows "\<exists>r. SaveRecords numField (Some db) event records s = Some r \<and> extending rows s r"
proof -
  obtain n where "SaveRecords numField (Some db) event records s = Some (save_chunks (Some db) event (chunks_of n records) s)"
    using SaveRecords_chunks [of numField records "Some db" event s] assms by auto
  then show ?thesis using save_chunks_extending by blast
qed

lemma save_topics_Cons:
  assumes "\<And>t. 0 < numField t"
  shows "\<exists>s1. save_topics numField (Some db) mapEvents [tr] s = Some (Ok s1)
    \<and> save_topics numField (Some db) mapEvents (tr # m) s = save_topics numField (Some db) mapEvents m s1"
proof (cases tr)
  case (Pair topic records)
  show ?thesis
  proof (cases "mapEvents topic")
    case (Some event)
    obtain s1 err where "SaveRecords numField (Some db) event records s = Some (Ok (s1, err))"
      using SaveRecords_extends [of numField event records s] assms by (auto simp: extending_def)
    with Some Pair show ?thesis by simp
  qed (simp add: Pair)
qed

lemma save_topics_extends:
  assumes "\<And>t. 0 < numField t"
  shows "\<exists>s'. save_topics numField (Some db) mapEvents m s = Some (Ok s') \<and> prefix (rows s) (rows s')"
proof (induction m arbitrary: s)
  case (Cons tr m)
  obtain topic records where tr: "tr = (topic, records)" by (cases tr)
  show ?case
  proof (cases "mapEvents topic")
    case None
    with Cons tr show ?thesis by simp
  next
    case (Some event)
    obtain s1 err where s1: "SaveRecords numField (Some db) event records s = Some (Ok (s1, err))" "prefix (rows s) (rows s1)"
      using SaveRecords_extends [of numField event records s] assms by (auto simp: extending_def)
    obtain s2 where "save_topics numField (Some db) mapEvents m s1 = Some (Ok s2)" "prefix (rows s1) (rows s2)"
      using Cons by blast
    with s1 Some tr show ?thesis by (auto intro: prefix_order.trans)
  qed
qed simp

end

subsection \<open>Grouping by topic\<close>

definition records_of :: "map_records \<Rightarrow> string \<Rightarrow> go_any list" where
  "records_of m topic = concat (map snd (filter (\<lambda>(t, rs). t = topic) m))"

lemma add_record_keys: "set (map fst (add_record topic r m)) = insert topic (set (map fst m))"
  by (induction topic r m rule: add_record.induct) auto

lemma add_record_distinct: "distinct (map fst m) \<Longrightarrow> distinct (map fst (add_record topic r m))"
  by (induction topic r m rule: add_record.induct) (auto simp: add_record_keys simp del: set_map)

lemma records_of_simps [simp]:
  "records_of [] topic = []" "records_of ((t, rs) # m) topic = (if t = topic then rs else []) @ records_of m topic"
  by (simp_all add: records_of_def)

lemma records_of_fresh: "topic \<notin> set (map fst m) \<Longrightarrow> records_of m topic = []"
  by (induction m) auto

lemma records_of_add:
  "distinct (map fst m) \<Longrightarrow>
     records_of (add_record topic r m) topic' = records_of m topic' @ (if topic = topic' then [r] else [])"
proof (induction topic r m rule: add_record.induct)
  case (2 topic r t rs m)
  then show ?case using records_of_fresh [of t m] by auto
qed simp

text \<open>The record that a log contributes to its topic.\<close>

definition contribution ::
  "eth_lib \<Rightarrow> string \<Rightarrow> (string \<rightharpoonup> abi_event) \<Rightarrow> eth_log \<Rightarrow> (string \<times> go_any) option" where
  "contribution lib chain mapEvents txLog =
     (case Log_Topics txLog of
        [] \<Rightarrow> None
      | t # _ \<Rightarrow>
          (case mapEvents (EHash_String lib t) of
             None \<Rightarrow> None
           | Some event \<Rightarrow>
               (case parseEventLog lib chain event txLog of
                  Ok (e, model) \<Rightarrow> Some (EHash_String lib t, model) | _ \<Rightarrow> None)))"

text \<open>No log makes the processing panic: it has a topic, and its event converts or fails with an error.\<close>

definition unproblematic :: "eth_lib \<Rightarrow> string \<Rightarrow> (string \<rightharpoonup> abi_event) \<Rightarrow> eth_log \<Rightarrow> bool" where
  "unproblematic lib chain mapEvents txLog \<longleftrightarrow>
     (\<exists>t ts. Log_Topics txLog = t # ts
        \<and> (\<forall>event. mapEvents (EHash_String lib t) = Some event \<longrightarrow> \<not> is_panic (parseEventLog lib chain event txLog)))"

definition add_contribution ::
  "eth_lib \<Rightarrow> string \<Rightarrow> (string \<rightharpoonup> abi_event) \<Rightarrow> eth_log \<Rightarrow> map_records \<Rightarrow> map_records" where
  "add_contribution lib chain mapEvents txLog m =
     (case contribution lib chain mapEvents txLog of None \<Rightarrow> m | Some (topic, r) \<Rightarrow> add_record topic r m)"

lemma gather_step:
  assumes "unproblematic lib chain mapEvents txLog"
  shows "gather lib chain mapEvents (txLog # logs) m hs =
    gather lib chain mapEvents logs (add_contribution lib chain mapEvents txLog m)
      (if Log_BlockNumber txLog \<in> set hs then hs else hs @ [Log_BlockNumber txLog])"
  using assms
  by (auto simp: unproblematic_def add_contribution_def contribution_def index_at_def Let_def
      split: option.splits outcome.splits)

lemma gather_records:
  "list_all (unproblematic lib chain mapEvents) logs \<Longrightarrow> distinct (map fst m) \<Longrightarrow>
     \<exists>m' hs'. gather lib chain mapEvents logs m hs = Ok (m', hs') \<and> distinct (map fst m')
       \<and> set hs' = set hs \<union> Log_BlockNumber ` set logs
       \<and> (\<forall>topic. records_of m' topic = records_of m topic
            @ [r. (t, r) \<leftarrow> List.map_filter (contribution lib chain mapEvents) logs, t = topic])"
proof (induction logs arbitrary: m hs)
  case (Cons txLog logs)
  let ?m = "add_contribution lib chain mapEvents txLog m"
  let ?hs = "if Log_BlockNumber txLog \<in> set hs then hs else hs @ [Log_BlockNumber txLog]"
  have d: "distinct (map fst ?m)"
    using Cons.prems(2) add_record_distinct by (auto simp: add_contribution_def split: option.splits)
  have r: "records_of ?m topic = records_of m topic
      @ (case contribution lib chain mapEvents txLog of Some (t, r) \<Rightarrow> if t = topic then [r] else [] | None \<Rightarrow> [])" for topic
    using records_of_add [OF Cons.prems(2)] by (auto simp: add_contribution_def split: option.splits)
  obtain m' hs' where g: "gather lib chain mapEvents logs ?m ?hs = Ok (m', hs')" "distinct (map fst m')"
    "set hs' = set ?hs \<union> Log_BlockNumber ` set logs"
    "\<forall>topic. records_of m' topic = records_of ?m topic
       @ [r. (t, r) \<leftarrow> List.map_filter (contribution lib chain mapEvents) logs, t = topic]"
    using Cons.IH [OF _ d, of ?hs] Cons.prems(1) by auto
  have "gather lib chain mapEvents (txLog # logs) m hs = Ok (m', hs')"
    using gather_step Cons.prems(1) g(1) by auto
  moreover have "set hs' = set hs \<union> Log_BlockNumber ` set (txLog # logs)" using g(3) by auto
  moreover have "records_of m' topic = records_of m topic
      @ [r. (t, r) \<leftarrow> List.map_filter (contribution lib chain mapEvents) (txLog # logs), t = topic]" for topic
    using g(4) r [of topic] by (auto simp: map_filter_simps split: option.splits prod.splits)
  ultimately show ?case using g(2) by blast
qed (simp add: map_filter_simps)

subsection \<open>The rows of an event\<close>

text \<open>The table in which the events of a name are stored, with the columns that identify a row.\<close>

definition event_target :: "string \<Rightarrow> (table \<times> string list) option" where
  "event_target name =
     (if name = EVENT_EVM_TOKEN_SENT then Some (TokenSents, [''event_id''])
      else if name = EVENT_EVM_CONTRACT_CALL then Some (ContractCalls, [''event_id''])
      else if name = EVENT_EVM_CONTRACT_CALL_WITH_TOKEN then Some (ContractCallWithTokens, [''event_id''])
      else if name = EVENT_EVM_CONTRACT_CALL_APPROVED then Some (ContractCallApproveds, [''event_id''])
      else if name = EVENT_EVM_REDEEM_TOKEN then Some (EvmRedeemTxs, [''event_id''])
      else if name = EVENT_EVM_COMMAND_EXECUTED then Some (CommandExecuteds, [''command_id''])
      else if name = EVENT_EVM_TOKEN_DEPLOYED then Some (TokenDeployeds, [''source_chain'', ''token_address''])
      else if name = EVENT_EVM_SWITCHED_PHASE then
        Some (SwitchedPhases, [''source_chain'', ''tx_hash'', ''custodian_group_uid'', ''session_sequence''])
      else None)"

fun ev_kind :: "valid_evm_event \<Rightarrow> string" where
  "ev_kind (TokenSent_E _) = EVENT_EVM_TOKEN_SENT"
| "ev_kind (ContractCall_E _) = EVENT_EVM_CONTRACT_CALL"
| "ev_kind (ContractCallWithToken_E _) = EVENT_EVM_CONTRACT_CALL_WITH_TOKEN"
| "ev_kind (ContractCallApproved_E _) = EVENT_EVM_CONTRACT_CALL_APPROVED"
| "ev_kind (RedeemToken_E _) = EVENT_EVM_REDEEM_TOKEN"
| "ev_kind (Executed_E _) = EVENT_EVM_COMMAND_EXECUTED"
| "ev_kind (TokenDeployed_E _) = EVENT_EVM_TOKEN_DEPLOYED"
| "ev_kind (SwitchPhase_E _) = EVENT_EVM_SWITCHED_PHASE"

fun ev_raw :: "valid_evm_event \<Rightarrow> eth_log" where
  "ev_raw (TokenSent_E e) = TS_Raw e"
| "ev_raw (ContractCall_E e) = CC_Raw e"
| "ev_raw (ContractCallWithToken_E e) = CCT_Raw e"
| "ev_raw (ContractCallApproved_E e) = CCA_Raw e"
| "ev_raw (RedeemToken_E e) = RT_Raw e"
| "ev_raw (Executed_E e) = EX_Raw e"
| "ev_raw (TokenDeployed_E e) = TD_Raw e"
| "ev_raw (SwitchPhase_E e) = SP_Raw e"

text \<open>
  Documented behaviour of go-ethereum: decoding a log into an event struct fills the fields named by the ABI and leaves
  the others, \<open>Raw\<close> among them, as they are.
\<close>

definition decodes_in_place :: "eth_lib \<Rightarrow> bool" where
  "decodes_in_place lib \<longleftrightarrow>
     (\<forall>e name data e'. UnpackIntoInterface lib e name data = Ok e' \<longrightarrow> ev_kind e' = ev_kind e \<and> ev_raw e' = ev_raw e)
   \<and> (\<forall>args e vs. ev_kind (Arguments_Copy lib args e vs) = ev_kind e \<and> ev_raw (Arguments_Copy lib args e vs) = ev_raw e)"

lemma new_event_kind: "new_event name raw = Some e \<Longrightarrow> ev_kind e = name \<and> ev_raw e = raw"
  by (auto simp: new_event_def split: if_splits)

lemma parse_kind:
  assumes "decodes_in_place lib" and "parseEventLog lib chain event txLog = Ok (e, r)"
  shows "ev_kind e = Event_Name event \<and> ev_raw e = txLog \<and> event_model lib chain e = Ok r"
proof -
  obtain e0 where e0: "new_event (Event_Name event) txLog = Some e0" "ParseEventData lib txLog event e0 = Ok e"
    and model: "event_model lib chain e = Ok r"
    using assms(2) by (auto simp: parseEventLog_def and_then_Ok_iff wrapf_Ok_iff split: option.splits)
  from e0(2) obtain e1 where "UnpackIntoInterface lib e0 (Event_Name event) (Log_Data txLog) = Ok e1"
    "e = e1 \<or> (\<exists>args vs. e = Arguments_Copy lib args e1 vs)"
    by (auto simp: ParseEventData_def and_then_Ok_iff wrapf_Ok_iff Let_def split: if_splits outcome.splits)
  then have "ev_kind e = ev_kind e0 \<and> ev_raw e = ev_raw e0"
    using assms(1) unfolding decodes_in_place_def by metis
  with new_event_kind [OF e0(1)] model show ?thesis by simp
qed

lemma model_target:
  "event_model lib chain e = Ok r \<Longrightarrow> \<exists>cols. event_target (ev_kind e) = Some (dyn_type r, cols)"
  by (cases e) (auto simp: event_target_def event_names and_then_Ok_iff split: option.splits)

lemma transfer_model:
  assumes "event_model lib chain e = Ok r" and "ev_kind e = EVENT_EVM_TOKEN_SENT"
  shows "\<exists>t. r = Ptr (TokenSentM t) \<and> ts_EventID t = event_id lib (ev_raw e)"
  using assms by (cases e) (auto simp: event_names TokenSentEvent2Model_def Let_def and_then_Ok_iff)

subsection \<open>Saving the rows of an event\<close>

lemma assert_type_complete:
  assumes "\<And>m. table_of m = t \<Longrightarrow> \<exists>x. sel m = Some x \<and> con x = m" and "\<forall>m \<in> set ms. table_of m = t"
  shows "\<exists>rs. assert_type sel t msg (map Ptr ms) = Ok rs \<and> map (map_option con) rs = map Some ms"
  using assms(2)
proof (induction ms)
  case (Cons m ms)
  then obtain rs where "assert_type sel t msg (map Ptr ms) = Ok rs" "map (map_option con) rs = map Some ms" by auto
  moreover obtain x where "sel m = Some x" "con x = m" using assms(1) Cons.prems by auto
  ultimately show ?case by (intro exI [of _ "Some x # rs"]) (simp add: assert_type_def)
qed (simp add: assert_type_def)

text \<open>The call makes this one insert, and reports an error exactly if the insert does.\<close>

definition inserts ::
  "'s gorm \<Rightarrow> table \<Rightarrow> string list \<Rightarrow> model list \<Rightarrow> 's \<Rightarrow> ('s \<times> go_error option) outcome \<Rightarrow> bool" where
  "inserts db t cols ms s r \<longleftrightarrow>
     (\<exists>err. r = Ok (fst (Create db t (DoNothing cols) (map Some ms) s), err)
        \<and> (err = None \<longleftrightarrow> snd (Create db t (DoNothing cols) (map Some ms) s) = None))"

lemma with_db_inserts:
  assumes "\<And>m. table_of m = t \<Longrightarrow> \<exists>x. sel m = Some x \<and> con x = m" and "\<forall>m \<in> set ms. table_of m = t"
    and "\<And>rs. snd (save db rs) = None \<longleftrightarrow> snd (Create db t (DoNothing cols) (map (map_option con) rs) s) = None"
    and "\<And>rs. fst (save db rs) = fst (Create db t (DoNothing cols) (map (map_option con) rs) s)"
  shows "inserts db t cols ms s (with_db (Some db) s sel t msg (map Ptr ms) save)"
proof -
  obtain rs where rs: "assert_type sel t msg (map Ptr ms) = Ok rs" "map (map_option con) rs = map Some ms"
    using assert_type_complete [where con = con, OF assms(1,2)] by blast
  then show ?thesis using assms(3,4) [of rs] by (cases "save db rs") (auto simp: with_db_def inserts_def)
qed

lemma sel_complete:
  "table_of m = TokenSents \<Longrightarrow> \<exists>x. sel_TokenSent m = Some x \<and> TokenSentM x = m"
  "table_of m = ContractCalls \<Longrightarrow> \<exists>x. sel_ContractCall m = Some x \<and> ContractCallM x = m"
  "table_of m = ContractCallWithTokens \<Longrightarrow> \<exists>x. sel_ContractCallWithToken m = Some x \<and> ContractCallWithTokenM x = m"
  "table_of m = ContractCallApproveds \<Longrightarrow> \<exists>x. sel_ContractCallApproved m = Some x \<and> ContractCallApprovedM x = m"
  "table_of m = EvmRedeemTxs \<Longrightarrow> \<exists>x. sel_EvmRedeemTx m = Some x \<and> EvmRedeemTxM x = m"
  "table_of m = CommandExecuteds \<Longrightarrow> \<exists>x. sel_CommandExecuted m = Some x \<and> CommandExecutedM x = m"
  "table_of m = TokenDeployeds \<Longrightarrow> \<exists>x. sel_TokenDeployed m = Some x \<and> TokenDeployedM x = m"
  "table_of m = SwitchedPhases \<Longrightarrow> \<exists>x. sel_SwitchedPhase m = Some x \<and> SwitchedPhaseM x = m"
  by (cases m; simp)+

lemma SaveBatchRecords_inserts:
  assumes "event_target (Event_Name event) = Some (t, cols)" and "\<forall>m \<in> set ms. table_of m = t" and "ms \<noteq> []"
  shows "inserts db t cols ms s (SaveBatchRecords (Some db) event (map Ptr ms) s)"
proof -
  have same: "map Ptr ms \<noteq> []" "\<not> \<not> list_all (\<lambda>r. dyn_type r = dyn_type (hd (map Ptr ms))) (map Ptr ms)"
    using assms(2,3) by (cases ms; auto simp: list_all_iff)+
  show ?thesis
    using assms(1,2) unfolding SaveBatchRecords_def event_target_def if_not_P [OF same(1)] if_not_P [OF same(2)]
    by (clarsimp simp: event_names split: if_split_asm)
      (rule with_db_inserts, erule sel_complete, assumption, simp add: save_defs wrap_err_def,
        simp add: save_defs wrap_err_def)+
qed

subsection \<open>What a batch leaves\<close>

text \<open>A row with the identifying columns of the record is there; the record is among those still to be saved.\<close>

definition record_stored :: "columns \<Rightarrow> (string \<rightharpoonup> abi_event) \<Rightarrow> string \<Rightarrow> model \<Rightarrow> model list \<Rightarrow> bool" where
  "record_stored column mapEvents topic x rs \<longleftrightarrow>
     (case mapEvents topic of
        None \<Rightarrow> False
      | Some event \<Rightarrow>
          (case event_target (Event_Name event) of
             None \<Rightarrow> False
           | Some (t, cols) \<Rightarrow> table_of x = t \<and> key column cols x \<in> key column cols ` set rs))"

definition record_due :: "(string \<rightharpoonup> abi_event) \<Rightarrow> map_records \<Rightarrow> string \<Rightarrow> model \<Rightarrow> bool" where
  "record_due mapEvents m topic x \<longleftrightarrow>
     (\<exists>event t cols ms. mapEvents topic = Some event \<and> event_target (Event_Name event) = Some (t, cols)
        \<and> (topic, map Ptr ms) \<in> set m \<and> (\<forall>y \<in> set ms. table_of y = t) \<and> x \<in> set ms)"

text \<open>No log of this topic converts to a nil record, which would make the insert of its batch fail.\<close>

definition nil_free :: "eth_lib \<Rightarrow> string \<Rightarrow> (string \<rightharpoonup> abi_event) \<Rightarrow> string \<Rightarrow> eth_log list \<Rightarrow> bool" where
  "nil_free lib chain mapEvents topic logs \<longleftrightarrow>
     list_all (\<lambda>l. case contribution lib chain mapEvents l of Some (t, TypedNil _) \<Rightarrow> t \<noteq> topic | _ \<Rightarrow> True) logs"

lemma record_stored_mono: "set rs \<subseteq> set rs' \<Longrightarrow> record_stored column mapEvents topic x rs \<Longrightarrow> record_stored column mapEvents topic x rs'"
  by (auto simp: record_stored_def split: option.splits)

lemma contribution_parsed:
  "contribution lib chain mapEvents txLog = Some (topic, r) \<Longrightarrow>
     \<exists>event e. mapEvents topic = Some event \<and> parseEventLog lib chain event txLog = Ok (e, r)"
  by (auto simp: contribution_def split: list.splits option.splits outcome.splits)

lemma contribution_type:
  assumes "decodes_in_place lib" and "contribution lib chain mapEvents txLog = Some (topic, r)"
  shows "\<exists>event cols. mapEvents topic = Some event \<and> event_target (Event_Name event) = Some (dyn_type r, cols)"
  using contribution_parsed [OF assms(2)] parse_kind [OF assms(1)] model_target by metis

lemma records_of_entry:
  assumes "distinct (map fst m)" and "r \<in> set (records_of m topic)"
  shows "(topic, records_of m topic) \<in> set m"
  using assms
proof (induction m)
  case (Cons tr m)
  then show ?case using records_of_fresh [of topic m] by (cases tr) (auto split: if_splits)
qed simp

lemma all_rows: "\<forall>r \<in> set rs. \<exists>x. r = Ptr x \<Longrightarrow> \<exists>ms. rs = map Ptr ms"
  by (induction rs) (auto simp: Cons_eq_map_conv)

lemma contributions_rows:
  assumes "decodes_in_place lib" and "nil_free lib chain mapEvents topic logs"
    and "mapEvents topic = Some event" and "event_target (Event_Name event) = Some (t, cols)"
  shows "\<exists>ms. [r. (t, r) \<leftarrow> List.map_filter (contribution lib chain mapEvents) logs, t = topic] = map Ptr ms
    \<and> (\<forall>y \<in> set ms. table_of y = t)"
proof -
  let ?rs = "[r. (t, r) \<leftarrow> List.map_filter (contribution lib chain mapEvents) logs, t = topic]"
  have rs: "\<exists>x. r = Ptr x \<and> table_of x = t" if r: "r \<in> set ?rs" for r
  proof -
    obtain l where l: "l \<in> set logs" "contribution lib chain mapEvents l = Some (topic, r)"
      using r by (auto simp: List.map_filter_def split: if_splits)
    then have "dyn_type r = t" using contribution_type [OF assms(1) l(2)] assms(3,4) by auto
    moreover have "\<exists>x. r = Ptr x" using assms(2) l by (cases r) (auto simp: nil_free_def list_all_iff)
    ultimately show ?thesis by auto
  qed
  then obtain ms where "?rs = map Ptr ms" using all_rows [of ?rs] by blast
  with rs show ?thesis by auto
qed

lemma gather_due:
  assumes "decodes_in_place lib" and "list_all (unproblematic lib chain mapEvents) logs"
  shows "\<exists>m heights. gather lib chain mapEvents logs [] [] = Ok (m, heights) \<and> set heights = Log_BlockNumber ` set logs
    \<and> (\<forall>txLog \<in> set logs. \<forall>topic x. contribution lib chain mapEvents txLog = Some (topic, Ptr x)
         \<and> nil_free lib chain mapEvents topic logs \<longrightarrow> record_due mapEvents m topic x)"
proof -
  obtain m heights where g: "gather lib chain mapEvents logs [] [] = Ok (m, heights)" "distinct (map fst m)"
    "set heights = Log_BlockNumber ` set logs"
    "\<And>topic. records_of m topic = [r. (t, r) \<leftarrow> List.map_filter (contribution lib chain mapEvents) logs, t = topic]"
    using gather_records [OF assms(2), of "[]" "[]"] by auto
  have "record_due mapEvents m topic x"
    if h: "txLog \<in> set logs" "contribution lib chain mapEvents txLog = Some (topic, Ptr x)"
      "nil_free lib chain mapEvents topic logs" for txLog topic x
  proof -
    obtain event t cols where e: "mapEvents topic = Some event" "event_target (Event_Name event) = Some (t, cols)"
      using contribution_type [OF assms(1) h(2)] by blast
    obtain ms where ms: "records_of m topic = map Ptr ms" "\<forall>y \<in> set ms. table_of y = t"
      using contributions_rows [OF assms(1) h(3) e] g(4) by auto
    have r: "Ptr x \<in> set (records_of m topic)" using h(1,2) unfolding g(4) by (force simp: List.map_filter_def)
    then have "x \<in> set ms" unfolding ms(1) by auto
    moreover have "(topic, map Ptr ms) \<in> set m" using records_of_entry [OF g(2) r] ms(1) by simp
    ultimately show ?thesis unfolding record_due_def using e ms(2) by blast
  qed
  with g(1,3) show ?thesis by blast
qed

context accepting_engine
begin

lemma batch_stored:
  assumes "event_target (Event_Name event) = Some (t, cols)" and "\<forall>m \<in> set ms. table_of m = t"
  shows "\<exists>s'. SaveBatchRecords (Some db) event (map Ptr ms) s = Ok (s', None)
    \<and> set (rows s) \<subseteq> set (rows s') \<and> key column cols ` set ms \<subseteq> key column cols ` set (rows s')"
proof (cases "ms = []")
  case False
  obtain s' where c: "Create db t (DoNothing cols) (map Some ms) s = (s', None)"
    using accepts [of "map Some ms" t cols s] by (auto simp: image_iff) (metis prod.collapse)
  then have "SaveBatchRecords (Some db) event (map Ptr ms) s = Ok (s', None)"
    using SaveBatchRecords_inserts [OF assms False, of db s] by (auto simp: inserts_def)
  moreover have "set (rows s) \<subseteq> set (rows s')" using created(1) [OF c] by auto
  moreover have "key column cols ` set ms \<subseteq> key column cols ` set (rows s')"
    using created(2) [OF c] by (metis image_eqI image_subsetI)
  ultimately show ?thesis by blast
qed (simp add: SaveBatchRecords_def)

lemma chunks_stored:
  assumes "event_target (Event_Name event) = Some (t, cols)" and "\<forall>c \<in> set cs. \<forall>m \<in> set c. table_of m = t"
  shows "\<exists>s'. save_chunks (Some db) event (map (map Ptr) cs) s = Ok (s', None)
    \<and> set (rows s) \<subseteq> set (rows s') \<and> key column cols ` set (concat cs) \<subseteq> key column cols ` set (rows s')"
  using assms(2)
proof (induction cs arbitrary: s)
  case (Cons c cs)
  then have "\<forall>m \<in> set c. table_of m = t" by simp
  then obtain s1 where s1: "SaveBatchRecords (Some db) event (map Ptr c) s = Ok (s1, None)"
    "set (rows s) \<subseteq> set (rows s1)" "key column cols ` set c \<subseteq> key column cols ` set (rows s1)"
    using batch_stored [OF assms(1)] by blast
  moreover obtain s' where "save_chunks (Some db) event (map (map Ptr) cs) s1 = Ok (s', None)"
    "set (rows s1) \<subseteq> set (rows s')" "key column cols ` set (concat cs) \<subseteq> key column cols ` set (rows s')"
    using Cons.IH [of s1] Cons.prems by auto
  moreover have "key column cols ` set (concat (c # cs)) = key column cols ` set c \<union> key column cols ` set (concat cs)"
    by (simp only: concat.simps set_append image_Un)
  ultimately show ?case
    by (intro exI [of _ s'] conjI) (simp, blast, metis Un_least image_mono subset_trans)
qed simp

lemma records_stored:
  assumes "event_target (Event_Name event) = Some (t, cols)" and "\<forall>m \<in> set ms. table_of m = t" and "0 < numField t"
  shows "\<exists>s'. SaveRecords numField (Some db) event (map Ptr ms) s = Some (Ok (s', None))
    \<and> key column cols ` set ms \<subseteq> key column cols ` set (rows s')"
proof (cases "ms = []")
  case False
  then have "dyn_type (hd (map Ptr ms)) = t" using assms(2) by (cases ms) auto
  then obtain n where n: "0 < n" "SaveRecords numField (Some db) event (map Ptr ms) s =
      Some (save_chunks (Some db) event (map (map Ptr) (chunks_of n ms)) s)"
    using SaveRecords_chunks [of numField "map Ptr ms" "Some db" event s] assms(3) by (auto simp: chunks_of_map)
  have "concat (chunks_of n ms) = ms" by (rule concat_chunks_of [OF n(1)])
  then have "\<forall>c \<in> set (chunks_of n ms). \<forall>m \<in> set c. table_of m = t"
    using assms(2) by (metis UN_I set_concat)
  from chunks_stored [OF assms(1) this, of s] n(2) \<open>concat (chunks_of n ms) = ms\<close> show ?thesis by auto
qed (simp add: SaveRecords_def)

lemma topics_stored:
  assumes "\<And>t. 0 < numField t" and "record_due mapEvents m topic x"
    and "save_topics numField (Some db) mapEvents m s = Some (Ok s')"
  shows "record_stored column mapEvents topic x (rows s')"
proof -
  obtain event t cols ms where e: "mapEvents topic = Some event" "event_target (Event_Name event) = Some (t, cols)"
    "(topic, map Ptr ms) \<in> set m" "\<forall>y \<in> set ms. table_of y = t" "x \<in> set ms"
    using assms(2) unfolding record_due_def by blast
  from e(3) assms(3) show ?thesis
  proof (induction m arbitrary: s)
    case (Cons tr m)
    obtain topic' records where tr: "tr = (topic', records)" by (cases tr)
    obtain s1 where s1: "save_topics numField (Some db) mapEvents [tr] s = Some (Ok s1)"
      "save_topics numField (Some db) mapEvents m s1 = Some (Ok s')"
      using save_topics_Cons [of numField mapEvents tr s m] Cons.prems(2) assms(1) by auto
    show ?case
    proof (cases "tr = (topic, map Ptr ms)")
      case True
      then have "key column cols x \<in> key column cols ` set (rows s1)"
        using records_stored [OF e(2,4), of numField s] assms(1) s1(1) e(1,5) by auto
      then have "record_stored column mapEvents topic x (rows s1)" using e(1,2,4,5) by (simp add: record_stored_def)
      moreover have "set (rows s1) \<subseteq> set (rows s')"
        using save_topics_extends [of numField mapEvents m s1] s1(2) assms(1) set_mono_prefix by fastforce
      ultimately show ?thesis by (rule record_stored_mono [rotated])
    next
      case False
      with Cons s1(2) show ?thesis by auto
    qed
  qed simp
qed

lemma logs_processed:
  assumes "decodes_in_place lib" and "\<And>t. 0 < numField t"
    and "\<And>m. set (visit m) = set m" and "list_all (unproblematic lib chain mapEvents) logs"
  shows "\<exists>s' heights. process_logs lib chain numField (Some db) mapEvents visit logs s = Some (Ok (s', heights))
    \<and> prefix (rows s) (rows s') \<and> set heights = Log_BlockNumber ` set logs
    \<and> (\<forall>txLog \<in> set logs. \<forall>topic x. contribution lib chain mapEvents txLog = Some (topic, Ptr x)
         \<and> nil_free lib chain mapEvents topic logs \<longrightarrow> record_stored column mapEvents topic x (rows s'))"
proof -
  obtain m heights where g: "gather lib chain mapEvents logs [] [] = Ok (m, heights)"
    "set heights = Log_BlockNumber ` set logs"
    "\<forall>txLog \<in> set logs. \<forall>topic x. contribution lib chain mapEvents txLog = Some (topic, Ptr x)
       \<and> nil_free lib chain mapEvents topic logs \<longrightarrow> record_due mapEvents m topic x"
    using gather_due [OF assms(1,4)] by blast
  obtain s' where s': "save_topics numField (Some db) mapEvents (visit m) s = Some (Ok s')" "prefix (rows s) (rows s')"
    using save_topics_extends [of numField mapEvents "visit m" s] assms(2) by blast
  have "record_due mapEvents (visit m) topic x = record_due mapEvents m topic x" for topic x
    using assms(3) by (simp add: record_due_def)
  then have "record_due mapEvents m topic x \<longrightarrow> record_stored column mapEvents topic x (rows s')" for topic x
    using topics_stored [OF assms(2) _ s'(1)] by blast
  with g(3) have "\<forall>txLog \<in> set logs. \<forall>topic x. contribution lib chain mapEvents txLog = Some (topic, Ptr x)
       \<and> nil_free lib chain mapEvents topic logs \<longrightarrow> record_stored column mapEvents topic x (rows s')" by blast
  moreover have "process_logs lib chain numField (Some db) mapEvents visit logs s = Some (Ok (s', heights))"
    using g(1) s'(1) by (simp add: process_logs_def)
  ultimately show ?thesis using g(2) s'(2) by blast
qed

end

subsection \<open>Transfers\<close>

text \<open>A log of a token transfer that can be decoded, and that its row is there.\<close>

definition transfer_log :: "eth_lib \<Rightarrow> string \<Rightarrow> (string \<rightharpoonup> abi_event) \<Rightarrow> eth_log \<Rightarrow> bool" where
  "transfer_log lib chain mapEvents txLog \<longleftrightarrow>
     (case Log_Topics txLog of
        [] \<Rightarrow> False
      | t # _ \<Rightarrow>
          (case mapEvents (EHash_String lib t) of
             None \<Rightarrow> False
           | Some event \<Rightarrow>
               Event_Name event = EVENT_EVM_TOKEN_SENT \<and> is_ok (parseEventLog lib chain event txLog)))"

definition transfer_stored :: "eth_lib \<Rightarrow> eth_log \<Rightarrow> model list \<Rightarrow> bool" where
  "transfer_stored lib txLog rs \<longleftrightarrow>
     list_ex (\<lambda>m. case m of TokenSentM t \<Rightarrow> ts_EventID t = event_id lib txLog | _ \<Rightarrow> False) rs"

lemma transfer_stored_iff:
  "transfer_stored lib txLog rs \<longleftrightarrow> (\<exists>t. TokenSentM t \<in> set rs \<and> ts_EventID t = event_id lib txLog)"
  by (induction rs) (auto simp: transfer_stored_def split: model.splits)

lemma transfer_nil_free:
  assumes "decodes_in_place lib" and "mapEvents topic = Some event" and "Event_Name event = EVENT_EVM_TOKEN_SENT"
  shows "nil_free lib chain mapEvents topic logs"
proof -
  have "contribution lib chain mapEvents l \<noteq> Some (topic, TypedNil t)" for l t
    using contribution_parsed [of lib chain mapEvents l topic "TypedNil t"] parse_kind [OF assms(1)]
      transfer_model [of lib chain _ "TypedNil t"] assms(2,3) by fastforce
  then show ?thesis by (auto simp: nil_free_def list_all_iff split: option.splits go_any.splits)
qed

lemma transfer_contribution:
  assumes "decodes_in_place lib" and "transfer_log lib chain mapEvents txLog"
  shows "\<exists>topic event t. contribution lib chain mapEvents txLog = Some (topic, Ptr (TokenSentM t))
    \<and> mapEvents topic = Some event \<and> Event_Name event = EVENT_EVM_TOKEN_SENT \<and> ts_EventID t = event_id lib txLog"
proof -
  obtain h hs event e r where l: "Log_Topics txLog = h # hs" "mapEvents (EHash_String lib h) = Some event"
    "Event_Name event = EVENT_EVM_TOKEN_SENT" "parseEventLog lib chain event txLog = Ok (e, r)"
    using assms(2) by (auto simp: transfer_log_def is_ok_iff split: list.splits option.splits)
  then obtain t where "r = Ptr (TokenSentM t)" "ts_EventID t = event_id lib txLog"
    using parse_kind [OF assms(1) l(4)] transfer_model [of lib chain e r] by auto
  with l show ?thesis by (simp add: contribution_def)
qed

context gorm_engine
begin

lemma record_stored_transfer:
  assumes "record_stored column mapEvents topic (TokenSentM t) rs" and "mapEvents topic = Some event"
    and "Event_Name event = EVENT_EVM_TOKEN_SENT" and "ts_EventID t = event_id lib txLog"
  shows "transfer_stored lib txLog rs"
proof -
  obtain m where m: "m \<in> set rs" "key column [''event_id''] m = key column [''event_id''] (TokenSentM t)"
    using assms(1-3) by (auto simp: record_stored_def event_target_def image_iff)
  then have "\<exists>t'. m = TokenSentM t' \<and> ts_EventID t' = ts_EventID t"
    by (cases m rule: model.exhaust) (auto simp: key_def column_simps)
  with m(1) assms(4) show ?thesis by (auto simp: transfer_stored_iff)
qed

lemma records_stored_transfers:
  assumes "decodes_in_place lib" and "transfer_log lib chain mapEvents txLog"
    and "\<And>topic x. contribution lib chain mapEvents txLog = Some (topic, Ptr x) \<Longrightarrow>
      (\<And>logs. nil_free lib chain mapEvents topic logs) \<Longrightarrow> record_stored column mapEvents topic x rs"
  shows "transfer_stored lib txLog rs"
proof -
  obtain topic event t where c: "contribution lib chain mapEvents txLog = Some (topic, Ptr (TokenSentM t))"
    "mapEvents topic = Some event" "Event_Name event = EVENT_EVM_TOKEN_SENT" "ts_EventID t = event_id lib txLog"
    using transfer_contribution [OF assms(1,2)] by blast
  have "nil_free lib chain mapEvents topic logs" for logs
    by (rule transfer_nil_free [where mapEvents = mapEvents and topic = topic, OF assms(1) c(2,3)])
  from record_stored_transfer [OF assms(3) [OF c(1) this] c(2-4)] show ?thesis .
qed

end


text \<open>An instance: a decoder that fills in the amount of a transfer, and a log of one.\<close>

definition transfer_eth :: eth_lib where
  "transfer_eth = example_eth\<lparr>UnpackIntoInterface := (\<lambda>e _ _. case e of
     TokenSent_E x \<Rightarrow> Ok (TokenSent_E (x\<lparr>TS_Amount := Some 5\<rparr>)) | _ \<Rightarrow> Ok e)\<rparr>"

definition transfer_events :: "string \<rightharpoonup> abi_event" where
  "transfer_events = [EHash_String transfer_eth [1] \<mapsto> example_event EVENT_EVM_TOKEN_SENT]"

definition example_transfer :: "u64 \<Rightarrow> eth_log" where
  "example_transfer n = example_log\<lparr>Log_Topics := [[1]], Log_BlockNumber := n\<rparr>"

lemma transfer_eth_decodes: "decodes_in_place transfer_eth"
  by (auto simp: decodes_in_place_def transfer_eth_def example_eth_def split: valid_evm_event.splits)

lemma example_transfer_parses:
  "\<exists>e m. parseEventLog transfer_eth chain (example_event EVENT_EVM_TOKEN_SENT) (example_transfer n) = Ok (e, m)"
  by (simp add: parseEventLog_def new_event_def example_event_def ParseEventData_def transfer_eth_def
      example_transfer_def getEventIndexedArguments_def TokenSentEvent2Model_def ptr_Uint64_def Let_def)

lemma example_transfer_ok:
  "unproblematic transfer_eth chain transfer_events (example_transfer n)"
  "transfer_log transfer_eth chain transfer_events (example_transfer n)"
  using example_transfer_parses [of chain n]
  by (auto simp: unproblematic_def transfer_log_def transfer_events_def example_transfer_def example_event_def)


end
