(* ===== verification/OrderedQueue.thy ===== *)
theory OrderedQueue
  imports Prelude
begin

text \<open>
  \<open>pkg/types/queue.go\<close>: a queue kept sorted by a comparison function, without duplicates.
  Every method holds the queue's lock for its whole body, so a method is one atomic step
  and a concurrent history is a sequence of method calls. The contract that the comparison
  function has to keep is the locale \<open>comparator\<close>; the contract the queue then gives its
  clients is the locale \<open>priority_set\<close>.
\<close>

section \<open>The queue\<close>

record 'a ordered_queue =
  queue :: "'a list"
  compare :: "'a \<Rightarrow> 'a \<Rightarrow> int"

definition NewOrderedQueue :: "('a \<Rightarrow> 'a \<Rightarrow> int) \<Rightarrow> 'a ordered_queue" where
  "NewOrderedQueue cmp = \<lparr>queue = [], compare = cmp\<rparr>"

text \<open>
  The search loop of \<open>Push\<close>: \<^const>\<open>None\<close> is the early return on a duplicate, otherwise the
  value of \<open>insertPos\<close> when the loop ends.
\<close>

fun push_position :: "('a \<Rightarrow> 'a \<Rightarrow> int) \<Rightarrow> 'a \<Rightarrow> nat \<Rightarrow> nat \<Rightarrow> 'a list \<Rightarrow> nat option" where
  "push_position cmp item i insertPos [] = Some insertPos"
| "push_position cmp item i insertPos (existing # rest) =
     (let c = cmp existing item in
      if c = 0 then None
      else if c < 0 then push_position cmp item (i + 1) (i + 1) rest
      else Some insertPos)"

definition insert_item :: "'a list \<Rightarrow> nat \<Rightarrow> 'a \<Rightarrow> 'a list" where
  "insert_item q insertPos item =
     (if insertPos = length q then q @ [item]
      else
        let q1 = q @ [item];
            q2 = take (insertPos + 1) q1
                   @ copy_to (drop (insertPos + 1) q1)
                       (take (length q1 - 1 - insertPos) (drop insertPos q1))
        in q2[insertPos := item])"

definition Push :: "'a \<Rightarrow> 'a ordered_queue \<Rightarrow> 'a ordered_queue" where
  "Push item q =
     (case push_position (compare q) item 0 0 (queue q) of
        None \<Rightarrow> q
      | Some insertPos \<Rightarrow> q\<lparr>queue := insert_item (queue q) insertPos item\<rparr>)"

text \<open>The pair \<open>(zero, false)\<close> is \<^const>\<open>None\<close>.\<close>

definition Pop :: "'a ordered_queue \<Rightarrow> 'a option \<times> 'a ordered_queue" where
  "Pop q = (case queue q of [] \<Rightarrow> (None, q) | item # rest \<Rightarrow> (Some item, q\<lparr>queue := rest\<rparr>))"

definition Peek :: "'a ordered_queue \<Rightarrow> 'a option" where
  "Peek q = (case queue q of [] \<Rightarrow> None | item # _ \<Rightarrow> Some item)"

definition Len :: "'a ordered_queue \<Rightarrow> nat" where
  "Len q = length (queue q)"

definition IsEmpty :: "'a ordered_queue \<Rightarrow> bool" where
  "IsEmpty q \<longleftrightarrow> Len q = 0"

definition Contains :: "'a \<Rightarrow> 'a ordered_queue \<Rightarrow> bool" where
  "Contains item q \<longleftrightarrow> list_ex (\<lambda>existing. compare q existing item = 0) (queue q)"

definition Clear :: "'a ordered_queue \<Rightarrow> 'a ordered_queue" where
  "Clear q = q\<lparr>queue := []\<rparr>"

definition ToSlice :: "'a ordered_queue \<Rightarrow> 'a list" where
  "ToSlice q = queue q"

section \<open>The contract of the comparison function\<close>

text \<open>The comment on the field: negative for smaller, zero for equal, positive for larger.\<close>

locale comparator =
  fixes cmp :: "'a \<Rightarrow> 'a \<Rightarrow> int"
  assumes cmp_zero: "cmp a b = 0 \<longleftrightarrow> a = b"
    and cmp_swap: "cmp a b < 0 \<longleftrightarrow> 0 < cmp b a"
    and cmp_trans: "cmp a b < 0 \<Longrightarrow> cmp b c < 0 \<Longrightarrow> cmp a c < 0"

text \<open>The representation invariant: strictly increasing with respect to the comparison.\<close>

definition increasing :: "('a \<Rightarrow> 'a \<Rightarrow> int) \<Rightarrow> 'a list \<Rightarrow> bool" where
  "increasing cmp xs \<longleftrightarrow> sorted_wrt (\<lambda>a b. cmp a b < 0) xs"

definition queue_inv :: "'a ordered_queue \<Rightarrow> bool" where
  "queue_inv q \<longleftrightarrow> increasing (compare q) (queue q)"

lemma increasing_simps [simp]:
  "increasing cmp []" "increasing cmp (x # xs) \<longleftrightarrow> (\<forall>y \<in> set xs. cmp x y < 0) \<and> increasing cmp xs"
  by (auto simp: increasing_def)

lemma insert_item_eq:
  assumes "pos \<le> length q"
  shows "insert_item q pos item = take pos q @ item # drop pos q"
proof (cases "pos = length q")
  case False
  with assms have lt: "pos < length q" by simp
  then obtain x where x: "take (pos + 1) (q @ [item]) = take pos q @ [x]"
    by (auto simp: take_Suc_conv_app_nth)
  have "copy_to (drop (pos + 1) (q @ [item])) (take (length q - pos) (drop pos (q @ [item])))
      = drop pos q"
    using lt by (simp add: copy_to_def)
  then show ?thesis
    using lt False x by (simp add: insert_item_def Let_def list_update_append)
qed (simp add: insert_item_def)

lemma push_position_shift:
  "push_position cmp item i i xs = map_option (\<lambda>p. p + i) (push_position cmp item 0 0 xs)"
proof (induction xs arbitrary: i)
  case (Cons x xs)
  from Cons.IH [of "i + 1"] Cons.IH [of 1]
  show ?case by (simp add: Let_def option.map_comp comp_def)
qed simp

text \<open>The reference insertion.\<close>

fun ordered_insert :: "('a \<Rightarrow> 'a \<Rightarrow> int) \<Rightarrow> 'a \<Rightarrow> 'a list \<Rightarrow> 'a list" where
  "ordered_insert cmp item [] = [item]"
| "ordered_insert cmp item (x # xs) =
     (if cmp x item = 0 then x # xs
      else if cmp x item < 0 then x # ordered_insert cmp item xs
      else item # x # xs)"

lemma push_position_le: "push_position cmp item 0 0 xs = Some p \<Longrightarrow> p \<le> length xs"
proof (induction xs arbitrary: p)
  case (Cons x xs)
  then show ?case
    using push_position_shift [of cmp item 1 xs]
    by (auto simp: Let_def split: if_splits)
qed simp

lemma push_ordered_insert:
  "(case push_position cmp item 0 0 xs of None \<Rightarrow> xs
     | Some p \<Rightarrow> take p xs @ item # drop p xs) = ordered_insert cmp item xs"
proof (induction xs)
  case (Cons x xs)
  then show ?case
    using push_position_shift [of cmp item 1 xs]
    by (auto simp: Let_def split: option.splits)
qed simp

lemma Push_queue: "queue (Push item q) = ordered_insert (compare q) item (queue q)"
  using push_ordered_insert [where cmp = "compare q" and item = item and xs = "queue q"]
  by (auto simp: Push_def insert_item_eq push_position_le split: option.splits)

lemma Push_compare [simp]: "compare (Push item q) = compare q"
  by (simp add: Push_def split: option.splits)

lemma Pop_compare [simp]: "compare (snd (Pop q)) = compare q"
  by (simp add: Pop_def split: list.splits)

context comparator
begin

lemma set_ordered_insert: "set (ordered_insert cmp x xs) = insert x (set xs)"
  by (induction xs) (auto simp: cmp_zero)

lemma increasing_ordered_insert:
  "increasing cmp xs \<Longrightarrow> increasing cmp (ordered_insert cmp x xs)"
proof (induction xs)
  case (Cons y ys)
  show ?case
  proof (cases "cmp y x" "0 :: int" rule: linorder_cases)
    case greater
    then have "cmp x y < 0" using cmp_swap by blast
    with greater Cons.prems show ?thesis by (auto intro: cmp_trans)
  qed (use Cons in \<open>auto simp: set_ordered_insert\<close>)
qed simp

lemma increasing_distinct: "increasing cmp xs \<Longrightarrow> distinct xs"
proof (induction xs)
  case (Cons x xs)
  then have "\<forall>y \<in> set xs. cmp x y \<noteq> 0" by auto
  with Cons show ?case by (auto simp: cmp_zero)
qed simp

lemma increasing_least: "increasing cmp (x # xs) \<Longrightarrow> y \<in> set (x # xs) \<Longrightarrow> cmp x y \<le> 0"
  by (auto simp: cmp_zero [THEN iffD2] intro: less_imp_le)

end

lemma push_facts:
  assumes "comparator (compare q)" and "queue_inv q"
  shows "queue_inv (Push x q) \<and> set (ToSlice (Push x q)) = insert x (set (ToSlice q))
    \<and> distinct (ToSlice (Push x q))
    \<and> ToSlice (Push x q) = ordered_insert (compare q) x (ToSlice q)
    \<and> Len (Push x q) = (if Contains x q then Len q else Len q + 1)"
proof -
  note set_ins = comparator.set_ordered_insert [OF assms(1)]
  have inv: "increasing (compare q) (queue (Push x q))"
    using comparator.increasing_ordered_insert [OF assms(1)] assms(2)
    by (simp add: Push_queue queue_inv_def)
  have d: "distinct (queue (Push x q))" "distinct (queue q)"
    using comparator.increasing_distinct [OF assms(1)] inv assms(2)
    by (auto simp: queue_inv_def)
  have c: "Contains x q \<longleftrightarrow> x \<in> set (queue q)"
    by (auto simp: Contains_def list_ex_iff comparator.cmp_zero [OF assms(1)])
  have s: "set (queue (Push x q)) = insert x (set (queue q))"
    by (simp add: Push_queue set_ins)
  have "length (queue (Push x q)) = card (insert x (set (queue q)))"
    using d(1) s by (metis distinct_card)
  then have "Len (Push x q) = (if Contains x q then Len q else Len q + 1)"
    using d(2) by (simp add: Len_def c distinct_card card_insert_if)
  then show ?thesis
    using inv d s by (simp add: queue_inv_def ToSlice_def Push_queue)
qed

text \<open>
  C23: pushing keeps the queue strictly increasing and adds exactly the pushed item; an item
  that is already there changes nothing. The shifting in place that \<open>Push\<close> does is the
  reference insertion into a sorted list.
\<close>

theorem Push_correct:
  assumes "comparator (compare q)" and "queue_inv q"
  shows "queue_inv (Push x q) \<and> set (ToSlice (Push x q)) = insert x (set (ToSlice q))
    \<and> distinct (ToSlice (Push x q))
    \<and> ToSlice (Push x q) = ordered_insert (compare q) x (ToSlice q)
    \<and> Len (Push x q) = (if Contains x q then Len q else Len q + 1)"
  by (rule push_facts [OF assms])

lemma pop_facts:
  assumes "comparator (compare q)" and "queue_inv q"
  shows "queue_inv (snd (Pop q)) \<and> Peek q = fst (Pop q) \<and>
    (case Pop q of
       (None, q') \<Rightarrow> IsEmpty q \<and> q' = q
     | (Some x, q') \<Rightarrow> x \<in> set (ToSlice q) \<and> (\<forall>y \<in> set (ToSlice q). compare q x y \<le> 0)
         \<and> set (ToSlice q') = set (ToSlice q) - {x} \<and> Len q = Len q' + 1)"
proof (cases "queue q")
  case Nil
  with assms(2) show ?thesis by (simp add: Pop_def Peek_def IsEmpty_def Len_def)
next
  case (Cons x xs)
  have inc: "increasing (compare q) (x # xs)" using assms(2) Cons by (simp add: queue_inv_def)
  have d: "distinct (x # xs)" by (rule comparator.increasing_distinct [OF assms(1) inc])
  have least: "\<forall>y \<in> set (x # xs). compare q x y \<le> 0"
    using comparator.increasing_least [OF assms(1) inc] by blast
  show ?thesis
    using inc d least Cons
    by (auto simp: Pop_def Peek_def Len_def ToSlice_def queue_inv_def)
qed

text \<open>
  C25: popping returns the least item and removes exactly it; only an empty queue gives
  nothing. \<open>Peek\<close> announces what \<open>Pop\<close> will return.
\<close>

theorem Pop_correct:
  assumes "comparator (compare q)" and "queue_inv q"
  shows "queue_inv (snd (Pop q)) \<and> Peek q = fst (Pop q) \<and>
    (case Pop q of
       (None, q') \<Rightarrow> IsEmpty q \<and> q' = q
     | (Some x, q') \<Rightarrow> x \<in> set (ToSlice q) \<and> (\<forall>y \<in> set (ToSlice q). compare q x y \<le> 0)
         \<and> set (ToSlice q') = set (ToSlice q) - {x} \<and> Len q = Len q' + 1)"
  by (rule pop_facts [OF assms])

section \<open>The contract towards clients\<close>

text \<open>
  What a client sees: a set of which it can add elements and take the least one. A client
  history is a list of calls; \<open>run_calls\<close> returns the items popped, in order.
\<close>

datatype 'a queue_call = CallPush 'a | CallPop

fun run_calls ::
  "('a \<Rightarrow> 'q \<Rightarrow> 'q) \<Rightarrow> ('q \<Rightarrow> 'a option \<times> 'q) \<Rightarrow> 'a queue_call list \<Rightarrow> 'q \<Rightarrow> 'a list \<times> 'q"
where
  "run_calls push pop [] q = ([], q)"
| "run_calls push pop (CallPush x # cs) q = run_calls push pop cs (push x q)"
| "run_calls push pop (CallPop # cs) q =
     (case pop q of
        (None, q') \<Rightarrow> run_calls push pop cs q'
      | (Some x, q') \<Rightarrow> (let (xs, q'') = run_calls push pop cs q' in (x # xs, q'')))"

fun pushed :: "'a queue_call list \<Rightarrow> 'a set" where
  "pushed [] = {}"
| "pushed (CallPush x # cs) = insert x (pushed cs)"
| "pushed (CallPop # cs) = pushed cs"

locale priority_set =
  fixes push :: "'a :: linorder \<Rightarrow> 'q \<Rightarrow> 'q"
    and pop :: "'q \<Rightarrow> 'a option \<times> 'q"
    and contents :: "'q \<Rightarrow> 'a set"
    and inv :: "'q \<Rightarrow> bool"
  assumes inv_push: "inv q \<Longrightarrow> inv (push x q)"
    and inv_pop: "inv q \<Longrightarrow> inv (snd (pop q))"
    and contents_push: "inv q \<Longrightarrow> contents (push x q) = insert x (contents q)"
    and pop_None: "inv q \<Longrightarrow> fst (pop q) = None \<Longrightarrow> contents q = {} \<and> snd (pop q) = q"
    and pop_Some: "inv q \<Longrightarrow> fst (pop q) = Some x \<Longrightarrow>
      x \<in> contents q \<and> (\<forall>y \<in> contents q. x \<le> y) \<and> contents (snd (pop q)) = contents q - {x}"
begin

lemma run_inv: "inv q \<Longrightarrow> inv (snd (run_calls push pop cs q))"
proof (induction cs arbitrary: q)
  case (Cons c cs)
  show ?case
  proof (cases c)
    case CallPop
    then show ?thesis
      using Cons.IH [of "snd (pop q)"] inv_pop [OF Cons.prems]
      by (auto split: prod.splits option.splits)
  qed (use Cons inv_push in simp)
qed simp

text \<open>Nothing is lost: what was there or was pushed has been popped or is still there.\<close>

lemma run_contents:
  "inv q \<Longrightarrow> run_calls push pop cs q = (xs, q') \<Longrightarrow>
     set xs \<union> contents q' = contents q \<union> pushed cs"
proof (induction cs arbitrary: q xs)
  case (Cons c cs)
  show ?case
  proof (cases c)
    case (CallPush x)
    then show ?thesis
      using Cons.IH [OF inv_push [OF Cons.prems(1), of x], of xs] Cons.prems contents_push by auto
  next
    case CallPop
    obtain r q1 where p: "pop q = (r, q1)" by (cases "pop q")
    have i1: "inv q1" using inv_pop [OF Cons.prems(1)] p by simp
    show ?thesis
    proof (cases r)
      case None
      then show ?thesis
        using Cons.IH [OF i1, of xs] Cons.prems CallPop p pop_None [OF Cons.prems(1)] by simp
    next
      case (Some x)
      then obtain ys where ys: "xs = x # ys" "run_calls push pop cs q1 = (ys, q')"
        using Cons.prems CallPop p by (auto split: prod.splits)
      show ?thesis
        using Cons.IH [OF i1 ys(2)] ys(1) CallPop p Some pop_Some [OF Cons.prems(1), of x] by auto
    qed
  qed
qed simp

text \<open>A run of pops returns items in strictly increasing order.\<close>

lemma pops_increase:
  "inv q \<Longrightarrow> run_calls push pop (replicate n CallPop) q = (xs, q') \<Longrightarrow>
     sorted_wrt (<) xs \<and> set xs \<subseteq> contents q"
proof (induction n arbitrary: q xs)
  case (Suc n)
  obtain r q1 where p: "pop q = (r, q1)" by (cases "pop q")
  have i1: "inv q1" using inv_pop [OF Suc.prems(1)] p by simp
  show ?case
  proof (cases r)
    case None
    then show ?thesis
      using Suc.IH [OF i1, of xs] Suc.prems p pop_None [OF Suc.prems(1)] by simp
  next
    case (Some x)
    then obtain ys where ys: "xs = x # ys" "run_calls push pop (replicate n CallPop) q1 = (ys, q')"
      using Suc.prems p by (auto split: prod.splits)
    have "contents q1 = contents q - {x}" "x \<in> contents q" "\<forall>y \<in> contents q. x \<le> y"
      using pop_Some [OF Suc.prems(1), of x] p Some by auto
    with Suc.IH [OF i1 ys(2)] show ?thesis
      using ys(1) by (auto simp: less_le)
  qed
qed simp

end

end
