(* ===== verification/LogFetcher.thy ===== *)
theory LogFetcher
  imports DatabaseLaws ChainInfo
begin

text \<open>
  \<open>FetchRangeLogs\<close> of \<open>pkg/evm/fetcher.go\<close> and the loops of \<open>pkg/evm/client.go\<close> that call it: the
  recovery of old logs with its checkpoint, and the polling for new ones. The node's answers and the clock
  are arguments of the model. Block numbers are \<open>uint64\<close> and wrap around.
\<close>

section \<open>Model\<close>

subsection \<open>Queries\<close>

record filter_query =
  FromBlock :: int
  ToBlock :: int

definition setQueryRange :: "filter_query \<Rightarrow> u64 \<Rightarrow> u64 \<Rightarrow> u64 \<Rightarrow> filter_query" where
  "setQueryRange query fromBlock recoverRange currentBlockNumber =
     (let toBlock = fromBlock + recoverRange - 1;
          toBlock = (if toBlock > currentBlockNumber then currentBlockNumber else toBlock)
      in query\<lparr>FromBlock := int_of_u64 fromBlock, ToBlock := int_of_u64 toBlock\<rparr>)"

text \<open>
  The regular expression of \<open>extractRecoverRange\<close>. Its group matches digits, commas and double
  quotes; as the text after it starts with a blank, the group takes the whole run of such
  characters, and the leftmost match is the one reported.
\<close>

definition range_prefix :: string where
  "range_prefix = ''You can make eth_getLogs requests with up to a ''"

definition range_suffix :: string where
  "range_suffix = '' block range''"

definition range_char :: "char \<Rightarrow> bool" where
  "range_char c \<longleftrightarrow> digit_val c \<noteq> None \<or> c = CHR '','' \<or> c = CHR 0x22"

definition match_at :: "string \<Rightarrow> string option" where
  "match_at s =
     (if HasPrefix s range_prefix then
        let r = drop (length range_prefix) s; run = takeWhile range_char r in
        if run \<noteq> [] \<and> HasPrefix (dropWhile range_char r) range_suffix then Some run else None
      else None)"

fun find_range :: "string \<Rightarrow> string option" where
  "find_range [] = None"
| "find_range (c # cs) = (case match_at (c # cs) of Some r \<Rightarrow> Some r | None \<Rightarrow> find_range cs)"

definition extractRecoverRange :: "string \<Rightarrow> u64 outcome" where
  "extractRecoverRange errMsg =
     (case find_range errMsg of
        Some m \<Rightarrow>
          (case ParseUint (ReplaceAll_empty CHR '','' m) 64 of
             (value, None) \<Rightarrow> Ok (of_nat value)
           | (_, Some e) \<Rightarrow> Err (Wrapf ''failed to parse number'' e))
      | None \<Rightarrow> Err (Errorf ''no block range match''))"

subsection \<open>FetchRangeLogs\<close>

text \<open>What \<open>FilterLogs\<close> answers: logs, or an error with its message.\<close>

datatype reply = Logs "eth_log list" | Failed string

text \<open>
  The arguments that stay fixed: the chain, the adapter (\<^const>\<open>None\<close> for nil), the last
  block and whether checkpoints are stored. The state: the local variables, the query, the
  log channel's contents and the database.
\<close>

record 's fetch_env =
  fe_chain :: string
  fe_db :: "'s gorm option"
  fe_current :: u64
  fe_store :: bool

record 's fetch_state =
  fs_from :: u64
  fs_range :: u64
  fs_query :: filter_query
  fs_logs :: "eth_log list list"
  fs_counter :: nat
  fs_db :: 's

definition fetch_iteration :: "'s fetch_env \<Rightarrow> (filter_query \<Rightarrow> reply) \<Rightarrow> 's fetch_state \<Rightarrow> 's fetch_state" where
  "fetch_iteration env FilterLogs st =
     (let query = setQueryRange (fs_query st) (fs_from st) (fs_range st) (fe_current env)
      in case FilterLogs query of
           Failed msg \<Rightarrow>
             (case extractRecoverRange msg of
                Ok r \<Rightarrow> st\<lparr>fs_range := r,
                          fs_query := setQueryRange query (fs_from st) r (fe_current env)\<rparr>
              | _ \<Rightarrow> st\<lparr>fs_range := 0, fs_query := query\<rparr>)
         | Logs logs \<Rightarrow>
             let to_block = BigInt_Uint64 (ToBlock query);
                 sent = (if logs = [] then fs_logs st else fs_logs st @ [logs]);
                 db' = (case (fe_store env, fe_db env) of
                          (True, Some db) \<Rightarrow>
                            fst (UpdateLatestFetchedBlock (Some db) (fe_chain env)
                                   \<lparr>cp_ChainID = fe_chain env, cp_LastBlock = to_block\<rparr> (fs_db st))
                        | _ \<Rightarrow> fs_db st)
             in st\<lparr>fs_query := query, fs_logs := sent, fs_counter := fs_counter st + length logs,
                   fs_db := db', fs_from := to_block + 1\<rparr>)"

text \<open>The loop may run forever; \<open>rpc n\<close> answers the \<open>n\<close>-th request.\<close>

partial_function (option) fetch_loop ::
  "'s fetch_env \<Rightarrow> (nat \<Rightarrow> filter_query \<Rightarrow> reply) \<Rightarrow> nat \<Rightarrow> 's fetch_state \<Rightarrow> 's fetch_state option" where
  "fetch_loop env rpc n st =
     (if fs_from st \<le> fe_current env then fetch_loop env rpc (Suc n) (fetch_iteration env (rpc n) st)
      else Some st)"

definition FetchRangeLogs ::
  "'s fetch_env \<Rightarrow> (nat \<Rightarrow> filter_query \<Rightarrow> reply) \<Rightarrow> filter_query \<Rightarrow> u64 \<Rightarrow> u64 \<Rightarrow> 's \<Rightarrow> 's fetch_state option" where
  "FetchRangeLogs env rpc query fromBlock recoverRange s =
     fetch_loop env rpc 0
       \<lparr>fs_from = fromBlock, fs_range = recoverRange, fs_query = query, fs_logs = [], fs_counter = 0, fs_db = s\<rparr>"

text \<open>The pause before the next request, from the time the request took (in milliseconds).\<close>

definition rate_limit_pause :: "int \<Rightarrow> int" where
  "rate_limit_pause elapsed = (if elapsed > 100 then max 0 (100 - elapsed) else 0)"

subsection \<open>Configuration and recovery\<close>

record evm_network_config =
  ChainID :: u64
  evm_Enable :: bool
  ID :: string
  Name :: string
  RPCUrl :: string
  Gateway :: string
  Finality :: int
  FetchIntervalInMinutes :: int
  StartBlock :: u64
  BlockTime :: int
  MaxRetry :: int
  FetchRange :: u64
  RecoverRange :: u64
  evm_FetchThread :: int
  RetryDelay :: int
  evm_DatabaseURL :: string

definition GetChainId :: "evm_network_config \<Rightarrow> u64" where "GetChainId c = ChainID c"
definition GetId :: "evm_network_config \<Rightarrow> string" where "GetId c = ID c"
definition GetName :: "evm_network_config \<Rightarrow> string" where "GetName c = Name c"
definition GetFamily :: "evm_network_config \<Rightarrow> string" where "GetFamily c = ChainType_String ChainTypeEVM"

definition recover_from :: "evm_network_config \<Rightarrow> u64 \<Rightarrow> u64" where
  "recover_from config lastFetchedBlock =
     (let fromBlock = (if lastFetchedBlock > 0 then lastFetchedBlock + 1 else 0)
      in if fromBlock < StartBlock config then StartBlock config else lastFetchedBlock + 1)"

definition recover_range :: "evm_network_config \<Rightarrow> u64" where
  "recover_range config =
     (if RecoverRange config > 0 \<and> RecoverRange config < 1000000 then RecoverRange config else 1000000)"

text \<open>\<open>recoverLogs\<close>: the outer \<^const>\<open>None\<close> is a recovery that never ends.\<close>

definition recoverLogs ::
  "evm_network_config \<Rightarrow> 's gorm option \<Rightarrow> (nat \<Rightarrow> filter_query \<Rightarrow> reply) \<Rightarrow> filter_query \<Rightarrow> u64 \<Rightarrow> 's
   \<Rightarrow> (eth_log list list \<times> 's) option" where
  "recoverLogs config dbAdapter rpc query currentBlockNumber s =
     (let lastFetchedBlock = (case dbAdapter of
            Some db \<Rightarrow> (case GetLatestFetchedBlock (Some db) (GetId config) s of Ok b \<Rightarrow> b | _ \<Rightarrow> 0)
          | None \<Rightarrow> 0);
          fromBlock = recover_from config lastFetchedBlock
      in if fromBlock \<le> currentBlockNumber then
           map_option (\<lambda>st. (fs_logs st, fs_db st))
             (FetchRangeLogs \<lparr>fe_chain = GetId config, fe_db = dbAdapter, fe_current = currentBlockNumber,
                fe_store = True\<rparr> rpc query fromBlock (recover_range config) s)
         else Some ([], s))"

subsection \<open>Polling for new logs\<close>

text \<open>Durations are in nanoseconds.\<close>

definition minute :: int where "minute = 60 * 1000000000"

definition calculateSleepTime :: "evm_network_config \<Rightarrow> int \<Rightarrow> u64 \<Rightarrow> u64 \<Rightarrow> u64 \<Rightarrow> int" where
  "calculateSleepTime config elapsedTime fromBlock currentBlockNumber fetchRange =
     (if fromBlock + fetchRange \<le> currentBlockNumber then 0
      else
        let fetchInterval = FetchIntervalInMinutes config * minute;
            fetchInterval = (if fetchInterval = 0 then minute else fetchInterval)
        in if elapsedTime < fetchInterval then fetchInterval - elapsedTime else 0)"

definition fetch_range_init :: "evm_network_config \<Rightarrow> u64" where
  "fetch_range_init config =
     (if RecoverRange config > 0 \<and> RecoverRange config < 1000 then RecoverRange config else 1000)"

text \<open>
  The local variables of \<open>fetchRealtimeLogs\<close>, with \<open>rt_last\<close> for \<open>lastExecutionTime\<close>, and the ranges it has
  passed to \<open>FetchRangeLogs\<close> so far.
\<close>

record realtime =
  rt_from :: u64
  rt_current :: u64
  rt_range :: u64
  rt_last :: int
  rt_calls :: "(u64 \<times> u64) list"

text \<open>
  What one round observes: the clock when the sleep time is computed, the node's block number
  (\<open>ethclient\<close> returns 0 with an error) and the clock when a fetch starts.
\<close>

record round_input =
  ri_now :: int
  ri_block :: "u64 outcome"
  ri_start :: int

definition block_number :: "u64 outcome \<Rightarrow> u64" where
  "block_number reply = (case reply of Ok b \<Rightarrow> b | _ \<Rightarrow> 0)"

text \<open>
  One round of the loop. \<open>fetch\<close> is the call of \<open>FetchRangeLogs\<close>, of which the round keeps the adjusted
  range; \<^const>\<open>None\<close> is a call that does not return.
\<close>

definition realtime_round ::
  "evm_network_config \<Rightarrow> (u64 \<Rightarrow> u64 \<Rightarrow> u64 \<Rightarrow> u64 option) \<Rightarrow> round_input \<Rightarrow> realtime \<Rightarrow> realtime option" where
  "realtime_round config fetch i st =
     (let sleepTime = calculateSleepTime config (ri_now i - rt_last st) (rt_from st) (rt_current st) (rt_range st);
          current = (if sleepTime > 0 then block_number (ri_block i) else rt_current st)
      in if rt_from st \<le> current then
           map_option (\<lambda>r. \<lparr>rt_from = current + 1, rt_current = current, rt_range = r, rt_last = ri_start i,
                rt_calls = rt_calls st @ [(rt_from st, current)]\<rparr>)
             (fetch (rt_from st) current (rt_range st))
         else Some (st\<lparr>rt_from := current + 1, rt_current := current\<rparr>))"

definition realtime_init :: "evm_network_config \<Rightarrow> u64 \<Rightarrow> u64 outcome \<Rightarrow> int \<Rightarrow> realtime" where
  "realtime_init config startBlock reply now =
     \<lparr>rt_from = startBlock, rt_current = block_number reply, rt_range = fetch_range_init config, rt_last = now,
      rt_calls = []\<rparr>"

fun realtime_rounds ::
  "evm_network_config \<Rightarrow> (u64 \<Rightarrow> u64 \<Rightarrow> u64 \<Rightarrow> u64 option) \<Rightarrow> round_input list \<Rightarrow> realtime \<Rightarrow> realtime option" where
  "realtime_rounds config fetch [] st = Some st"
| "realtime_rounds config fetch (i # is) st =
     Option.bind (realtime_round config fetch i st) (realtime_rounds config fetch is)"

section \<open>One request\<close>

text \<open>Block numbers of a real chain: far below the point where \<open>int64(\<dots>)\<close> turns negative.\<close>

abbreviation small :: "u64 \<Rightarrow> bool" where
  "small w \<equiv> unat w < 2 ^ 63 - 1"

lemma unat_of_nat_small: "n < 2 ^ 63 \<Longrightarrow> unat (of_nat n :: u64) = n"
  by (simp add: unat_of_nat take_bit_nat_eq_self_iff)

lemma BigInt_Uint64_int: "BigInt_Uint64 (int n) = of_nat n"
  by (simp add: BigInt_Uint64_def)

lemma setQueryRange_small:
  assumes "fromBlock \<le> current" and "small current" and "0 < unat r" and "unat r < 2 ^ 63"
  shows "setQueryRange q fromBlock r current =
    q\<lparr>FromBlock := int (unat fromBlock), ToBlock := int (min (unat fromBlock + unat r - 1) (unat current))\<rparr>"
proof -
  let ?m = "unat fromBlock + unat r - 1"
  have le: "unat fromBlock \<le> unat current" using assms(1) by (simp add: word_le_nat_alt)
  have "fromBlock + r - 1 = of_nat ?m" using assms(3) by (simp add: of_nat_diff)
  moreover have "?m < 2 ^ 64" using le assms(2,4) by simp
  ultimately have u: "unat (fromBlock + r - 1) = ?m"
    by (simp add: unat_of_nat take_bit_nat_eq_self_iff)
  have i: "int_of_u64 fromBlock = int (unat fromBlock)" "int_of_u64 current = int (unat current)"
    using le assms(2) by (simp_all add: int_of_u64_small)
  show ?thesis
  proof (cases "?m \<le> unat current")
    case True
    then have "int_of_u64 (fromBlock + r - 1) = int ?m"
      using int_of_u64_small [of "fromBlock + r - 1"] u assms(2) by simp
    with True u i show ?thesis by (simp add: setQueryRange_def Let_def word_less_nat_alt)
  next
    case False
    with u i show ?thesis by (simp add: setQueryRange_def Let_def word_less_nat_alt)
  qed
qed

text \<open>
  A node that serves the logs of a chain (\<open>chain b\<close> are the logs of block \<open>b\<close>): a request is
  answered with the logs of its range, or refused with a message that states a usable range.
\<close>

definition serves :: "(int \<Rightarrow> eth_log list) \<Rightarrow> (nat \<Rightarrow> filter_query \<Rightarrow> reply) \<Rightarrow> bool" where
  "serves chain rpc \<longleftrightarrow>
     (\<forall>n q. rpc n q = Logs (concat (map chain [FromBlock q..ToBlock q]))
        \<or> (\<exists>msg r. rpc n q = Failed msg \<and> extractRecoverRange msg = Ok r \<and> 0 < unat r \<and> unat r < 2 ^ 63))"

definition fetch_inv :: "(int \<Rightarrow> eth_log list) \<Rightarrow> nat \<Rightarrow> 's fetch_env \<Rightarrow> 's fetch_state \<Rightarrow> bool" where
  "fetch_inv chain first env st \<longleftrightarrow>
     first \<le> unat (fs_from st) \<and> unat (fs_from st) \<le> unat (fe_current env) + 1
   \<and> 0 < unat (fs_range st) \<and> unat (fs_range st) < 2 ^ 63
   \<and> concat (fs_logs st) = concat (map chain [int first..int (unat (fs_from st)) - 1])
   \<and> fs_counter st = length (concat (fs_logs st))"

lemma upto_nat_append: "a \<le> f \<Longrightarrow> f \<le> t \<Longrightarrow> [int a..int f - 1] @ [int f..int t] = [int a..int t]"
  using upto_append [of "int a" "int f - 1" "int t"] by simp

lemma fetch_iteration_Logs:
  assumes "setQueryRange (fs_query st) (fs_from st) (fs_range st) (fe_current env) = q"
    and "FilterLogs q = Logs logs" and "ToBlock q = int to"
  shows "fs_from (fetch_iteration env FilterLogs st) = of_nat to + 1"
    "fs_range (fetch_iteration env FilterLogs st) = fs_range st"
    "concat (fs_logs (fetch_iteration env FilterLogs st)) = concat (fs_logs st) @ logs"
    "fs_counter (fetch_iteration env FilterLogs st) = fs_counter st + length logs"
  using assms by (auto simp: fetch_iteration_def Let_def BigInt_Uint64_int)

lemma fetch_iteration_Failed:
  assumes "FilterLogs (setQueryRange (fs_query st) (fs_from st) (fs_range st) (fe_current env)) = Failed msg"
    and "extractRecoverRange msg = Ok r"
  shows "fs_from (fetch_iteration env FilterLogs st) = fs_from st"
    "fs_range (fetch_iteration env FilterLogs st) = r"
    "fs_logs (fetch_iteration env FilterLogs st) = fs_logs st"
    "fs_counter (fetch_iteration env FilterLogs st) = fs_counter st"
    "fs_db (fetch_iteration env FilterLogs st) = fs_db st"
  using assms by (auto simp: fetch_iteration_def Let_def)

lemma next_query:
  assumes inv: "fetch_inv chain first env st" and le: "fs_from st \<le> fe_current env" and small: "small (fe_current env)"
  obtains to where "setQueryRange (fs_query st) (fs_from st) (fs_range st) (fe_current env) =
      (fs_query st)\<lparr>FromBlock := int (unat (fs_from st)), ToBlock := int to\<rparr>"
    "unat (fs_from st) \<le> to" "to \<le> unat (fe_current env)" "unat (of_nat to + 1 :: u64) = to + 1"
proof
  let ?to = "min (unat (fs_from st) + unat (fs_range st) - 1) (unat (fe_current env))"
  show "setQueryRange (fs_query st) (fs_from st) (fs_range st) (fe_current env) =
      (fs_query st)\<lparr>FromBlock := int (unat (fs_from st)), ToBlock := int ?to\<rparr>"
    using inv le small by (intro setQueryRange_small) (auto simp: fetch_inv_def)
  show "unat (fs_from st) \<le> ?to" "?to \<le> unat (fe_current env)"
    using inv le by (auto simp: fetch_inv_def word_le_nat_alt)
  then show "unat (of_nat ?to + 1 :: u64) = ?to + 1"
    using small unat_of_nat_small [of "?to + 1"] by (simp add: add.commute)
qed

lemma fetch_iteration_inv:
  assumes inv: "fetch_inv chain first env st" and le: "fs_from st \<le> fe_current env"
    and small: "small (fe_current env)" and serves: "serves chain rpc"
  shows "fetch_inv chain first env (fetch_iteration env (rpc n) st)
    \<and> ((\<exists>q msg. rpc n q = Failed msg) \<or> unat (fs_from st) < unat (fs_from (fetch_iteration env (rpc n) st)))"
proof -
  define f where "f = unat (fs_from st)"
  obtain to where q: "setQueryRange (fs_query st) (fs_from st) (fs_range st) (fe_current env) =
      (fs_query st)\<lparr>FromBlock := int f, ToBlock := int to\<rparr>" (is "_ = ?q")
    and to: "f \<le> to" "to \<le> unat (fe_current env)" "unat (of_nat to + 1 :: u64) = to + 1"
    using next_query [OF inv le small] unfolding f_def by blast
  have i: "first \<le> f" "0 < unat (fs_range st)" "unat (fs_range st) < 2 ^ 63" "f \<le> unat (fe_current env) + 1"
    "concat (fs_logs st) = concat (map chain [int first..int f - 1])" "fs_counter st = length (concat (fs_logs st))"
    using inv unfolding fetch_inv_def f_def by blast+
  consider (ok) "rpc n ?q = Logs (concat (map chain [int f..int to]))"
    | (failed) msg r where "rpc n ?q = Failed msg" "extractRecoverRange msg = Ok r" "0 < unat r" "unat r < 2 ^ 63"
    using serves [unfolded serves_def, rule_format, of n ?q] by auto
  then show ?thesis
  proof cases
    case ok
    note r = fetch_iteration_Logs [of st env ?q "rpc n", OF q ok, of to]
    have "concat (map chain [int first..int f - 1]) @ concat (map chain [int f..int to]) = concat (map chain [int first..int to])"
      unfolding upto_nat_append [OF i(1) to(1), symmetric] by simp
    with r(3) i(5) have l: "concat (fs_logs (fetch_iteration env (rpc n) st)) = concat (map chain [int first..int to])"
      by simp
    have "fs_counter (fetch_iteration env (rpc n) st) = length (concat (fs_logs (fetch_iteration env (rpc n) st)))"
      using r i(6) by simp
    with l show ?thesis
      unfolding fetch_inv_def using r(1,2) to i(1-4) by (simp add: f_def [symmetric])
  next
    case failed
    note r = fetch_iteration_Failed [of "rpc n" st env, unfolded q, OF failed(1,2)]
    show ?thesis unfolding fetch_inv_def r f_def [symmetric] using i failed by auto
  qed
qed

section \<open>The whole loop\<close>

lemma fetch_loop_done:
  "\<not> fs_from st \<le> fe_current env \<Longrightarrow> fetch_loop env rpc n st = Some st"
  by (simp add: fetch_loop.simps)

lemma fetch_loop_step:
  "fs_from st \<le> fe_current env \<Longrightarrow> fetch_loop env rpc n st = fetch_loop env rpc (Suc n) (fetch_iteration env (rpc n) st)"
  by (simp add: fetch_loop.simps [of env rpc n])

lemma fetch_loop_quiet:
  assumes small: "small (fe_current env)" and serves: "serves chain rpc"
    and quiet: "\<And>m q msg. N \<le> m \<Longrightarrow> rpc m q \<noteq> Failed msg"
    and "fetch_inv chain first env st" and "N \<le> n"
  shows "\<exists>st'. fetch_loop env rpc n st = Some st' \<and> fetch_inv chain first env st' \<and> \<not> fs_from st' \<le> fe_current env"
  using assms(4,5)
proof (induction "unat (fe_current env) + 1 - unat (fs_from st)" arbitrary: n st rule: less_induct)
  case less
  show ?case
  proof (cases "fs_from st \<le> fe_current env")
    case True
    note it = fetch_iteration_inv [OF less.prems(1) True small serves, of n]
    have "unat (fs_from st) < unat (fs_from (fetch_iteration env (rpc n) st))"
      using it quiet less.prems(2) by blast
    moreover have "unat (fs_from st) \<le> unat (fe_current env)" using True by (simp add: word_le_nat_alt)
    ultimately show ?thesis
      using less.hyps [of "fetch_iteration env (rpc n) st" "Suc n"] it less.prems(2) fetch_loop_step [OF True]
      by simp
  qed (use less.prems(1) fetch_loop_done in blast)
qed

lemma fetch_loop_serving:
  assumes small: "small (fe_current env)" and serves: "serves chain rpc"
    and quiet: "\<And>m q msg. N \<le> m \<Longrightarrow> rpc m q \<noteq> Failed msg"
    and "fetch_inv chain first env st"
  shows "\<exists>st'. fetch_loop env rpc n st = Some st' \<and> fetch_inv chain first env st' \<and> \<not> fs_from st' \<le> fe_current env"
  using assms(4)
proof (induction "N - n" arbitrary: n st rule: less_induct)
  case less
  show ?case
  proof (cases "N \<le> n \<or> \<not> fs_from st \<le> fe_current env")
    case True
    then show ?thesis using fetch_loop_quiet [OF small serves quiet less.prems] less.prems fetch_loop_done by blast
  next
    case False
    then have le: "fs_from st \<le> fe_current env" by blast
    show ?thesis
      using less.hyps [of "Suc n" "fetch_iteration env (rpc n) st"] False
        fetch_iteration_inv [OF less.prems le small serves, of n] fetch_loop_step [OF le, of rpc n]
      by auto
  qed
qed

lemma FetchRangeLogs_serving:
  assumes "small (fe_current env)" and "serves chain rpc" and "\<And>m q msg. N \<le> m \<Longrightarrow> rpc m q \<noteq> Failed msg"
    and "unat fromBlock \<le> unat (fe_current env) + 1" and "0 < unat r" and "unat r < 2 ^ 63"
  shows "\<exists>st. FetchRangeLogs env rpc query fromBlock r s = Some st
    \<and> concat (fs_logs st) = concat (map chain [int (unat fromBlock)..int (unat (fe_current env))])
    \<and> fs_counter st = length (concat (fs_logs st)) \<and> unat (fs_from st) = unat (fe_current env) + 1"
proof -
  let ?st = "\<lparr>fs_from = fromBlock, fs_range = r, fs_query = query, fs_logs = [], fs_counter = 0, fs_db = s\<rparr>"
  have "fetch_inv chain (unat fromBlock) env ?st"
    using assms(4,5,6) by (simp add: fetch_inv_def)
  from fetch_loop_serving [OF assms(1,2,3) this, where n = 0] obtain st where
    st: "FetchRangeLogs env rpc query fromBlock r s = Some st" and i: "fetch_inv chain (unat fromBlock) env st"
    and gt: "\<not> fs_from st \<le> fe_current env" unfolding FetchRangeLogs_def by blast
  have "unat (fs_from st) = unat (fe_current env) + 1"
    using i gt by (simp add: fetch_inv_def word_le_nat_alt)
  with i st show ?thesis by (auto simp: fetch_inv_def)
qed

text \<open>
  C8: fetching a range is complete and returns. If the node answers each request with the
  logs of its range, or refuses it with a usable range a finite number of times, then the
  loop ends and has sent every log of the blocks from \<open>fromBlock\<close> to the current one, each
  once and in order.
\<close>

theorem FetchRangeLogs_complete:
  assumes "small (fe_current env)" and "serves chain rpc" and "\<And>m q msg. N \<le> m \<Longrightarrow> rpc m q \<noteq> Failed msg"
    and "unat fromBlock \<le> unat (fe_current env) + 1" and "0 < unat r" and "unat r < 2 ^ 63"
  shows "\<exists>st. FetchRangeLogs env rpc query fromBlock r s = Some st
    \<and> concat (fs_logs st) = concat (map chain [int (unat fromBlock)..int (unat (fe_current env))])
    \<and> fs_counter st = length (concat (fs_logs st)) \<and> unat (fs_from st) = unat (fe_current env) + 1"
  by (rule FetchRangeLogs_serving [OF assms])

text \<open>An instance: one log per block, asked for in ranges of at most two blocks after a refusal.\<close>

definition example_block_log :: "int \<Rightarrow> eth_log list" where
  "example_block_log b = [\<lparr>Log_Address = [], Log_Topics = [], Log_Data = [], Log_BlockNumber = word_of_int b,
     Log_TxHash = [], Log_TxIndex = 0, Log_Index = 0\<rparr>]"

definition example_refusal :: string where
  "example_refusal = range_prefix @ ''2'' @ range_suffix"

definition example_rpc :: "nat \<Rightarrow> filter_query \<Rightarrow> reply" where
  "example_rpc n q = (if n = 0 then Failed example_refusal
     else Logs (concat (map example_block_log [FromBlock q..ToBlock q])))"

lemma match_at_hit:
  assumes "run \<noteq> []" and "list_all range_char run"
  shows "match_at (range_prefix @ run @ range_suffix @ post) = Some run"
proof -
  have b: "\<not> range_char CHR '' ''" by (simp add: range_char_def digit_val_def)
  have "takeWhile range_char (run @ range_suffix @ post) = run" "dropWhile range_char (run @ range_suffix @ post) = range_suffix @ post"
    using assms(2) b by (simp_all add: takeWhile_append2 dropWhile_append2 list_all_iff range_suffix_def)
  then show ?thesis using assms(1) by (simp add: match_at_def Let_def)
qed

lemma match_at_not_Y: "CHR ''Y'' \<noteq> c \<Longrightarrow> match_at (c # cs) = None"
  by (simp add: match_at_def HasPrefix_def range_prefix_def)

lemma find_range_hit:
  assumes "run \<noteq> []" and "list_all range_char run" and "CHR ''Y'' \<notin> set pre"
  shows "find_range (pre @ range_prefix @ run @ range_suffix @ post) = Some run"
  using assms(3)
proof (induction pre)
  case Nil
  have "range_prefix @ run @ range_suffix @ post = CHR ''Y'' # tl range_prefix @ run @ range_suffix @ post"
    by (simp add: range_prefix_def)
  then show ?case using match_at_hit [OF assms(1,2), of post] by (metis append_Nil find_range.simps(2) option.simps(5))
next
  case (Cons c pre)
  then show ?case by (simp add: match_at_not_Y)
qed

lemma decimal_range_chars: "list_all range_char (decimal n)"
  using decimal_digits by (fastforce simp: list_all_iff range_char_def)

lemma decimal_commas: "ReplaceAll_empty CHR '','' (decimal n) = decimal n"
  using decimal_no_comma by (auto simp: ReplaceAll_empty_def filter_id_conv)

text \<open>
  A node's refusal is understood. Whatever stands around it (as long as no other \<open>Y\<close>
  comes first), a message that states a limit below \<open>2 ^ 64\<close> yields exactly that limit.
\<close>

theorem extractRecoverRange_reads_limit:
  assumes "CHR ''Y'' \<notin> set pre" and "n < 2 ^ 64"
  shows "extractRecoverRange (pre @ range_prefix @ decimal n @ range_suffix @ post) = Ok (of_nat n)"
  using find_range_hit [OF decimal_not_Nil decimal_range_chars assms(1)] ParseUint_decimal [OF assms(2)]
  by (simp add: extractRecoverRange_def decimal_commas)

theorem extractRecoverRange_reads_limit_witness:
  "extractRecoverRange (''error: '' @ range_prefix @ decimal 10000 @ range_suffix @ ''.'') = Ok 10000"
  using extractRecoverRange_reads_limit [of "''error: ''" 10000 "''.''"] by simp

lemma example_limit: "extractRecoverRange example_refusal = Ok 2"
proof -
  have "digit_val CHR ''2'' = Some 2" by (simp add: digit_val_def)
  then show ?thesis
    using find_range_hit [of "''2''" "[]" "[]"]
    by (simp add: extractRecoverRange_def example_refusal_def range_char_def ReplaceAll_empty_def ParseUint_def)
qed

lemma example_serves: "serves example_block_log example_rpc"
  using example_limit by (auto simp: serves_def example_rpc_def)

theorem FetchRangeLogs_complete_witness:
  "\<exists>st. FetchRangeLogs \<lparr>fe_chain = ''evm|1'', fe_db = None, fe_current = 7, fe_store = True\<rparr> example_rpc
      \<lparr>FromBlock = 0, ToBlock = 0\<rparr> 3 1000 () = Some st
    \<and> concat (fs_logs st) = concat (map example_block_log [3, 4, 5, 6, 7]) \<and> fs_counter st = 5"
  using FetchRangeLogs_complete [of "\<lparr>fe_chain = ''evm|1'', fe_db = None, fe_current = 7, fe_store = True\<rparr>"
      example_block_log example_rpc 1 3 1000 "\<lparr>FromBlock = 0, ToBlock = 0\<rparr>" "()"] example_serves
  by (auto simp: example_rpc_def upto.simps example_block_log_def)

section \<open>When the loop does not end\<close>

text \<open>With a range of 0 the query runs from a block to the one before it.\<close>

definition stuck :: "u64 \<Rightarrow> 's fetch_env \<Rightarrow> 's fetch_state \<Rightarrow> bool" where
  "stuck b env st \<longleftrightarrow> fs_from st = b \<and> fs_range st = 0"

lemma stuck_iteration:
  assumes "stuck b env st" and "0 < b" and "b \<le> fe_current env" and "small (fe_current env)"
    and "\<And>msg. FilterLogs \<lparr>FromBlock = int (unat b), ToBlock = int (unat b) - 1\<rparr> = Failed msg \<Longrightarrow>
      \<exists>e. extractRecoverRange msg = Err e"
  shows "stuck b env (fetch_iteration env FilterLogs st)"
proof -
  have u: "unat (b - 1) = unat b - 1" "0 < unat b" "unat b \<le> unat (fe_current env)"
    using assms(2,3) by (simp_all add: unat_minus_one word_le_nat_alt unat_gt_0 flip: word_neq_0_conv)
  have "\<not> fe_current env < b - 1" using u by (simp add: word_less_nat_alt)
  moreover have "int_of_u64 b = int (unat b)" "int_of_u64 (b - 1) = int (unat b) - 1"
    using u assms(4) int_of_u64_small [of b] int_of_u64_small [of "b - 1"] by (simp_all add: of_nat_diff)
  ultimately have q: "setQueryRange (fs_query st) (fs_from st) (fs_range st) (fe_current env) =
      \<lparr>FromBlock = int (unat b), ToBlock = int (unat b) - 1\<rparr>"
    using assms(1) by (cases "fs_query st") (simp add: setQueryRange_def stuck_def Let_def)
  have "BigInt_Uint64 (int (unat b) - 1) = b - 1"
    using BigInt_Uint64_int [of "unat b - 1"] u by (simp add: of_nat_diff)
  then show ?thesis
    using assms(1,5) q by (auto simp: fetch_iteration_def Let_def stuck_def split: reply.splits outcome.splits)
qed

text \<open>No error message of the node states a range.\<close>

definition no_hint :: "(nat \<Rightarrow> filter_query \<Rightarrow> reply) \<Rightarrow> bool" where
  "no_hint rpc \<longleftrightarrow> (\<forall>n q msg. rpc n q = Failed msg \<longrightarrow> (\<exists>e. extractRecoverRange msg = Err e))"

lemma stuck_forever:
  "fetch_loop (env :: 's fetch_env) rpc n st = Some st' \<Longrightarrow>
     0 < b \<and> b \<le> fe_current env \<and> small (fe_current env) \<and> no_hint rpc \<longrightarrow> \<not> stuck b env st"
proof (rule fetch_loop.raw_induct [where P = "\<lambda>env rpc n st st'. 0 < b \<and> b \<le> fe_current env
      \<and> small (fe_current env) \<and> no_hint rpc \<longrightarrow> \<not> stuck b env st", rotated])
  fix loop :: "'s fetch_env \<Rightarrow> (nat \<Rightarrow> filter_query \<Rightarrow> reply) \<Rightarrow> nat \<Rightarrow> 's fetch_state \<Rightarrow> 's fetch_state option"
    and env rpc n and st st' :: "'s fetch_state"
  assume ih: "\<And>env rpc n st st'. loop env rpc n st = Some st' \<Longrightarrow>
      0 < b \<and> b \<le> fe_current env \<and> small (fe_current env) \<and> no_hint rpc \<longrightarrow> \<not> stuck b env st"
    and ret: "(if fs_from st \<le> fe_current env then loop env rpc (Suc n) (fetch_iteration env (rpc n) st)
      else Some st) = Some st'"
  show "0 < b \<and> b \<le> fe_current env \<and> small (fe_current env) \<and> no_hint rpc \<longrightarrow> \<not> stuck b env st"
  proof (intro impI notI)
    assume h: "0 < b \<and> b \<le> fe_current env \<and> small (fe_current env) \<and> no_hint rpc" and s: "stuck b env st"
    have "stuck b env (fetch_iteration env (rpc n) st)"
      using h s by (intro stuck_iteration) (auto simp: no_hint_def)
    moreover have "loop env rpc (Suc n) (fetch_iteration env (rpc n) st) = Some st'"
      using ret h s by (simp add: stuck_def)
    ultimately show False using ih h by blast
  qed
qed

text \<open>
  C34: one error that does not state a range, a time-out for instance, stops the recovery for good. The range
  becomes 0, every later query ends before it starts, and although the node answers all later
  requests the loop never returns.
\<close>

theorem unrecognised_error_livelock:
  assumes "0 < fromBlock" and "fromBlock \<le> fe_current env" and "small (fe_current env)"
    and "\<And>q. \<exists>msg. rpc 0 q = Failed msg" and "no_hint rpc"
  shows "FetchRangeLogs env rpc query fromBlock r s = None"
proof (rule ccontr)
  let ?st = "\<lparr>fs_from = fromBlock, fs_range = r, fs_query = query, fs_logs = [], fs_counter = 0, fs_db = s\<rparr>"
  assume "FetchRangeLogs env rpc query fromBlock r s \<noteq> None"
  then obtain st' where "fetch_loop env rpc (Suc 0) (fetch_iteration env (rpc 0) ?st) = Some st'"
    using assms(2) fetch_loop_step [of ?st env rpc 0] by (auto simp: FetchRangeLogs_def)
  moreover obtain msg e where "rpc 0 (setQueryRange query fromBlock r (fe_current env)) = Failed msg"
    "extractRecoverRange msg = Err e"
    using assms(4,5) unfolding no_hint_def by metis
  then have "stuck fromBlock env (fetch_iteration env (rpc 0) ?st)"
    by (simp add: fetch_iteration_def stuck_def Let_def)
  ultimately show False using stuck_forever assms by blast
qed

definition example_timeout_rpc :: "nat \<Rightarrow> filter_query \<Rightarrow> reply" where
  "example_timeout_rpc n q = (if n = 0 then Failed ''timeout''
     else Logs (concat (map example_block_log [FromBlock q..ToBlock q])))"

theorem unrecognised_error_livelock_witness:
  "FetchRangeLogs \<lparr>fe_chain = ''evm|1'', fe_db = None, fe_current = 7, fe_store = True\<rparr> example_timeout_rpc
      \<lparr>FromBlock = 0, ToBlock = 0\<rparr> 3 1000 () = None"
proof (rule unrecognised_error_livelock)
  have "find_range ''timeout'' = None" by (simp add: match_at_not_Y) (simp add: match_at_def HasPrefix_def range_prefix_def)?
  then show "no_hint example_timeout_rpc"
    by (auto simp: no_hint_def example_timeout_rpc_def extractRecoverRange_def)
qed (simp_all add: example_timeout_rpc_def)

section \<open>Recovery\<close>

text \<open>
  The recovery starts at the larger of the configured block and the block after the
  checkpoint (so block 0 is never fetched), and its range is between 1 and 1000000.
\<close>

lemma recover_from_max:
  assumes "lastFetchedBlock \<noteq> - 1"
  shows "recover_from config lastFetchedBlock = max (StartBlock config) (lastFetchedBlock + 1)
    \<and> 0 < recover_range config \<and> recover_range config \<le> 1000000"
proof -
  have p: "0 < lastFetchedBlock + 1" using assms by (simp add: eq_neg_iff_add_eq_0 flip: word_neq_0_conv)
  have one: "w = 1" if "0 < w" "w \<le> 1" for w :: u64
    using that by (simp add: word_less_nat_alt word_le_nat_alt word_unat_eq_iff)
  show ?thesis
    using p one [of "StartBlock config"] by (auto simp: recover_from_def recover_range_def Let_def max_def not_less not_le
        split: if_splits)
qed

definition example_evm_config :: evm_network_config where
  "example_evm_config = \<lparr>ChainID = 1, evm_Enable = True, ID = ''evm|1'', Name = [], RPCUrl = [], Gateway = [],
     Finality = 0, FetchIntervalInMinutes = 1, StartBlock = 50, BlockTime = 0, MaxRetry = 0, FetchRange = 0,
     RecoverRange = 0, evm_FetchThread = 0, RetryDelay = 0, evm_DatabaseURL = []\<rparr>"

lemma recover_from_example:
  "recover_from example_evm_config 99 = 100 \<and> recover_from example_evm_config 0 = 50"
  using recover_from_max [of 99 example_evm_config] recover_from_max [of 0 example_evm_config]
  by (simp add: example_evm_config_def max_def word_le_nat_alt)

section \<open>Polling\<close>

definition blocks :: "u64 \<times> u64 \<Rightarrow> int list" where
  "blocks c = [uint (fst c)..uint (snd c)]"

text \<open>The ranges passed to \<open>FetchRangeLogs\<close> are the blocks from \<open>start\<close> on, in order and without overlap.\<close>

definition covered :: "u64 \<Rightarrow> realtime \<Rightarrow> bool" where
  "covered start st \<longleftrightarrow>
     start \<le> rt_from st \<and> uint (rt_from st) \<le> uint (rt_current st) + 1
   \<and> concat (map blocks (rt_calls st)) = [uint start..uint (rt_from st) - 1]"

lemma uint_inc: "w \<noteq> - 1 \<Longrightarrow> uint (w + 1) = uint w + 1" for w :: u64
proof -
  assume "w \<noteq> - 1"
  then have "1 + w \<noteq> 0" by (simp add: eq_neg_iff_add_eq_0 add.commute)
  from unatSuc [OF this] have "int (unat (w + 1)) = int (unat w) + 1" by (simp add: add.commute)
  then show ?thesis by (simp only: uint_nat)
qed

lemma covered_round:
  assumes "covered start st" and "rt_current st \<le> block_number (ri_block i)" and "block_number (ri_block i) \<noteq> - 1"
    and "\<forall>f t r. \<exists>r'. fetch f t r = Some r'"
  shows "\<exists>st'. realtime_round config fetch i st = Some st' \<and> covered start st'
    \<and> rt_current st' \<in> {rt_current st, block_number (ri_block i)} \<and> rt_from st' = rt_current st' + 1"
proof -
  define c where "c = (if calculateSleepTime config (ri_now i - rt_last st) (rt_from st) (rt_current st) (rt_range st) > 0
    then block_number (ri_block i) else rt_current st)"
  have c: "rt_current st \<le> c" "c \<noteq> - 1" "c \<in> {rt_current st, block_number (ri_block i)}"
    using assms(2,3) antisym [OF word_n1_ge, of "block_number (ri_block i)"] by (auto simp: c_def)
  then have inc: "uint (c + 1) = uint c + 1" by (simp add: uint_inc)
  have round: "realtime_round config fetch i st =
      (if rt_from st \<le> c then
         map_option (\<lambda>r. \<lparr>rt_from = c + 1, rt_current = c, rt_range = r, rt_last = ri_start i,
           rt_calls = rt_calls st @ [(rt_from st, c)]\<rparr>) (fetch (rt_from st) c (rt_range st))
       else Some (st\<lparr>rt_from := c + 1, rt_current := c\<rparr>))"
    by (simp add: realtime_round_def c_def Let_def)
  show ?thesis
  proof (cases "rt_from st \<le> c")
    case True
    obtain r where "fetch (rt_from st) c (rt_range st) = Some r" using assms(4) by blast
    moreover have "[uint start..uint (rt_from st) - 1] @ [uint (rt_from st)..uint c] = [uint start..uint c]"
      using assms(1) True upto_append [of "uint start" "uint (rt_from st) - 1" "uint c"]
      by (simp add: covered_def word_le_def)
    ultimately show ?thesis
      using assms(1) True c inc round by (auto simp: covered_def word_le_def blocks_def)
  next
    case False
    then have "uint (rt_from st) = uint c + 1" using assms(1) c(1) by (simp add: covered_def word_le_def)
    then have "rt_from st = c + 1" using inc by (simp add: word_uint_eq_iff)
    with False assms(1) c inc round show ?thesis by (auto simp: covered_def)
  qed
qed

lemma covered_rounds:
  assumes "\<forall>f t r. \<exists>r'. fetch f t r = Some r'"
  shows "covered start st \<Longrightarrow> sorted (rt_current st # map (\<lambda>i. block_number (ri_block i)) is) \<Longrightarrow>
    - 1 \<notin> set (map (\<lambda>i. block_number (ri_block i)) is) \<Longrightarrow> \<exists>st'. realtime_rounds config fetch is st = Some st' \<and> covered start st'"
proof (induction "is" arbitrary: st)
  case (Cons i "is")
  have "rt_current st \<le> block_number (ri_block i)" "block_number (ri_block i) \<noteq> - 1" using Cons.prems by auto
  from covered_round [OF Cons.prems(1) this assms, of config] obtain st1 where st1: "realtime_round config fetch i st = Some st1"
    "covered start st1" "rt_current st1 \<in> {rt_current st, block_number (ri_block i)}" by blast
  then have "sorted (rt_current st1 # map (\<lambda>i. block_number (ri_block i)) is)" using Cons.prems(2) by auto
  with Cons st1 show ?case by fastforce
qed simp



lemma realtime_round_stalls:
  assumes "fetchInterval = (if FetchIntervalInMinutes config = 0 then minute else FetchIntervalInMinutes config * minute)"
    and "rt_from st = rt_current st + 1" and "rt_current st \<noteq> - 1" and "fetchInterval \<le> ri_now i - rt_last st"
  shows "realtime_round config fetch i st = Some st"
proof -
  have "calculateSleepTime config (ri_now i - rt_last st) (rt_from st) (rt_current st) (rt_range st) = 0"
    using assms(1,4) by (auto simp: calculateSleepTime_def Let_def minute_def)
  moreover have "\<not> rt_current st + 1 \<le> rt_current st"
    using assms(3) by (simp add: word_le_def uint_inc)
  ultimately show ?thesis using assms(2) by (cases st) (simp add: realtime_round_def)
qed

lemma realtime_rounds_stall:
  assumes "fetchInterval = (if FetchIntervalInMinutes config = 0 then minute else FetchIntervalInMinutes config * minute)"
    and "rt_from st = rt_current st + 1" and "rt_current st \<noteq> - 1"
    and "list_all (\<lambda>i. fetchInterval \<le> ri_now i - rt_last st) is"
  shows "realtime_rounds config fetch is st = Some st"
  using assms(4) realtime_round_stalls [OF assms(1,2,3)] by (induction "is") auto

text \<open>
  C33: one round without a new block ends the polling for good. A round that wakes up to the
  block number it already knows (or to an error, taken as block 0) fetches nothing and leaves
  \<open>lastExecutionTime\<close> alone. From then on the interval has always passed, so no round sleeps, and as the
  block number is only asked for after a sleep, no later round ever fetches anything.
\<close>

theorem realtime_stalls:
  assumes "sleepTime = calculateSleepTime config (ri_now i - rt_last st) (rt_from st) (rt_current st) (rt_range st)"
    and "0 < sleepTime" and "block_number (ri_block i) < rt_from st"
    and "list_all (\<lambda>i'. ri_now i + sleepTime \<le> ri_now i') is"
  shows "realtime_rounds config fetch (i # is) st =
    Some (st\<lparr>rt_from := block_number (ri_block i) + 1, rt_current := block_number (ri_block i)\<rparr>)"
proof -
  let ?b = "block_number (ri_block i)"
  let ?st = "st\<lparr>rt_from := ?b + 1, rt_current := ?b\<rparr>"
  define fetchInterval where "fetchInterval =
    (if FetchIntervalInMinutes config = 0 then minute else FetchIntervalInMinutes config * minute)"
  have "sleepTime = fetchInterval - (ri_now i - rt_last st)"
    using assms(1,2) by (auto simp: calculateSleepTime_def fetchInterval_def Let_def minute_def split: if_splits)
  then have "list_all (\<lambda>i. fetchInterval \<le> ri_now i - rt_last ?st) is"
    using assms(4) by (auto simp: list_all_iff)
  moreover have "?b \<noteq> - 1" using assms(3) word_n1_ge [of "rt_from st"] by auto
  ultimately have "realtime_rounds config fetch is ?st = Some ?st"
    by (intro realtime_rounds_stall [OF fetchInterval_def]) simp_all
  moreover have "realtime_round config fetch i st = Some ?st"
    using assms(1,2,3) by (simp add: realtime_round_def Let_def not_le [symmetric])
  ultimately show ?thesis by simp
qed

theorem realtime_stalls_witness:
  "realtime_rounds example_evm_config (\<lambda>_ _ r. Some r)
     [\<lparr>ri_now = 0, ri_block = Ok 100, ri_start = 0\<rparr>, \<lparr>ri_now = minute, ri_block = Ok 500, ri_start = minute\<rparr>,
      \<lparr>ri_now = 9 * minute, ri_block = Ok 900, ri_start = 9 * minute\<rparr>]
     \<lparr>rt_from = 101, rt_current = 100, rt_range = 1000, rt_last = 0, rt_calls = [(90, 100)]\<rparr> =
   Some \<lparr>rt_from = 101, rt_current = 100, rt_range = 1000, rt_last = 0, rt_calls = [(90, 100)]\<rparr>"
  using realtime_stalls [OF refl, of example_evm_config "\<lparr>ri_now = 0, ri_block = Ok 100, ri_start = 0\<rparr>"
      "\<lparr>rt_from = 101, rt_current = 100, rt_range = 1000, rt_last = 0, rt_calls = [(90, 100)]\<rparr>"
      "[\<lparr>ri_now = minute, ri_block = Ok 500, ri_start = minute\<rparr>, \<lparr>ri_now = 9 * minute, ri_block = Ok 900, ri_start = 9 * minute\<rparr>]"
      "\<lambda>_ _ r. Some r"]
  by (simp add: example_evm_config_def calculateSleepTime_def minute_def block_number_def)

end
