(* ===== verification/BlockFetcher.thy ===== *)
theory BlockFetcher
  imports OrderedQueue LogFetcher
begin

text \<open>
  \<open>fetchBlocks\<close> of \<open>pkg/evm/fetcher.go\<close>: block numbers found in logs go into an ordered queue,
  from which a pool of workers fetches the blocks and stores their headers; the pool runs in \<open>EvmPipeline\<close>. The queue's
  contracts are discharged here for the comparison function the pool uses.
\<close>

section \<open>Model\<close>

definition compare_uint64 :: "u64 \<Rightarrow> u64 \<Rightarrow> int" where
  "compare_uint64 a b = (if a < b then -1 else if a > b then 1 else 0)"

definition blockQueue :: "u64 ordered_queue" where
  "blockQueue = NewOrderedQueue compare_uint64"

text \<open>\<open>types.Block\<close>: the parent beacon root is a pointer, nil on blocks that have none.\<close>

record eth_block =
  blk_NumberU64 :: u64
  blk_ParentHash :: hash32
  blk_Hash :: hash32
  blk_Time :: u64
  blk_TxHash :: hash32
  blk_Root :: hash32
  blk_BeaconRoot :: "hash32 option"

definition header_row :: "evm_network_config \<Rightarrow> eth_block \<Rightarrow> block_header outcome" where
  "header_row config block =
     (case blk_BeaconRoot block of
        None \<Rightarrow> Panic NilDereference
      | Some beaconRoot \<Rightarrow>
          Ok \<lparr>bh_Chain = GetId config,
              bh_BlockNumber = blk_NumberU64 block,
              bh_ParentHash = hex_encode (blk_ParentHash block),
              bh_BlockHash = hex_encode (blk_Hash block),
              bh_BlockTime = blk_Time block,
              bh_TxHash = hex_encode (blk_TxHash block),
              bh_Root = hex_encode (blk_Root block),
              bh_BeaconRoot = hex_encode beaconRoot\<rparr>)"

record 's pool =
  pool_queue :: "u64 ordered_queue"
  pool_db :: 's

text \<open>
  What a worker does with a block number: a block that cannot be fetched or is not there is logged and not asked for
  again, and so is a header that cannot be stored.
\<close>

definition fetch_block ::
  "evm_network_config \<Rightarrow> 's gorm option \<Rightarrow> (int \<Rightarrow> eth_block option outcome) \<Rightarrow> u64 \<Rightarrow> 's \<Rightarrow> 's outcome" where
  "fetch_block config dbAdapter BlockByNumber blockNumber s =
     (case BlockByNumber (int_of_u64 blockNumber) of
        Err _ \<Rightarrow> Ok s
      | Panic e \<Rightarrow> Panic e
      | Ok None \<Rightarrow> Ok s
      | Ok (Some block) \<Rightarrow>
          and_then (header_row config block) (\<lambda>blockHeader.
          case dbAdapter of
            None \<Rightarrow> Panic NilDereference
          | Some db \<Rightarrow> Ok (fst (CreateBlockHeader db blockHeader s))))"

definition worker_round ::
  "evm_network_config \<Rightarrow> 's gorm option \<Rightarrow> (int \<Rightarrow> eth_block option outcome) \<Rightarrow> 's pool \<Rightarrow> 's pool outcome" where
  "worker_round config dbAdapter BlockByNumber p =
     (case Pop (pool_queue p) of
        (None, q) \<Rightarrow> Ok (p\<lparr>pool_queue := q\<rparr>)
      | (Some blockNumber, q) \<Rightarrow>
          and_then (fetch_block config dbAdapter BlockByNumber blockNumber (pool_db p))
            (\<lambda>s. Ok (p\<lparr>pool_queue := q, pool_db := s\<rparr>)))"

definition fetch_threads :: "evm_network_config \<Rightarrow> int" where
  "fetch_threads config = (if evm_FetchThread config = 0 then 10 else evm_FetchThread config)"

section \<open>The queue of block numbers\<close>

interpretation u64_cmp: comparator compare_uint64
  by unfold_locales (auto simp: compare_uint64_def split: if_splits)

definition block_queue_inv :: "u64 ordered_queue \<Rightarrow> bool" where
  "block_queue_inv q \<longleftrightarrow> compare q = compare_uint64 \<and> queue_inv q"

lemma compare_le_0: "compare_uint64 x y \<le> 0 \<longleftrightarrow> x \<le> y"
  by (auto simp: compare_uint64_def)

interpretation block_set: priority_set Push Pop "\<lambda>q. set (ToSlice q)" block_queue_inv
proof
  fix q :: "u64 ordered_queue" and x
  assume i: "block_queue_inv q"
  then have c: "comparator (compare q)" "queue_inv q"
    using u64_cmp.comparator_axioms by (simp_all add: block_queue_inv_def)
  note push = push_facts [OF c] and pop = pop_facts [OF c]
  show "set (ToSlice (Push x q)) = insert x (set (ToSlice q))" using push by blast
  show "block_queue_inv (Push x q)" using i push by (simp add: block_queue_inv_def)
  show "block_queue_inv (snd (Pop q))"
    using i pop by (simp add: block_queue_inv_def)
  show "set (ToSlice q) = {} \<and> snd (Pop q) = q" if "fst (Pop q) = None"
    using pop that by (auto simp: IsEmpty_def Len_def ToSlice_def split: prod.splits option.splits)
  show "x \<in> set (ToSlice q) \<and> (\<forall>y \<in> set (ToSlice q). x \<le> y) \<and> set (ToSlice (snd (Pop q))) = set (ToSlice q) - {x}"
    if "fst (Pop q) = Some x"
    using pop that i compare_le_0 by (auto simp: block_queue_inv_def split: prod.splits option.splits)
qed

lemma blockQueue_inv: "block_queue_inv blockQueue" "set (ToSlice blockQueue) = {}"
  by (simp_all add: block_queue_inv_def blockQueue_def NewOrderedQueue_def queue_inv_def ToSlice_def increasing_def)

text \<open>
  The queue between the log processor and the block workers loses nothing. After any history
  of pushes and pops, the block numbers handed out and those still queued are exactly the
  numbers pushed, and what is left is sorted without duplicates.
\<close>

theorem block_queue_complete:
  "case run_calls Push Pop calls blockQueue of (handed_out, q) \<Rightarrow>
     set handed_out \<union> set (ToSlice q) = pushed calls \<and> block_queue_inv q"
  using block_set.run_contents [OF blockQueue_inv(1), of calls] block_set.run_inv [OF blockQueue_inv(1), of calls]
    blockQueue_inv(2)
  by (auto split: prod.splits)

theorem Push_correct_witness:
  "ToSlice (Push 3 (Push 5 blockQueue)) = [3, 5] \<and> distinct (ToSlice (Push 3 (Push 5 blockQueue)))"
proof -
  have i: "block_queue_inv (Push 5 blockQueue)" by (rule block_set.inv_push [OF blockQueue_inv(1)])
  then have c: "comparator (compare (Push 5 blockQueue))" "queue_inv (Push 5 blockQueue)"
    using u64_cmp.comparator_axioms by (simp_all add: block_queue_inv_def)
  have "ToSlice (Push 3 (Push 5 blockQueue)) = [3, 5]"
    by (simp add: Push_def blockQueue_def NewOrderedQueue_def insert_item_def ToSlice_def compare_uint64_def copy_to_def)
  then show ?thesis using Push_correct [OF c, of 3] by blast
qed

theorem Pop_correct_witness:
  "fst (Pop (Push 5 blockQueue)) = Some 5 \<and> queue_inv (snd (Pop (Push 5 blockQueue)))"
proof -
  have i: "block_queue_inv (Push 5 blockQueue)" by (rule block_set.inv_push [OF blockQueue_inv(1)])
  then have c: "comparator (compare (Push 5 blockQueue))" "queue_inv (Push 5 blockQueue)"
    using u64_cmp.comparator_axioms by (simp_all add: block_queue_inv_def)
  from Pop_correct [OF c] show ?thesis
    by (simp add: Push_def Pop_def blockQueue_def NewOrderedQueue_def insert_item_def)
qed

text \<open>
  A worker crashes on a block without a parent beacon root (every block before the Cancun
  upgrade, and chains without it): the root is dereferenced without a check.
\<close>

theorem worker_needs_beacon_root:
  assumes "Pop (pool_queue p) = (Some n, q)" and "BlockByNumber (int_of_u64 n) = Ok (Some block)"
  shows "(\<exists>e. worker_round config (Some db) BlockByNumber p = Panic e) \<longleftrightarrow> blk_BeaconRoot block = None"
  using assms by (auto simp: worker_round_def fetch_block_def header_row_def split: option.splits)

definition example_eth_block :: "hash32 option \<Rightarrow> eth_block" where
  "example_eth_block r = \<lparr>blk_NumberU64 = 5, blk_ParentHash = [], blk_Hash = [], blk_Time = 0, blk_TxHash = [],
     blk_Root = [], blk_BeaconRoot = r\<rparr>"

theorem worker_needs_beacon_root_witness:
  "\<exists>e. worker_round example_evm_config (Some mem_engine) (\<lambda>_. Ok (Some (example_eth_block None)))
     \<lparr>pool_queue = Push 5 blockQueue, pool_db = []\<rparr> = Panic e"
proof -
  have "Pop (Push 5 blockQueue) = (Some 5, blockQueue)"
    by (simp add: Push_def Pop_def blockQueue_def NewOrderedQueue_def insert_item_def)
  then show ?thesis
    using worker_needs_beacon_root [of "\<lparr>pool_queue = Push 5 blockQueue, pool_db = []\<rparr>" 5 blockQueue
        "\<lambda>_. Ok (Some (example_eth_block None))" "example_eth_block None" example_evm_config mem_engine]
    by (simp add: example_eth_block_def)
qed

end
