(* ===== verification/Recovery.thy ===== *)
theory Recovery
  imports LogFetcher
begin

text \<open>
  Restarting the EVM indexer: the recovery of \<open>pkg/evm/client.go\<close> against the checkpoints that
  \<open>FetchRangeLogs\<close> (\<open>pkg/evm/fetcher.go\<close>) stores through \<open>pkg/db/block.go\<close>. The contract of a database that accepts
  and returns checkpoints is the locale \<open>checkpoint_store\<close>.
\<close>

section \<open>Checkpoints\<close>

text \<open>The checkpoint as \<open>recoverLogs\<close> reads it: a failed read counts as 0.\<close>

definition last_checkpoint :: "'s gorm \<Rightarrow> string \<Rightarrow> 's \<Rightarrow> u64" where
  "last_checkpoint db chain s = (case GetLatestFetchedBlock (Some db) chain s of Ok b \<Rightarrow> b | _ \<Rightarrow> 0)"

locale checkpoint_store = gorm_engine +
  assumes checkpoint_accepted: "snd (Create db LogEventCheckPoints oc [Some (LogEventCheckPointM cp)] s) = None"
    and first_answers: "m \<in> set (matching column LogEventCheckPoints c (rows s)) \<Longrightarrow>
      \<exists>m'. First db LogEventCheckPoints c ord s = Ok m'"
begin

lemma checkpoint_roundtrip:
  "last_checkpoint db chain
     (fst (UpdateLatestFetchedBlock (Some db) chain \<lparr>cp_ChainID = chain, cp_LastBlock = b\<rparr> s)) = b"
proof -
  let ?c = "\<lparr>cp_ChainID = chain, cp_LastBlock = b\<rparr>"
  obtain s' where s': "Create db LogEventCheckPoints (DoUpdates [''chain_id''] [''last_block''])
      [Some (LogEventCheckPointM ?c)] s = (s', None)"
    using checkpoint_accepted by (metis prod.collapse)
  obtain c where "LogEventCheckPointM c \<in> set (rows s')" "cp_ChainID c = chain"
    using checkpointed(3) [OF s'] by blast
  then have "LogEventCheckPointM c \<in> set (matching column LogEventCheckPoints (Eq ''chain_id'' (SText chain)) (rows s'))"
    by (simp add: matching_def column_simps)
  then obtain m where m: "First db LogEventCheckPoints (Eq ''chain_id'' (SText chain)) (Some ''last_block'') s' = Ok m"
    using first_answers by blast
  then have "table_of m = LogEventCheckPoints" using first_row [OF m] by (simp add: matching_def)
  then have "\<nexists>e. GetLatestFetchedBlock (Some db) chain s' = Err e"
    by (cases m) (simp_all add: GetLatestFetchedBlock_def m)
  then show ?thesis
    using checkpoint_read [OF s' refl] by (auto simp: UpdateLatestFetchedBlock_def s' last_checkpoint_def)
qed

end

interpretation mem_checkpoints: checkpoint_store mem_engine "\<lambda>s. s" mem_column mem_assign
  by unfold_locales (auto simp: mem_engine_def split: list.splits option.splits)

section \<open>A fetch that is interrupted\<close>

text \<open>The state after \<open>n\<close> rounds of the loop of \<open>FetchRangeLogs\<close>, fewer if it ends before.\<close>

primrec fetch_steps ::
  "'s fetch_env \<Rightarrow> (nat \<Rightarrow> filter_query \<Rightarrow> reply) \<Rightarrow> nat \<Rightarrow> 's fetch_state \<Rightarrow> 's fetch_state" where
  "fetch_steps env rpc 0 st = st"
| "fetch_steps env rpc (Suc n) st =
     (let st' = fetch_steps env rpc n st in
      if fs_from st' \<le> fe_current env then fetch_iteration env (rpc n) st' else st')"

text \<open>These are the states of the loop.\<close>

lemma fetch_steps_loop: "fetch_loop env rpc 0 st = fetch_loop env rpc n (fetch_steps env rpc n st)"
proof (induction n)
  case (Suc n)
  then show ?case
    by (cases "fs_from (fetch_steps env rpc n st) \<le> fe_current env")
      (simp_all add: fetch_loop_done fetch_loop_step Let_def)
qed simp

definition recovery_env :: "evm_network_config \<Rightarrow> 's gorm \<Rightarrow> u64 \<Rightarrow> 's fetch_env" where
  "recovery_env config db cur = \<lparr>fe_chain = GetId config, fe_db = Some db, fe_current = cur, fe_store = True\<rparr>"

definition recovery_state :: "evm_network_config \<Rightarrow> 's gorm \<Rightarrow> filter_query \<Rightarrow> 's \<Rightarrow> 's fetch_state" where
  "recovery_state config db query s = \<lparr>fs_from = recover_from config (last_checkpoint db (GetId config) s),
     fs_range = recover_range config, fs_query = query, fs_logs = [], fs_counter = 0, fs_db = s\<rparr>"

lemma recoverLogs_unfold:
  "recoverLogs config (Some db) rpc query cur s =
     (if fs_from (recovery_state config db query s) \<le> cur
      then map_option (\<lambda>st. (fs_logs st, fs_db st)) (fetch_loop (recovery_env config db cur) rpc 0 (recovery_state config db query s))
      else Some ([], s))"
  by (simp add: recoverLogs_def FetchRangeLogs_def recovery_env_def recovery_state_def last_checkpoint_def)

text \<open>The checkpoint always tells a restarted recovery to continue where the fetch stands.\<close>

definition resumable :: "evm_network_config \<Rightarrow> 's gorm \<Rightarrow> 's fetch_state \<Rightarrow> bool" where
  "resumable config db st \<longleftrightarrow> recover_from config (last_checkpoint db (GetId config) (fs_db st)) = fs_from st"

context checkpoint_store
begin

lemma resumable_iteration:
  assumes "resumable config db st" and "fetch_inv chain first (recovery_env config db cur) st"
    and "fs_from st \<le> cur" and "small cur" and "serves chain rpc" and "unat (StartBlock config) \<le> first"
  shows "resumable config db (fetch_iteration (recovery_env config db cur) (rpc n) st)"
proof -
  let ?env = "recovery_env config db cur"
  have cur: "fe_current ?env = cur" by (simp add: recovery_env_def)
  obtain to where q: "setQueryRange (fs_query st) (fs_from st) (fs_range st) cur =
      (fs_query st)\<lparr>FromBlock := int (unat (fs_from st)), ToBlock := int to\<rparr>" (is "_ = ?q")
    and to: "unat (fs_from st) \<le> to" "to \<le> unat cur" "unat (of_nat to + 1 :: u64) = to + 1"
    using next_query [OF assms(2), unfolded cur, OF assms(3,4)] by blast
  consider (ok) logs where "rpc n ?q = Logs logs"
    | (failed) msg r where "rpc n ?q = Failed msg" "extractRecoverRange msg = Ok r"
    using assms(5) by (fastforce simp: serves_def)
  then show ?thesis
  proof cases
    case ok
    let ?st = "fetch_iteration ?env (rpc n) st"
    have d: "fs_db ?st = fst (UpdateLatestFetchedBlock (Some db) (GetId config)
        \<lparr>cp_ChainID = GetId config, cp_LastBlock = of_nat to\<rparr> (fs_db st))" "fs_from ?st = of_nat to + 1"
      using ok q by (auto simp: fetch_iteration_def recovery_env_def Let_def BigInt_Uint64_int)
    have "(of_nat to :: u64) \<noteq> - 1" using to(3) by auto
    moreover have "StartBlock config \<le> of_nat to + 1"
      using assms(2,6) to by (simp add: word_le_nat_alt fetch_inv_def)
    ultimately have "recover_from config (of_nat to) = of_nat to + 1"
      using recover_from_max [of "of_nat to" config] by (simp add: max_absorb2)
    with d checkpoint_roundtrip show ?thesis by (simp add: resumable_def)
  next
    case failed
    with assms(1) q cur show ?thesis
      using fetch_iteration_Failed [of "rpc n" st ?env msg r] by (simp add: resumable_def)
  qed
qed

lemma resumable_steps:
  assumes "serves chain rpc" and "small cur" and "unat (StartBlock config) \<le> first"
    and "resumable config db st" and "fetch_inv chain first (recovery_env config db cur) st"
  shows "resumable config db (fetch_steps (recovery_env config db cur) rpc n st)
    \<and> fetch_inv chain first (recovery_env config db cur) (fetch_steps (recovery_env config db cur) rpc n st)"
proof (induction n)
  case (Suc n)
  have cur: "fe_current (recovery_env config db cur) = cur" by (simp add: recovery_env_def)
  from Suc show ?case
    using resumable_iteration [OF _ _ _ assms(2,1,3)] fetch_iteration_inv [of chain first "recovery_env config db cur"]
      assms(1,2) cur by (auto simp: Let_def)
qed (use assms in simp)

text \<open>A run of the recovery from a state that has sent the logs of the blocks before it sends the others.\<close>

lemma continues:
  assumes "serves chain rpc" and "\<And>m q msg. N \<le> m \<Longrightarrow> rpc m q \<noteq> Failed msg" and "small cur"
    and "last_checkpoint db (GetId config) s \<noteq> - 1"
    and "fs_from (recovery_state config db query s') = b" and "first \<le> unat b" and "unat b \<le> unat cur + 1"
  shows "\<exists>logs t. recoverLogs config (Some db) rpc query cur s' = Some (logs, t)
    \<and> concat (map chain [int first..int (unat b) - 1]) @ concat logs = concat (map chain [int first..int (unat cur)])"
proof (cases "b \<le> cur")
  case True
  let ?s = "recovery_state config db query s'" and ?env = "recovery_env config db cur"
  have range: "0 < unat (recover_range config)" "unat (recover_range config) < 2 ^ 63"
    using recover_from_max [OF assms(4), of config] by (simp_all add: word_less_nat_alt word_le_nat_alt)
  have "fe_current ?env = cur" by (simp add: recovery_env_def)
  then obtain st where st: "fetch_loop ?env rpc 0 ?s = Some st"
    "concat (fs_logs st) = concat (map chain [int (unat b)..int (unat cur)])"
    using FetchRangeLogs_serving [of ?env chain rpc N b "recover_range config" query s'] assms(1-3,5) True range
    by (auto simp: FetchRangeLogs_def recovery_state_def word_le_nat_alt)
  have "concat (map chain [int first..int (unat cur)]) =
      concat (map chain [int first..int (unat b) - 1]) @ concat (fs_logs st)"
    using upto_nat_append [of first "unat b" "unat cur"] assms(6) True st(2)
    by (metis concat_append map_append word_le_nat_alt)
  with st(1) True assms(5) show ?thesis by (simp add: recoverLogs_unfold)
next
  case False
  then have "unat b = unat cur + 1" using assms(7) by (simp add: word_le_nat_alt)
  with False assms(5) show ?thesis by (simp add: recoverLogs_unfold)
qed

lemma resumes:
  assumes "serves chain rpc" and "serves chain rpc'" and "\<And>m q msg. N \<le> m \<Longrightarrow> rpc' m q \<noteq> Failed msg"
    and "small cur'" and "cur \<le> cur'" and "last_checkpoint db (GetId config) s \<noteq> - 1"
    and "first = fs_from (recovery_state config db query s)" and "first \<le> cur"
    and "st = fetch_steps (recovery_env config db cur) rpc n (recovery_state config db query s)"
  shows "\<exists>logs s'. recoverLogs config (Some db) rpc' query' cur' (fs_db st) = Some (logs, s')
    \<and> concat (fs_logs st) @ concat logs = concat (map chain [int (unat first)..int (unat cur')])"
proof -
  let ?env = "recovery_env config db cur"
  have cur: "small cur" "unat cur \<le> unat cur'" using assms(4,5) by (simp_all add: word_le_nat_alt)
  have range: "0 < unat (recover_range config)" "unat (recover_range config) < 2 ^ 63"
    using recover_from_max [OF assms(6), of config] by (simp_all add: word_less_nat_alt word_le_nat_alt)
  have start: "StartBlock config \<le> first"
    using recover_from_max [OF assms(6), of config] assms(7) by (simp add: recovery_state_def)
  have "fetch_inv chain (unat first) ?env (recovery_state config db query s)"
    using assms(7,8) range by (simp add: fetch_inv_def recovery_env_def recovery_state_def word_le_nat_alt)
  moreover have "resumable config db (recovery_state config db query s)" by (simp add: resumable_def recovery_state_def)
  ultimately have st: "resumable config db st" "fetch_inv chain (unat first) ?env st"
    using resumable_steps [OF assms(1) cur(1)] start assms(9) by (auto simp: word_le_nat_alt)
  then have resume: "fs_from (recovery_state config db query' (fs_db st)) = fs_from st"
    by (simp add: resumable_def recovery_state_def)
  have i: "unat first \<le> unat (fs_from st)" "unat (fs_from st) \<le> unat cur + 1"
    "concat (fs_logs st) = concat (map chain [int (unat first)..int (unat (fs_from st)) - 1])"
    using st(2) by (auto simp: fetch_inv_def recovery_env_def)
  show ?thesis
    using continues [OF assms(2,3,4,6) resume i(1)] i(2,3) cur(2) by simp
qed

end

end
