(* ===== verification/EvmGoroutines.thy ===== *)
theory EvmGoroutines
  imports LogBatch BlockFetcher Recovery "HOL-Library.Multiset"
begin

text \<open>
  The goroutines that \<open>EvmClient.Start\<close> (\<open>pkg/evm/client.go\<close>) runs behind the channel for logs: \<open>ProcessLogsFromFetcher\<close>, which
  stores the events of the logs it receives and sends their block numbers through \<open>blockHeightsChan\<close> to \<open>fetchBlocks\<close>, whose workers store the
  headers. They act on the state they share with those who fetch logs, who are added in \<open>EvmPipeline\<close> and \<open>EvmSystem\<close>: a step is one of a
  goroutine up to its next use of a channel, of the queue or of the database.
\<close>

section \<open>Model\<close>

text \<open>What stays fixed: the client's fields, what the nodes answer, and the block number at the start.\<close>

record 's evm_setup =
  su_lib :: eth_lib
  su_config :: evm_network_config
  su_db :: "'s gorm"
  su_numField :: "table \<Rightarrow> nat"
  su_events :: "string \<rightharpoonup> abi_event"
  su_block :: "int \<Rightarrow> eth_block option outcome"
  su_rpc :: "nat \<Rightarrow> filter_query \<Rightarrow> reply"
  su_current :: u64

text \<open>
  Where \<open>ProcessLogsFromFetcher\<close> stands: at the receive, at the send of the block numbers with the records of the
  batch in hand, or saving what is left of them.
\<close>

datatype processor = Receiving | Sending map_records "u64 list" | Saving map_records

text \<open>
  What the goroutines share: the database, the channels, the received block numbers not yet pushed, the queue and the
  numbers in the hands of its workers. The last two fields record the logs taken from \<open>logsChan\<close> and the numbers that
  a worker has finished with.
\<close>

record 's evm_core =
  sys_db :: 's
  logsChan :: "eth_log list list"
  log_processor :: processor
  blockHeightsChan :: "u64 list list"
  pushing :: "u64 list"
  height_queue :: "u64 ordered_queue"
  busy_workers :: "u64 multiset"
  taken_logs :: "eth_log list"
  finished :: "u64 set"

definition logs_capacity :: nat where "logs_capacity = 1024"
definition heights_capacity :: nat where "heights_capacity = 1024"

inductive ProcessLogsFromFetcher ::
  "'s evm_setup \<Rightarrow> ('s, 'm) evm_core_scheme \<Rightarrow> ('s, 'm) evm_core_scheme \<Rightarrow> bool" for su where
  receive_logs: "log_processor p = Receiving \<Longrightarrow> logsChan p = logs # rest \<Longrightarrow>
     gather (su_lib su) (GetId (su_config su)) (su_events su) logs [] [] = Ok (mapRecords, mapBlockHeights) \<Longrightarrow>
     mset visited = mset mapRecords \<Longrightarrow>
     ProcessLogsFromFetcher su p (p\<lparr>logsChan := rest, log_processor := Sending visited mapBlockHeights,
       taken_logs := taken_logs p @ logs\<rparr>)"
| send_heights: "log_processor p = Sending m heights \<Longrightarrow> length (blockHeightsChan p) < heights_capacity \<Longrightarrow>
     ProcessLogsFromFetcher su p (p\<lparr>log_processor := Saving m, blockHeightsChan := blockHeightsChan p @ [heights]\<rparr>)"
| save_topic: "log_processor p = Saving (tr # m) \<Longrightarrow>
     save_topics (su_numField su) (Some (su_db su)) (su_events su) [tr] (sys_db p) = Some (Ok s) \<Longrightarrow>
     ProcessLogsFromFetcher su p (p\<lparr>sys_db := s, log_processor := Saving m\<rparr>)"
| batch_done: "log_processor p = Saving [] \<Longrightarrow> ProcessLogsFromFetcher su p (p\<lparr>log_processor := Receiving\<rparr>)"

text \<open>A received map of block numbers is visited in any order.\<close>

inductive fetchBlocks ::
  "'s evm_setup \<Rightarrow> ('s, 'm) evm_core_scheme \<Rightarrow> ('s, 'm) evm_core_scheme \<Rightarrow> bool" for su where
  receive_heights: "pushing p = [] \<Longrightarrow> blockHeightsChan p = heights # rest \<Longrightarrow> mset visited = mset heights \<Longrightarrow>
     fetchBlocks su p (p\<lparr>blockHeightsChan := rest, pushing := visited\<rparr>)"
| push_height: "pushing p = h # hs \<Longrightarrow> fetchBlocks su p (p\<lparr>pushing := hs, height_queue := Push h (height_queue p)\<rparr>)"
| worker_pop: "int (size (busy_workers p)) < fetch_threads (su_config su) \<Longrightarrow> Pop (height_queue p) = (Some b, q) \<Longrightarrow>
     fetchBlocks su p (p\<lparr>height_queue := q, busy_workers := add_mset b (busy_workers p)\<rparr>)"
| worker_store: "b \<in># busy_workers p \<Longrightarrow>
     fetch_block (su_config su) (Some (su_db su)) (su_block su) b (sys_db p) = Ok s \<Longrightarrow>
     fetchBlocks su p (p\<lparr>sys_db := s, busy_workers := busy_workers p - {#b#}, finished := insert b (finished p)\<rparr>)"

text \<open>The channels are empty and nobody who reads them has work left.\<close>

definition drained :: "('s, 'm) evm_core_scheme \<Rightarrow> bool" where
  "drained p \<longleftrightarrow> logsChan p = [] \<and> log_processor p = Receiving
     \<and> blockHeightsChan p = [] \<and> pushing p = [] \<and> IsEmpty (height_queue p) \<and> busy_workers p = {#}"

section \<open>Rows that stay\<close>

text \<open>
  Every goroutine keeps the rows of the others: checkpoints are overwritten, and the tables of the Bitcoin clients, who use the same
  database, are their own affair.
\<close>

definition keeps :: "('s \<Rightarrow> model list) \<Rightarrow> 's \<Rightarrow> 's \<Rightarrow> bool" where
  "keeps rows s s' \<longleftrightarrow>
     (\<forall>m \<in> set (rows s). table_of m \<notin> {LogEventCheckPoints, BtcBlockHeaders, VaultTransactions} \<longrightarrow> m \<in> set (rows s'))"

lemma keeps_refl [simp]: "keeps rows s s"
  by (simp add: keeps_def)

lemma keeps_prefix: "prefix (rows s) (rows s') \<Longrightarrow> keeps rows s s'"
  by (auto simp: keeps_def dest: set_mono_prefix)

definition header_stored :: "evm_network_config \<Rightarrow> eth_block \<Rightarrow> model list \<Rightarrow> bool" where
  "header_stored config block rs \<longleftrightarrow>
     list_ex (\<lambda>m. case m of BlockHeaderM h \<Rightarrow> bh_Chain h = GetId config \<and> bh_BlockNumber h = blk_NumberU64 block | _ \<Rightarrow> False) rs"

lemma header_stored_iff:
  "header_stored config block rs \<longleftrightarrow>
     (\<exists>h. BlockHeaderM h \<in> set rs \<and> bh_Chain h = GetId config \<and> bh_BlockNumber h = blk_NumberU64 block)"
  by (induction rs) (auto simp: header_stored_def split: model.splits)

lemma event_target_data:
  "event_target name = Some (t, cols) \<Longrightarrow> t \<notin> {LogEventCheckPoints, BtcBlockHeaders, VaultTransactions}"
  by (auto simp: event_target_def split: if_splits)

lemma record_keeps:
  assumes "keeps rows s s'" and "record_stored column mapEvents topic x (rows s)"
  shows "record_stored column mapEvents topic x (rows s')"
proof -
  obtain event t cols where e: "mapEvents topic = Some event" "event_target (Event_Name event) = Some (t, cols)" "table_of x = t"
    and "key column cols x \<in> key column cols ` set (rows s)"
    using assms(2) by (auto simp: record_stored_def split: option.splits)
  then obtain m where m: "m \<in> set (rows s)" "key column cols m = key column cols x" by (metis imageE)
  then have "table_of m = t" using e(3) by (simp add: key_def)
  then have "m \<in> set (rows s')" using assms(1) m(1) event_target_data [OF e(2)] by (simp add: keeps_def)
  with e m(2) show ?thesis by (auto simp: record_stored_def image_iff intro!: bexI [of _ m])
qed

lemma header_keeps: "keeps rows s s' \<Longrightarrow> header_stored config block (rows s) \<Longrightarrow> header_stored config block (rows s')"
  by (force simp: keeps_def header_stored_iff)

lemmas stored_keeps = record_keeps header_keeps

text \<open>The rows but for the checkpoints.\<close>

definition data_rows :: "model list \<Rightarrow> model list" where
  "data_rows rs = filter (\<lambda>m. table_of m \<noteq> LogEventCheckPoints) rs"

lemma data_rows_keeps:
  assumes "data_rows (rows s') = data_rows (rows s)"
  shows "keeps rows s s'"
proof -
  have "set (data_rows (rows s)) \<subseteq> set (rows s')" unfolding assms [symmetric] by (auto simp: data_rows_def)
  then show ?thesis by (auto simp: data_rows_def keeps_def)
qed

lemma data_rows_transfers:
  "data_rows rs = data_rows rs' \<Longrightarrow> transfer_stored lib l rs = transfer_stored lib l rs'"
proof -
  have "transfer_stored lib l rs \<longleftrightarrow> transfer_stored lib l (data_rows rs)" for rs
    by (auto simp: transfer_stored_iff data_rows_def)
  then show "data_rows rs = data_rows rs' \<Longrightarrow> ?thesis" by metis
qed

lemma data_rows_checkpoint:
  "data_rows (map (\<lambda>m. case m of LogEventCheckPointM c \<Rightarrow>
       if cp_ChainID c = chain then LogEventCheckPointM (c\<lparr>cp_LastBlock := b\<rparr>) else m | _ \<Rightarrow> m) rs) = data_rows rs"
proof (induction rs)
  case (Cons m rs)
  then show ?case by (cases m) (simp_all add: data_rows_def)
qed (simp add: data_rows_def)

context gorm_engine
begin

lemma checkpoint_data_rows:
  "data_rows (rows (fst (UpdateLatestFetchedBlock (Some db) chain \<lparr>cp_ChainID = chain, cp_LastBlock = b\<rparr> s))) =
     data_rows (rows s)"
proof -
  obtain s' err where c: "Create db LogEventCheckPoints (DoUpdates [''chain_id''] [''last_block''])
      [Some (LogEventCheckPointM \<lparr>cp_ChainID = chain, cp_LastBlock = b\<rparr>)] s = (s', err)" by fastforce
  have "data_rows (rows s') = data_rows (rows s)"
  proof (cases err)
    case None
    show ?thesis
      unfolding checkpoint_rows [OF c [unfolded None]] using data_rows_checkpoint by (simp add: data_rows_def)
  next
    case (Some e)
    then show ?thesis using create_err c by simp
  qed
  with c show ?thesis by (simp add: UpdateLatestFetchedBlock_def)
qed

lemma fetch_data_rows:
  assumes "fe_db env = Some db"
  shows "data_rows (rows (fs_db (fetch_iteration env FilterLogs st))) = data_rows (rows (fs_db st))"
  using assms checkpoint_data_rows
  by (auto simp: fetch_iteration_def Let_def split: reply.splits outcome.splits bool.splits)

lemma fetch_keeps:
  "fe_db env = Some db \<Longrightarrow> keeps rows (fs_db st) (fs_db (fetch_iteration env FilterLogs st))"
  by (rule data_rows_keeps) (rule fetch_data_rows)

lemma header_kept:
  "prefix (rows s) (rows (fst (CreateBlockHeader db h s)))"
  unfolding CreateBlockHeader_def by (rule create_nothing_extends)

lemma fetch_block_keeps:
  "fetch_block config (Some db) BlockByNumber b s = Ok s' \<Longrightarrow> keeps rows s s'"
  using header_kept
  by (auto simp: fetch_block_def and_then_Ok_iff intro: keeps_prefix split: outcome.splits option.splits)

lemma save_topics_keeps:
  assumes "\<And>t. 0 < numField t" and "save_topics numField (Some db) mapEvents m s = Some (Ok s')"
  shows "keeps rows s s'"
  using save_topics_extends [of numField mapEvents m s] assms by (auto intro: keeps_prefix)

end

context accepting_engine
begin

lemma header_accepted: "\<exists>r. BlockHeaderM r \<in> set (rows (fst (CreateBlockHeader db h s)))
    \<and> bh_Chain r = bh_Chain h \<and> bh_BlockNumber r = bh_BlockNumber h"
proof -
  let ?cols = "[''chain'', ''block_number'']"
  obtain s' where c: "Create db BlockHeaders (DoNothing ?cols) (map Some [BlockHeaderM h]) s = (s', None)"
    using accepts [of "[Some (BlockHeaderM h)]" BlockHeaders ?cols s] by simp (metis prod.collapse)
  obtain r where r: "r \<in> set (rows s')" "key column ?cols r = key column ?cols (BlockHeaderM h)"
    using created(2) [OF c, of "BlockHeaderM h"] by auto
  then have "\<exists>h'. r = BlockHeaderM h' \<and> bh_Chain h' = bh_Chain h \<and> bh_BlockNumber h' = bh_BlockNumber h"
    by (cases r rule: model.exhaust) (auto simp: key_def column_simps SNum64_def word_uint_eq_iff)
  with r(1) c show ?thesis by (auto simp: CreateBlockHeader_def)
qed

lemma fetch_block_stores:
  assumes "fetch_block config (Some db) BlockByNumber b s = Ok s'" and "BlockByNumber (int_of_u64 b) = Ok (Some block)"
  shows "header_stored config block (rows s')"
proof -
  obtain h where h: "header_row config block = Ok h" "s' = fst (CreateBlockHeader db h s)"
    using assms by (auto simp: fetch_block_def and_then_Ok_iff)
  then have "bh_Chain h = GetId config" "bh_BlockNumber h = blk_NumberU64 block"
    by (auto simp: header_row_def split: option.splits)
  with header_accepted [of h s] h(2) show ?thesis by (auto simp: header_stored_iff)
qed

end

section \<open>Invariants\<close>

text \<open>What the theorems suppose of the logs and blocks: none makes a goroutine panic.\<close>

definition harmless :: "'s evm_setup \<Rightarrow> eth_log set \<Rightarrow> bool" where
  "harmless su L \<longleftrightarrow> (\<forall>l \<in> L. unproblematic (su_lib su) (GetId (su_config su)) (su_events su) l)"

definition harmless_blocks :: "'s evm_setup \<Rightarrow> bool" where
  "harmless_blocks su \<longleftrightarrow>
     (\<forall>n. \<not> is_panic (su_block su n) \<and> (\<forall>block. su_block su n = Ok (Some block) \<longrightarrow> blk_BeaconRoot block \<noteq> None))"

fun pending_records :: "processor \<Rightarrow> map_records" where
  "pending_records Receiving = []"
| "pending_records (Sending m heights) = m"
| "pending_records (Saving m) = m"

fun pending_heights :: "processor \<Rightarrow> u64 list" where
  "pending_heights (Sending m heights) = heights"
| "pending_heights _ = []"

text \<open>The block number of a log that was taken is on its way, or a worker has finished with it.\<close>

definition inv_heights :: "('s, 'm) evm_core_scheme \<Rightarrow> bool" where
  "inv_heights p \<longleftrightarrow> block_queue_inv (height_queue p)
   \<and> Log_BlockNumber ` set (taken_logs p) = set (pending_heights (log_processor p)) \<union> set (concat (blockHeightsChan p))
       \<union> set (pushing p) \<union> set (ToSlice (height_queue p)) \<union> set_mset (busy_workers p) \<union> finished p"

text \<open>
  A record that was taken is stored or among those in hand, if no log of its topic converts to nil, and the
  headers fetched are stored.
\<close>

abbreviation log_record :: "'s evm_setup \<Rightarrow> eth_log \<Rightarrow> (string \<times> go_any) option" where
  "log_record su \<equiv> contribution (su_lib su) (GetId (su_config su)) (su_events su)"

definition clean :: "'s evm_setup \<Rightarrow> eth_log set \<Rightarrow> string \<Rightarrow> bool" where
  "clean su L topic \<longleftrightarrow> (\<forall>l \<in> L. nil_free (su_lib su) (GetId (su_config su)) (su_events su) topic [l])"

definition inv_rows ::
  "'s evm_setup \<Rightarrow> eth_log set \<Rightarrow> columns \<Rightarrow> ('s \<Rightarrow> model list) \<Rightarrow> ('s, 'm) evm_core_scheme \<Rightarrow> bool" where
  "inv_rows su L column rows p \<longleftrightarrow>
     (\<forall>txLog \<in> set (taken_logs p). \<forall>topic x. log_record su txLog = Some (topic, Ptr x) \<and> clean su L topic \<longrightarrow>
        record_stored column (su_events su) topic x (rows (sys_db p))
        \<or> record_due (su_events su) (pending_records (log_processor p)) topic x)
   \<and> (\<forall>b \<in> finished p. \<forall>block. su_block su (int_of_u64 b) = Ok (Some block) \<longrightarrow>
        header_stored (su_config su) block (rows (sys_db p)))"

text \<open>Only logs of a set are on their way to the processor.\<close>

definition sent_within :: "eth_log set \<Rightarrow> ('s, 'm) evm_core_scheme \<Rightarrow> bool" where
  "sent_within L p \<longleftrightarrow> (\<forall>logs \<in> set (logsChan p). set logs \<subseteq> L)"

lemma harmless_batch:
  "harmless su L \<Longrightarrow> set logs \<subseteq> L \<Longrightarrow> list_all (unproblematic (su_lib su) (GetId (su_config su)) (su_events su)) logs"
  by (auto simp: harmless_def list_all_iff)

lemma clean_batch:
  "clean su L topic \<Longrightarrow> set logs \<subseteq> L \<Longrightarrow> nil_free (su_lib su) (GetId (su_config su)) (su_events su) topic logs"
  by (auto simp: clean_def nil_free_def list_all_iff)

lemma gather_facts:
  assumes "decodes_in_place lib" and "list_all (unproblematic lib chain mapEvents) logs"
    and "gather lib chain mapEvents logs [] [] = Ok (m, heights)"
  shows "set heights = Log_BlockNumber ` set logs"
    "txLog \<in> set logs \<Longrightarrow> contribution lib chain mapEvents txLog = Some (topic, Ptr x) \<Longrightarrow>
       nil_free lib chain mapEvents topic logs \<Longrightarrow> record_due mapEvents m topic x"
  using gather_due [OF assms(1,2)] assms(3) by auto

lemma pool_inv_heights:
  assumes "fetchBlocks su p q" and "inv_heights p"
  shows "inv_heights q"
  using assms(1)
proof cases
  case (receive_heights heights rest visited)
  then have "set visited = set heights" by (metis set_mset_mset)
  with receive_heights assms(2) show ?thesis by (auto simp: inv_heights_def)
next
  case (push_height h hs)
  then show ?thesis
    using assms(2) block_set.inv_push [of "height_queue p" h] block_set.contents_push [of "height_queue p" h]
    by (simp add: inv_heights_def Un_ac)
next
  case (worker_pop b q')
  have i: "block_queue_inv (height_queue p)" using assms(2) by (simp add: inv_heights_def)
  have "block_queue_inv q'" "b \<in> set (ToSlice (height_queue p))" "set (ToSlice q') = set (ToSlice (height_queue p)) - {b}"
    using block_set.inv_pop [OF i] block_set.pop_Some [OF i, of b] worker_pop(3) by auto
  then have "block_queue_inv q'" "set (ToSlice (height_queue p)) = insert b (set (ToSlice q'))" by auto
  with worker_pop(1) assms(2) show ?thesis by (simp add: inv_heights_def Un_ac)
next
  case (worker_store b s)
  then obtain w where "busy_workers p = add_mset b w" using multi_member_split by metis
  with worker_store assms(2) show ?thesis by (auto simp: inv_heights_def)
qed

lemma processor_inv_heights:
  assumes "ProcessLogsFromFetcher su p q" and "inv_heights p" and "sent_within L p" and "harmless su L"
    and "decodes_in_place (su_lib su)"
  shows "inv_heights q"
  using assms(1)
proof cases
  case (receive_logs logs rest mapRecords mapBlockHeights visited)
  then have "set logs \<subseteq> L" using assms(3) by (simp add: sent_within_def)
  from gather_facts(1) [OF assms(5) harmless_batch [OF assms(4) this] receive_logs(4)] receive_logs(2) assms(2)
  show ?thesis unfolding receive_logs(1) by (simp add: inv_heights_def image_Un Un_ac)
qed (use assms(2) in \<open>auto simp: inv_heights_def Un_ac simp del: save_topics.simps\<close>)

lemma record_due_cong: "set m = set m' \<Longrightarrow> record_due mapEvents m topic x = record_due mapEvents m' topic x"
  by (simp add: record_due_def)

lemma record_due_Cons:
  "record_due mapEvents (tr # m) topic x \<longleftrightarrow> record_due mapEvents [tr] topic x \<or> record_due mapEvents m topic x"
  unfolding record_due_def list.set by blast

lemma not_due_Nil [simp]: "\<not> record_due mapEvents [] topic x"
  by (simp add: record_due_def)

lemma inv_rows_keeps:
  assumes "inv_rows su L column rows p" and "keeps rows (sys_db p) (sys_db q)" and "taken_logs q = taken_logs p"
    and "pending_records (log_processor q) = pending_records (log_processor p)" and "finished q = finished p"
  shows "inv_rows su L column rows q"
  using assms stored_keeps [OF assms(2)] unfolding inv_rows_def by metis

context accepting_engine
begin

lemma process_inv_rows:
  assumes "ProcessLogsFromFetcher su p q" and "inv_rows su L column rows p" and "sent_within L p"
    and "harmless su L" and "decodes_in_place (su_lib su)" and "su_db su = db" and "\<And>t. 0 < su_numField su t"
  shows "inv_rows su L column rows q"
  using assms(1)
proof cases
  case (receive_logs logs rest mapRecords mapBlockHeights visited)
  have "set visited = set mapRecords" using receive_logs(5) by (metis set_mset_mset)
  moreover have l: "set logs \<subseteq> L" using receive_logs(3) assms(3) by (simp add: sent_within_def)
  ultimately have "record_due (su_events su) visited topic x"
    if "txLog \<in> set logs" "log_record su txLog = Some (topic, Ptr x)" "clean su L topic" for txLog topic x
    using gather_facts(2) [OF assms(5) harmless_batch [OF assms(4) l] receive_logs(4) that(1,2)]
      clean_batch [OF that(3) l] record_due_cong by metis
  with assms(2) receive_logs(2) show ?thesis unfolding receive_logs(1) by (auto simp: inv_rows_def)
next
  case (save_topic tr m s)
  note saved = save_topic(3) [unfolded assms(6)]
  have k: "keeps rows (sys_db p) s" by (rule save_topics_keeps [OF assms(7) saved])
  have "record_stored column (su_events su) topic x (rows s) \<or> record_due (su_events su) m topic x"
    if "record_stored column (su_events su) topic x (rows (sys_db p)) \<or> record_due (su_events su) (tr # m) topic x" for topic x
    using that stored_keeps(1) [OF k] topics_stored [OF assms(7) _ saved] record_due_Cons by metis
  with assms(2) save_topic(2) stored_keeps(2) [OF k] show ?thesis
    unfolding save_topic(1) inv_rows_def by simp
qed (use assms(2) in \<open>simp_all add: inv_rows_def\<close>)

lemma pool_inv_rows:
  assumes "fetchBlocks su p q" and "inv_rows su L column rows p" and "su_db su = db"
  shows "inv_rows su L column rows q"
  using assms(1)
proof cases
  case (worker_store b s)
  note stored = worker_store(3) [unfolded assms(3)]
  note k = fetch_block_keeps [OF stored]
  show ?thesis
    using assms(2) stored_keeps [OF k] fetch_block_stores [OF stored] unfolding worker_store(1) inv_rows_def by auto
qed (use assms(2) in \<open>simp_all add: inv_rows_def\<close>)

end

section \<open>Progress\<close>

context gorm_engine
begin

lemma processor_not_stuck:
  assumes "log_processor p \<noteq> Receiving \<or> logsChan p \<noteq> []" and "blockHeightsChan p = []"
    and "sent_within L p" and "harmless su L" and "decodes_in_place (su_lib su)"
    and "su_db su = db" and "\<And>t. 0 < su_numField su t"
  shows "\<exists>q. ProcessLogsFromFetcher su p q"
proof (cases "log_processor p")
  case Receiving
  then obtain logs rest where l: "logsChan p = logs # rest" using assms(1) by (cases "logsChan p") auto
  then have "set logs \<subseteq> L" using assms(3) by (simp add: sent_within_def)
  then obtain m heights where "gather (su_lib su) (GetId (su_config su)) (su_events su) logs [] [] = Ok (m, heights)"
    using gather_due [OF assms(5) harmless_batch [OF assms(4)]] by blast
  from receive_logs [OF Receiving l this refl] show ?thesis by blast
next
  case (Sending m heights)
  show ?thesis using send_heights [OF Sending, of su] assms(2) by (auto simp: heights_capacity_def)
next
  case (Saving m)
  show ?thesis
  proof (cases m)
    case Nil
    then show ?thesis using batch_done [of p su] Saving by blast
  next
    case (Cons tr m')
    obtain s where "save_topics (su_numField su) (Some (su_db su)) (su_events su) [tr] (sys_db p) = Some (Ok s)"
      using save_topics_extends [of "su_numField su" "su_events su" "[tr]" "sys_db p"] assms(6,7) by blast
    from save_topic [OF Saving [unfolded Cons] this] show ?thesis by blast
  qed
qed

end

lemma fetch_block_harmless:
  assumes "harmless_blocks su"
  shows "\<exists>s'. fetch_block (su_config su) (Some db) (su_block su) b s = Ok s'"
  using assms [unfolded harmless_blocks_def, rule_format, of "int_of_u64 b"]
  by (auto simp: fetch_block_def header_row_def split: outcome.splits option.splits)

lemma pool_not_stuck:
  assumes "blockHeightsChan p \<noteq> [] \<or> pushing p \<noteq> [] \<or> \<not> IsEmpty (height_queue p) \<or> busy_workers p \<noteq> {#}"
    and "harmless_blocks su" and "0 \<le> evm_FetchThread (su_config su)"
  shows "\<exists>q. fetchBlocks su p q"
proof -
  consider b where "b \<in># busy_workers p"
    | h hs where "pushing p = h # hs"
    | hs rest where "pushing p = []" "blockHeightsChan p = hs # rest"
    | "busy_workers p = {#}" "\<not> IsEmpty (height_queue p)"
    using assms(1) by (metis list.exhaust multiset_nonemptyE)
  then show ?thesis
  proof cases
    case (1 b)
    obtain s where "fetch_block (su_config su) (Some (su_db su)) (su_block su) b (sys_db p) = Ok s"
      using fetch_block_harmless [OF assms(2), of "su_db su" b "sys_db p"] by blast
    from worker_store [OF 1 this] show ?thesis by blast
  next
    case 4
    then obtain b q where "Pop (height_queue p) = (Some b, q)"
      by (cases "queue (height_queue p)") (auto simp: IsEmpty_def Len_def Pop_def)
    moreover have "0 < fetch_threads (su_config su)" using assms(3) by (simp add: fetch_threads_def)
    ultimately show ?thesis using 4(1) worker_pop [of p su b q] by auto
  qed (blast intro: push_height receive_heights)+
qed

text \<open>
  What is left to do: first the requests that may still be refused, then the blocks still to be asked for, then
  the steps that the logs and block numbers in hand can still take.
\<close>

fun processor_work :: "processor \<Rightarrow> nat" where
  "processor_work Receiving = 0"
| "processor_work (Sending m heights) = 3 + length m + 3 * length heights"
| "processor_work (Saving m) = 1 + length m"

definition evm_work :: "('s, 'm) evm_core_scheme \<Rightarrow> nat" where
  "evm_work p = (\<Sum>logs \<leftarrow> logsChan p. 4 + 4 * length logs) + processor_work (log_processor p)
     + (\<Sum>heights \<leftarrow> blockHeightsChan p. 1 + 3 * length heights) + 3 * length (pushing p)
     + 2 * Len (height_queue p) + size (busy_workers p)"

lemma add_record_length: "length (add_record topic r m) \<le> Suc (length m)"
  by (induction topic r m rule: add_record.induct) auto

lemma gather_length:
  "gather lib chain mapEvents logs m hs = Ok (m', hs') \<Longrightarrow>
     length m' \<le> length m + length logs \<and> length hs' \<le> length hs + length logs"
proof (induction logs arbitrary: m hs)
  case (Cons txLog logs)
  let ?hs = "if Log_BlockNumber txLog \<in> set hs then hs else hs @ [Log_BlockNumber txLog]"
  obtain t where t: "index_at (Log_Topics txLog) 0 = Ok t" using Cons.prems by (auto simp: Let_def and_then_Ok_iff)
  obtain m1 where "gather lib chain mapEvents logs m1 ?hs = Ok (m', hs')" "length m1 \<le> Suc (length m)"
  proof (cases "mapEvents (EHash_String lib t)")
    case None
    then show ?thesis using Cons.prems t that [of m] by simp
  next
    case (Some event)
    show ?thesis
    proof (cases "parseEventLog lib chain event txLog")
      case (Ok r)
      then show ?thesis
        using Cons.prems t Some that [OF _ add_record_length] by (cases r) (simp add: Let_def)
    qed (use Cons.prems t Some that [of m] in simp_all)
  qed
  with Cons.IH [of m1 ?hs] show ?case by (auto split: if_splits)
qed simp

lemma pop_len: "Pop q = (Some b, q') \<Longrightarrow> Len q = Suc (Len q')"
  by (auto simp: Pop_def Len_def split: list.splits)

lemma push_len: "block_queue_inv q \<Longrightarrow> Len (Push h q) \<le> Suc (Len q)"
  using push_facts [of q h] u64_cmp.comparator_axioms by (auto simp: block_queue_inv_def)

lemma processor_step_work:
  "ProcessLogsFromFetcher su p q \<Longrightarrow> evm_work q < evm_work p"
proof (induction rule: ProcessLogsFromFetcher.induct)
  case (receive_logs p logs rest mapRecords mapBlockHeights visited)
  then have "length visited = length mapRecords" by (metis size_mset)
  with receive_logs gather_length [OF receive_logs(3)] show ?case by (simp add: evm_work_def)
qed (simp_all add: evm_work_def)

lemma pool_step_work:
  "fetchBlocks su p q \<Longrightarrow> block_queue_inv (height_queue p) \<Longrightarrow>
     evm_work q < evm_work p"
proof (induction rule: fetchBlocks.induct)
  case (receive_heights p heights rest visited)
  then have "length visited = length heights" by (metis size_mset)
  with receive_heights show ?case by (simp add: evm_work_def)
next
  case (push_height p h hs)
  then show ?case using push_len [of "height_queue p" h] by (simp add: evm_work_def)
next
  case (worker_pop p b q)
  then show ?case using pop_len [of "height_queue p" b q] by (simp add: evm_work_def)
next
  case (worker_store b p s)
  then obtain w where "busy_workers p = add_mset b w" using multi_member_split by metis
  then show ?case by (simp add: evm_work_def)
qed

section \<open>What has been processed\<close>

text \<open>What the database holds of a log that has been processed, when all logs are of the set \<open>L\<close>.\<close>

definition log_stored :: "'s evm_setup \<Rightarrow> eth_log set \<Rightarrow> columns \<Rightarrow> eth_log \<Rightarrow> model list \<Rightarrow> bool" where
  "log_stored su L column txLog rs \<longleftrightarrow>
     (\<forall>topic x. log_record su txLog = Some (topic, Ptr x) \<and> clean su L topic \<longrightarrow>
        record_stored column (su_events su) topic x rs)
   \<and> (transfer_log (su_lib su) (GetId (su_config su)) (su_events su) txLog \<longrightarrow> transfer_stored (su_lib su) txLog rs)
   \<and> (\<forall>block. su_block su (int_of_u64 (Log_BlockNumber txLog)) = Ok (Some block) \<longrightarrow>
        header_stored (su_config su) block rs)"

lemma drained_stored:
  assumes "gorm_engine (su_db su) rows column assign" and "decodes_in_place (su_lib su)"
    and "inv_heights p" and "inv_rows su L column rows p" and "drained p" and "txLog \<in> set (taken_logs p)"
  shows "log_stored su L column txLog (rows (sys_db p))"
proof -
  have "Log_BlockNumber txLog \<in> finished p"
    using assms(3,5,6) by (auto simp: inv_heights_def drained_def IsEmpty_def Len_def ToSlice_def)
  moreover have r: "\<forall>topic x. log_record su txLog = Some (topic, Ptr x) \<and> clean su L topic \<longrightarrow>
      record_stored column (su_events su) topic x (rows (sys_db p))"
    using assms(4-6) by (simp add: inv_rows_def drained_def)
  moreover have "transfer_stored (su_lib su) txLog (rows (sys_db p))"
    if "transfer_log (su_lib su) (GetId (su_config su)) (su_events su) txLog"
    by (rule gorm_engine.records_stored_transfers [OF assms(1,2) that]) (use r in \<open>auto simp: clean_def\<close>)
  ultimately show ?thesis using assms(4) by (simp add: log_stored_def inv_rows_def)
qed

text \<open>While something is left to do behind the channel for logs, one of those who read it can act.\<close>

lemma not_drained_step:
  assumes "gorm_engine (su_db su) rows column assign" and "\<not> drained p" and "sent_within L p" and "harmless su L"
    and "decodes_in_place (su_lib su)" and "\<And>t. 0 < su_numField su t"
    and "harmless_blocks su" and "0 \<le> evm_FetchThread (su_config su)"
  shows "\<exists>q. ProcessLogsFromFetcher su p q \<or> fetchBlocks su p q"
proof -
  consider "blockHeightsChan p \<noteq> [] \<or> pushing p \<noteq> [] \<or> \<not> IsEmpty (height_queue p) \<or> busy_workers p \<noteq> {#}"
    | "log_processor p \<noteq> Receiving \<or> logsChan p \<noteq> []" "blockHeightsChan p = []"
    using assms(2) unfolding drained_def by blast
  then show ?thesis
  proof cases
    case 1
    then show ?thesis using pool_not_stuck [OF 1 assms(7,8)] by blast
  next
    case 2
    then show ?thesis using gorm_engine.processor_not_stuck [OF assms(1) 2 assms(3-5) refl assms(6)] by blast
  qed
qed

end
