(* ===== verification/EvmPipeline.thy ===== *)
theory EvmPipeline
  imports EvmGoroutines
begin

text \<open>
  The goroutines that \<open>EvmClient.Start\<close> (\<open>pkg/evm/client.go\<close>) runs, together: the recovery fetches logs, stores
  checkpoints and sends the logs through \<open>logsChan\<close> to \<open>ProcessLogsFromFetcher\<close>, which stores their events and sends their block
  numbers through \<open>blockHeightsChan\<close> to \<open>fetchBlocks\<close>, whose workers store the headers. All share one database. Any
  goroutine may act at any time: a step of the system is a step of one of them, up to its next use of a channel, of the
  queue or of the database; only a round of the recovery, which sends logs and then writes a checkpoint row that no one else touches,
  is one step. The context that the command passes is never cancelled. Polling for new logs, the other user of \<open>logsChan\<close>, pauses here:
  \<open>EvmSystem\<close> adds it, and shows that what happens here happens there.
\<close>

section \<open>Model\<close>

text \<open>
  With the recovery: its variables (the copy of the database among them is brought up to date at each round) and the
  number of its requests.
\<close>

record 's evm_state = "'s evm_core" +
  fetcher :: "'s fetch_state"
  requests :: nat

definition su_env :: "'s evm_setup \<Rightarrow> 's fetch_env" where
  "su_env su = recovery_env (su_config su) (su_db su) (su_current su)"

text \<open>One round of the recovery; the logs it sends are the ones it appends.\<close>

inductive recover_step :: "'s evm_setup \<Rightarrow> 's evm_state \<Rightarrow> 's evm_state \<Rightarrow> bool" for su where
  fetch: "fs_from (fetcher p) \<le> su_current su \<Longrightarrow> length (logsChan p) < logs_capacity \<Longrightarrow>
     st = fetch_iteration (su_env su) (su_rpc su (requests p)) ((fetcher p)\<lparr>fs_db := sys_db p\<rparr>) \<Longrightarrow>
     recover_step su p (p\<lparr>fetcher := st, requests := Suc (requests p), sys_db := fs_db st,
       logsChan := logsChan p @ drop (length (fs_logs (fetcher p))) (fs_logs st)\<rparr>)"

inductive evm_step :: "'s evm_setup \<Rightarrow> 's evm_state \<Rightarrow> 's evm_state \<Rightarrow> bool" for su where
  recover: "recover_step su p q \<Longrightarrow> evm_step su p q"
| process: "ProcessLogsFromFetcher su p q \<Longrightarrow> evm_step su p q"
| blocks: "fetchBlocks su p q \<Longrightarrow> evm_step su p q"

definition Start :: "'s evm_setup \<Rightarrow> filter_query \<Rightarrow> 's \<Rightarrow> 's evm_state" where
  "Start su query s = \<lparr>sys_db = s, logsChan = [], log_processor = Receiving, blockHeightsChan = [], pushing = [],
     height_queue = blockQueue, busy_workers = {#}, taken_logs = [], finished = {},
     fetcher = recovery_state (su_config su) (su_db su) query s, requests = 0\<rparr>"

text \<open>The recovery has returned and nobody has work left.\<close>

definition evm_idle :: "'s evm_setup \<Rightarrow> 's evm_state \<Rightarrow> bool" where
  "evm_idle su p \<longleftrightarrow> \<not> fs_from (fetcher p) \<le> su_current su \<and> drained p"

lemma fetch_inv_db [simp]: "fetch_inv chain first env (st\<lparr>fs_db := s\<rparr>) = fetch_inv chain first env st"
  by (simp add: fetch_inv_def)

lemma su_env_current [simp]: "fe_current (su_env su) = su_current su"
  by (simp add: su_env_def recovery_env_def)

section \<open>Invariants\<close>

text \<open>The same of the logs of a chain.\<close>

definition harmless_logs :: "'s evm_setup \<Rightarrow> (int \<Rightarrow> eth_log list) \<Rightarrow> bool" where
  "harmless_logs su chain \<longleftrightarrow>
     (\<forall>b. list_all (unproblematic (su_lib su) (GetId (su_config su)) (su_events su)) (chain b))"

definition clean_topic :: "'s evm_setup \<Rightarrow> (int \<Rightarrow> eth_log list) \<Rightarrow> string \<Rightarrow> bool" where
  "clean_topic su chain topic \<longleftrightarrow> (\<forall>b. nil_free (su_lib su) (GetId (su_config su)) (su_events su) topic (chain b))"

definition chain_logs :: "(int \<Rightarrow> eth_log list) \<Rightarrow> eth_log set" where
  "chain_logs chain = (\<Union>b. set (chain b))"

lemma harmless_chain: "harmless_logs su chain = harmless su (chain_logs chain)"
  by (auto simp: harmless_logs_def harmless_def chain_logs_def list_all_iff)

lemma clean_chain: "clean_topic su chain topic = clean su (chain_logs chain) topic"
  by (auto simp: clean_topic_def clean_def chain_logs_def nil_free_def list_all_iff)

text \<open>The recovery is where \<open>LogFetcher\<close> proves it to be, and its logs are in the channel or have been taken.\<close>

definition inv_fetch :: "'s evm_setup \<Rightarrow> (int \<Rightarrow> eth_log list) \<Rightarrow> nat \<Rightarrow> 's evm_state \<Rightarrow> bool" where
  "inv_fetch su chain first p \<longleftrightarrow> fetch_inv chain first (su_env su) (fetcher p)
   \<and> taken_logs p @ concat (logsChan p) = concat (fs_logs (fetcher p))"

lemma fetch_iteration_appends: "\<exists>new. fs_logs (fetch_iteration env FilterLogs st) = fs_logs st @ new"
  by (auto simp: fetch_iteration_def Let_def split: reply.splits outcome.splits)

lemma step_inv_fetch:
  assumes "evm_step su p q" and "inv_fetch su chain first p" and "serves chain (su_rpc su)" and "small (su_current su)"
  shows "inv_fetch su chain first q"
  using assms(1)
proof cases
  case recover
  then show ?thesis
  proof cases
    case (fetch st)
    obtain new where new: "fs_logs st = fs_logs (fetcher p) @ new"
      using fetch_iteration_appends [of "su_env su" "su_rpc su (requests p)" "(fetcher p)\<lparr>fs_db := sys_db p\<rparr>"] fetch(4) by auto
    have "fetch_inv chain first (su_env su) st"
      using fetch_iteration_inv [of chain first "su_env su" "(fetcher p)\<lparr>fs_db := sys_db p\<rparr>" "su_rpc su" "requests p"] assms(2-4) fetch(2,4)
      by (simp add: inv_fetch_def)
    with assms(2) new show ?thesis unfolding fetch(1) by (simp add: inv_fetch_def)
  qed
next
  case process
  from this assms(2) show ?thesis
    by cases (auto simp: inv_fetch_def fetch_inv_def simp del: save_topics.simps)
next
  case blocks
  from this assms(2) show ?thesis
    by cases (auto simp: inv_fetch_def fetch_inv_def simp del: save_topics.simps)
qed

lemma sent_logs_in_chain:
  assumes "inv_fetch su chain first p"
  shows "sent_within (chain_logs chain) p"
proof -
  have "set (concat (logsChan p)) \<subseteq> set (concat (fs_logs (fetcher p)))"
    using assms unfolding inv_fetch_def by (metis UnCI set_append subsetI)
  also have "\<dots> \<subseteq> chain_logs chain" using assms by (auto simp: inv_fetch_def fetch_inv_def chain_logs_def)
  finally show ?thesis by (auto simp: sent_within_def)
qed

lemma step_inv_heights:
  assumes "evm_step su p q" and "inv_heights p" and "sent_within L p" and "harmless su L"
    and "decodes_in_place (su_lib su)"
  shows "inv_heights q"
  using assms(1)
proof cases
  case recover
  from this assms(2) show ?thesis by cases (simp add: inv_heights_def)
qed (use processor_inv_heights [OF _ assms(2-5)] pool_inv_heights [OF _ assms(2)] in blast)+

context accepting_engine
begin

lemma step_inv_rows:
  assumes "evm_step su p q" and "inv_rows su L column rows p" and "sent_within L p"
    and "harmless su L" and "decodes_in_place (su_lib su)" and "su_db su = db" and "\<And>t. 0 < su_numField su t"
  shows "inv_rows su L column rows q"
  using assms(1)
proof cases
  case recover
  then show ?thesis
  proof cases
    case (fetch st)
    have "fe_db (su_env su) = Some db" using assms(6) by (simp add: su_env_def recovery_env_def)
    then have "keeps rows (sys_db p) (fs_db st)"
      using fetch_keeps [of "su_env su" "(fetcher p)\<lparr>fs_db := sys_db p\<rparr>"] unfolding fetch(4) by simp
    then show ?thesis using fetch(1) by (intro inv_rows_keeps [OF assms(2)]) simp_all
  qed
next
  case process
  then show ?thesis by (rule process_inv_rows [OF _ assms(2-7)])
next
  case blocks
  then show ?thesis by (rule pool_inv_rows [OF _ assms(2,6)])
qed

lemma reachable_inv:
  assumes "(evm_step su)\<^sup>*\<^sup>* (Start su query s) p"
    and "last_checkpoint db (GetId (su_config su)) s \<noteq> - 1"
    and "first = unat (fs_from (recovery_state (su_config su) db query s))" and "first \<le> unat (su_current su) + 1"
    and "serves chain (su_rpc su)" and "small (su_current su)"
    and "harmless_logs su chain" and "decodes_in_place (su_lib su)" and "su_db su = db" and "\<And>t. 0 < su_numField su t"
  shows "inv_fetch su chain first p \<and> inv_heights p \<and> inv_rows su (chain_logs chain) column rows p"
  using assms(1)
proof (induction rule: rtranclp_induct)
  case base
  have "0 < unat (recover_range (su_config su))" "unat (recover_range (su_config su)) < 2 ^ 63"
    using recover_from_max [OF assms(2), of "su_config su"] by (simp_all add: word_less_nat_alt word_le_nat_alt)
  then have "inv_fetch su chain first (Start su query s)"
    using assms(3,4,9) by (simp add: inv_fetch_def fetch_inv_def Start_def recovery_state_def)
  then show ?case
    using blockQueue_inv by (simp add: inv_heights_def inv_rows_def Start_def)
next
  case (step p q)
  then show ?case
    using step_inv_fetch [OF step(2) _ assms(5,6)] sent_logs_in_chain [of su chain first p]
      step_inv_heights [OF step(2) _ _ assms(7) [unfolded harmless_chain] assms(8)]
      step_inv_rows [OF step(2) _ _ assms(7) [unfolded harmless_chain] assms(8-10)] by blast
qed

end

section \<open>Progress\<close>

definition blocks_left :: "'s evm_setup \<Rightarrow> 's evm_state \<Rightarrow> nat" where
  "blocks_left su p = unat (su_current su) + 1 - unat (fs_from (fetcher p))"

lemma readers_keep_fetcher:
  "ProcessLogsFromFetcher su p q \<or> fetchBlocks su p q \<Longrightarrow> requests q = requests p \<and> blocks_left su q = blocks_left su p"
  by (auto simp: blocks_left_def elim!: ProcessLogsFromFetcher.cases fetchBlocks.cases)

text \<open>After request \<open>N\<close> the node refuses nothing.\<close>

definition evm_measure :: "'s evm_setup \<Rightarrow> nat \<Rightarrow> ('s evm_state \<times> 's evm_state) set" where
  "evm_measure su N = measures [\<lambda>p. N - requests p, blocks_left su, evm_work]"

lemma evm_step_decreases:
  assumes "evm_step su p q" and "inv_fetch su chain first p" and "inv_heights p"
    and "serves chain (su_rpc su)" and "small (su_current su)" and "\<And>m q msg. N \<le> m \<Longrightarrow> su_rpc su m q \<noteq> Failed msg"
  shows "(q, p) \<in> evm_measure su N"
  using assms(1)
proof cases
  case recover
  then show ?thesis
  proof cases
    case (fetch st)
    have "(\<exists>q msg. su_rpc su (requests p) q = Failed msg) \<or> unat (fs_from (fetcher p)) < unat (fs_from st)"
      using fetch_iteration_inv [of chain first "su_env su" "(fetcher p)\<lparr>fs_db := sys_db p\<rparr>" "su_rpc su" "requests p"]
        assms(2,4,5) fetch(2,4)
      by (simp add: inv_fetch_def)
    then have "requests p < N \<or> unat (fs_from (fetcher p)) < unat (fs_from st)"
      using assms(6) by (meson not_le)
    moreover have "unat (fs_from (fetcher p)) \<le> unat (su_current su)" using fetch(2) by (simp add: word_le_nat_alt)
    ultimately show ?thesis using fetch(1) by (auto simp: evm_measure_def blocks_left_def)
  qed
next
  case process
  then show ?thesis using processor_step_work [of su p q] readers_keep_fetcher [of su p q] by (simp add: evm_measure_def)
next
  case blocks
  then show ?thesis using pool_step_work [of su p q] readers_keep_fetcher [of su p q] assms(3) by (simp add: evm_measure_def inv_heights_def)
qed

section \<open>Properties\<close>

text \<open>
  The environment that the theorems suppose: the node serves a chain whose logs decode or fail with an error,
  decoding keeps \<open>Raw\<close>, and every row type has a field.
\<close>

definition orderly :: "'s evm_setup \<Rightarrow> (int \<Rightarrow> eth_log list) \<Rightarrow> bool" where
  "orderly su chain \<longleftrightarrow> serves chain (su_rpc su) \<and> small (su_current su) \<and> harmless_logs su chain
     \<and> decodes_in_place (su_lib su) \<and> (\<forall>t. 0 < su_numField su t)"

text \<open>The first block of a recovery, and that there is something to recover.\<close>

definition recovery_start :: "'s evm_setup \<Rightarrow> 's \<Rightarrow> u64" where
  "recovery_start su s = recover_from (su_config su) (last_checkpoint (su_db su) (GetId (su_config su)) s)"

definition has_range :: "'s evm_setup \<Rightarrow> 's \<Rightarrow> bool" where
  "has_range su s \<longleftrightarrow> last_checkpoint (su_db su) (GetId (su_config su)) s \<noteq> - 1 \<and> recovery_start su s \<le> su_current su"

lemma reachable_invariants:
  assumes "accepting_engine (su_db su) rows column assign" and "orderly su chain" and "has_range su s"
    and "(evm_step su)\<^sup>*\<^sup>* (Start su query s) p"
  shows "inv_fetch su chain (unat (recovery_start su s)) p \<and> inv_heights p
    \<and> inv_rows su (chain_logs chain) column rows p"
proof (rule accepting_engine.reachable_inv [OF assms(1,4)])
  show "unat (recovery_start su s) \<le> unat (su_current su) + 1"
    using assms(3) by (simp add: has_range_def word_le_nat_alt)
qed (use assms(2,3) in \<open>simp_all add: orderly_def has_range_def recovery_start_def recovery_state_def\<close>)

lemma idle_taken:
  assumes "accepting_engine (su_db su) rows column assign" and "orderly su chain" and "has_range su s"
    and "(evm_step su)\<^sup>*\<^sup>* (Start su query s) p" and "evm_idle su p"
  shows "taken_logs p = concat (map chain [int (unat (recovery_start su s))..int (unat (su_current su))])"
proof -
  note inv = reachable_invariants [OF assms(1-4)]
  have "unat (fs_from (fetcher p)) = unat (su_current su) + 1"
    using inv assms(5) by (simp add: inv_fetch_def fetch_inv_def evm_idle_def word_le_nat_alt)
  then show ?thesis using inv assms(5) by (simp add: inv_fetch_def fetch_inv_def evm_idle_def drained_def)
qed

lemma idle_stored:
  assumes "accepting_engine (su_db su) rows column assign" and "orderly su chain" and "has_range su s"
    and "(evm_step su)\<^sup>*\<^sup>* (Start su query s) p" and "evm_idle su p"
    and "b \<in> {int (unat (recovery_start su s))..int (unat (su_current su))}" and "txLog \<in> set (chain b)"
  shows "log_stored su (chain_logs chain) column txLog (rows (sys_db p))"
proof -
  note inv = reachable_invariants [OF assms(1-4)]
  have "txLog \<in> set (taken_logs p)" using idle_taken [OF assms(1-5)] assms(6,7) by auto
  moreover have "gorm_engine (su_db su) rows column assign" "decodes_in_place (su_lib su)"
    using assms(1,2) by (simp_all add: accepting_engine_def orderly_def)
  ultimately show ?thesis using drained_stored inv assms(5) by (blast dest: evm_idle_def [THEN iffD1])
qed


lemma evm_not_stuck:
  assumes "gorm_engine (su_db su) rows column assign" and "orderly su chain" and "inv_fetch su chain first p"
    and "harmless_blocks su" and "0 \<le> evm_FetchThread (su_config su)"
  shows "evm_idle su p \<or> (\<exists>q. evm_step su p q)"
proof -
  have env: "harmless su (chain_logs chain)" "decodes_in_place (su_lib su)" "\<And>t. 0 < su_numField su t"
    using assms(2) by (simp_all add: orderly_def harmless_chain)
  consider "evm_idle su p" | "\<not> drained p" | "logsChan p = []" "fs_from (fetcher p) \<le> su_current su"
    unfolding evm_idle_def drained_def by blast
  then show ?thesis
  proof cases
    case 2
    then show ?thesis
      using not_drained_step [OF assms(1) 2 sent_logs_in_chain [OF assms(3)] env assms(4,5)] process blocks by blast
  next
    case 3
    then show ?thesis using fetch [of p su] recover by (fastforce simp: logs_capacity_def)
  qed blast
qed

lemma evm_finishes:
  assumes "accepting_engine (su_db su) rows column assign" and "orderly su chain" and "has_range su s"
    and "harmless_blocks su" and "0 \<le> evm_FetchThread (su_config su)"
    and "\<And>m q msg. N \<le> m \<Longrightarrow> su_rpc su m q \<noteq> Failed msg" and "(evm_step su)\<^sup>*\<^sup>* (Start su query s) p"
  shows "\<exists>q. (evm_step su)\<^sup>*\<^sup>* p q \<and> evm_idle su q"
proof (rule runs_to_end [of "evm_measure su N" "(evm_step su)\<^sup>*\<^sup>* (Start su query s)"])
  fix p
  assume p: "(evm_step su)\<^sup>*\<^sup>* (Start su query s) p"
  note inv = reachable_invariants [OF assms(1-3) p]
  show "evm_idle su p \<or> (\<exists>q. evm_step su p q)"
    using evm_not_stuck [OF _ assms(2) _ assms(4,5)] assms(1) accepting_engine_def inv by blast
  fix q
  assume "evm_step su p q"
  with p show "(evm_step su)\<^sup>*\<^sup>* (Start su query s) q \<and> (q, p) \<in> evm_measure su N"
    using evm_step_decreases [of su p q, OF _ _ _ _ _ assms(6)] inv assms(2) unfolding orderly_def
    by (blast intro: rtranclp.rtrancl_into_rtrancl)
qed (use assms(7) in \<open>simp_all add: evm_measure_def\<close>)



section \<open>A concrete instance\<close>

text \<open>One transfer per block, blocks 50 to 52 to recover, and an empty database.\<close>

definition transfer_chain :: "int \<Rightarrow> eth_log list" where
  "transfer_chain b = [example_transfer (word_of_int b)]"

definition example_setup :: "model list evm_setup" where
  "example_setup = \<lparr>su_lib = transfer_eth, su_config = example_evm_config, su_db = mem_engine, su_numField = (\<lambda>_. 14),
     su_events = transfer_events, su_block = (\<lambda>n. Ok (Some (example_eth_block (Some [])))),
     su_rpc = (\<lambda>n q. Logs (concat (map transfer_chain [FromBlock q..ToBlock q]))), su_current = 52\<rparr>"

abbreviation no_query :: filter_query where "no_query \<equiv> \<lparr>FromBlock = 0, ToBlock = 0\<rparr>"

lemma example_setup_ok:
  "accepting_engine (su_db example_setup) (\<lambda>s. s) mem_column mem_assign"
  "checkpoint_store (su_db example_setup) (\<lambda>s. s) mem_column mem_assign"
  "orderly example_setup transfer_chain" "harmless_blocks example_setup" "0 \<le> evm_FetchThread (su_config example_setup)"
  "su_rpc example_setup m q \<noteq> Failed msg"
  using mem_accepting.accepting_engine_axioms mem_checkpoints.checkpoint_store_axioms transfer_eth_decodes example_transfer_ok(1)
  by (simp_all add: example_setup_def orderly_def serves_def harmless_logs_def transfer_chain_def harmless_blocks_def
      example_eth_block_def example_evm_config_def)

lemma example_setup_fields:
  "su_lib example_setup = transfer_eth" "su_config example_setup = example_evm_config"
  "su_events example_setup = transfer_events" "su_current example_setup = 52"
  by (simp_all add: example_setup_def)

lemma example_range: "recovery_start example_setup [] = 50" "has_range example_setup []"
proof -
  have "last_checkpoint mem_engine (GetId example_evm_config) [] = 0"
    by (simp add: last_checkpoint_def GetLatestFetchedBlock_def mem_engine_def matching_def)
  then show "recovery_start example_setup [] = 50" "has_range example_setup []"
    using recover_from_example by (simp_all add: recovery_start_def has_range_def example_setup_def)
qed




end
