(* ===== verification/SharedQuery.thy ===== *)
theory SharedQuery
  imports Recovery
begin

text \<open>
  \<open>LoopFetchLogs\<close> of \<open>pkg/evm/client.go\<close>: the recovery and the polling run at the same time, and both pass a
  pointer to the same \<open>FilterQuery\<close> to \<open>FetchRangeLogs\<close>. The goroutines are modelled step by step, where a step
  makes one access to the query: it sets one end of the range, sends a copy of the query, or reads the end of the range back.
\<close>

section \<open>Model\<close>

text \<open>Where a round of \<open>FetchRangeLogs\<close> stands.\<close>

datatype phase = Ready | FromSet | QuerySet | Answered reply | LogsSent | Stored

text \<open>The variables of one call of \<open>FetchRangeLogs\<close>, with the queries it has sent and the logs it has received.\<close>

record fetcher =
  ft_from :: u64
  ft_current :: u64
  ft_range :: u64
  ft_store :: bool
  ft_phase :: phase
  ft_asked :: "filter_query list"
  ft_logs :: "eth_log list list"

datatype fetcher_event = SetFrom | SetTo | Request | Adjust | SendLogs | StoreCheckpoint | Advance

definition store_checkpoint :: "'s gorm option \<Rightarrow> string \<Rightarrow> bool \<Rightarrow> u64 \<Rightarrow> 's \<Rightarrow> 's" where
  "store_checkpoint dbAdapter chain store to_block s =
     (case (store, dbAdapter) of
        (True, Some db) \<Rightarrow>
          fst (UpdateLatestFetchedBlock (Some db) chain \<lparr>cp_ChainID = chain, cp_LastBlock = to_block\<rparr> s)
      | _ \<Rightarrow> s)"

text \<open>
  \<open>setQueryRange\<close> writes the two ends one after the other. After a refusal the query is set a second time, which
  the next round repeats.
\<close>

fun fetcher_do ::
  "'s gorm option \<Rightarrow> string \<Rightarrow> (filter_query \<Rightarrow> reply) \<Rightarrow> fetcher_event \<Rightarrow> filter_query \<times> 's \<times> fetcher
   \<Rightarrow> (filter_query \<times> 's \<times> fetcher) option" where
  "fetcher_do dbAdapter chain FilterLogs SetFrom (query, s, t) =
     (if ft_phase t = Ready \<and> ft_from t \<le> ft_current t
      then Some (query\<lparr>FromBlock := FromBlock (setQueryRange query (ft_from t) (ft_range t) (ft_current t))\<rparr>, s,
             t\<lparr>ft_phase := FromSet\<rparr>) else None)"
| "fetcher_do dbAdapter chain FilterLogs SetTo (query, s, t) =
     (if ft_phase t = FromSet
      then Some (query\<lparr>ToBlock := ToBlock (setQueryRange query (ft_from t) (ft_range t) (ft_current t))\<rparr>, s,
             t\<lparr>ft_phase := QuerySet\<rparr>) else None)"
| "fetcher_do dbAdapter chain FilterLogs Request (query, s, t) =
     (if ft_phase t = QuerySet
      then Some (query, s, t\<lparr>ft_phase := Answered (FilterLogs query), ft_asked := ft_asked t @ [query]\<rparr>) else None)"
| "fetcher_do dbAdapter chain FilterLogs Adjust (query, s, t) =
     (case ft_phase t of
        Answered (Failed msg) \<Rightarrow>
          (case extractRecoverRange msg of
             Ok r \<Rightarrow> Some (setQueryRange query (ft_from t) r (ft_current t), s, t\<lparr>ft_range := r, ft_phase := Ready\<rparr>)
           | _ \<Rightarrow> Some (query, s, t\<lparr>ft_range := 0, ft_phase := Ready\<rparr>))
      | _ \<Rightarrow> None)"
| "fetcher_do dbAdapter chain FilterLogs SendLogs (query, s, t) =
     (case ft_phase t of
        Answered (Logs logs) \<Rightarrow>
          Some (query, s, t\<lparr>ft_logs := (if logs = [] then ft_logs t else ft_logs t @ [logs]), ft_phase := LogsSent\<rparr>)
      | _ \<Rightarrow> None)"
| "fetcher_do dbAdapter chain FilterLogs StoreCheckpoint (query, s, t) =
     (if ft_phase t = LogsSent
      then Some (query, store_checkpoint dbAdapter chain (ft_store t) (BigInt_Uint64 (ToBlock query)) s,
             t\<lparr>ft_phase := Stored\<rparr>) else None)"
| "fetcher_do dbAdapter chain FilterLogs Advance (query, s, t) =
     (if ft_phase t = Stored
      then Some (query, s, t\<lparr>ft_from := BigInt_Uint64 (ToBlock query) + 1, ft_phase := Ready\<rparr>) else None)"

text \<open>The two goroutines with the query and the database they share.\<close>

record 's loop =
  lp_query :: filter_query
  lp_db :: 's
  lp_recover :: fetcher
  lp_realtime :: fetcher

datatype goroutine = Recover | Realtime

fun loop_do ::
  "'s gorm option \<Rightarrow> string \<Rightarrow> (filter_query \<Rightarrow> reply) \<Rightarrow> goroutine \<times> fetcher_event \<Rightarrow> 's loop \<Rightarrow> 's loop option" where
  "loop_do dbAdapter chain FilterLogs (Recover, ev) l =
     map_option (\<lambda>(q, s, t). l\<lparr>lp_query := q, lp_db := s, lp_recover := t\<rparr>)
       (fetcher_do dbAdapter chain FilterLogs ev (lp_query l, lp_db l, lp_recover l))"
| "loop_do dbAdapter chain FilterLogs (Realtime, ev) l =
     map_option (\<lambda>(q, s, t). l\<lparr>lp_query := q, lp_db := s, lp_realtime := t\<rparr>)
       (fetcher_do dbAdapter chain FilterLogs ev (lp_query l, lp_db l, lp_realtime l))"

fun loop_run ::
  "'s gorm option \<Rightarrow> string \<Rightarrow> (filter_query \<Rightarrow> reply) \<Rightarrow> (goroutine \<times> fetcher_event) list \<Rightarrow> 's loop \<Rightarrow> 's loop option" where
  "loop_run dbAdapter chain FilterLogs [] l = Some l"
| "loop_run dbAdapter chain FilterLogs (ev # evs) l =
     Option.bind (loop_do dbAdapter chain FilterLogs ev l) (loop_run dbAdapter chain FilterLogs evs)"

definition new_fetcher :: "u64 \<Rightarrow> u64 \<Rightarrow> u64 \<Rightarrow> bool \<Rightarrow> fetcher" where
  "new_fetcher fromBlock currentBlockNumber recoverRange store =
     \<lparr>ft_from = fromBlock, ft_current = currentBlockNumber, ft_range = recoverRange, ft_store = store, ft_phase = Ready,
      ft_asked = [], ft_logs = []\<rparr>"

text \<open>
  \<open>LoopFetchLogs\<close> reads the block number once for both goroutines; the polling reads it again
  before its first call.
\<close>

definition LoopFetchLogs :: "evm_network_config \<Rightarrow> 's gorm \<Rightarrow> filter_query \<Rightarrow> u64 \<Rightarrow> u64 \<Rightarrow> 's \<Rightarrow> 's loop" where
  "LoopFetchLogs config db query currentBlockNumber current' s =
     \<lparr>lp_query = query, lp_db = s,
      lp_recover = new_fetcher (recover_from config (last_checkpoint db (GetId config) s)) currentBlockNumber
        (recover_range config) True,
      lp_realtime = new_fetcher currentBlockNumber current' (fetch_range_init config) False\<rparr>"

section \<open>Undisturbed iterations\<close>

text \<open>The steps in a row are one round of \<open>FetchRangeLogs\<close>: the round does not depend on the query it finds.\<close>

definition as_state :: "filter_query \<times> 's \<times> fetcher \<Rightarrow> 's fetch_state" where
  "as_state qst = (case qst of (q, s, t) \<Rightarrow>
     \<lparr>fs_from = ft_from t, fs_range = ft_range t, fs_query = q, fs_logs = ft_logs t,
      fs_counter = length (concat (ft_logs t)), fs_db = s\<rparr>)"

text \<open>What a goroutine does in a round, by the answer of the node.\<close>

fun round_events :: "reply \<Rightarrow> fetcher_event list" where
  "round_events (Logs logs) = [SetFrom, SetTo, Request, SendLogs, StoreCheckpoint, Advance]"
| "round_events (Failed msg) = [SetFrom, SetTo, Request, Adjust]"

fun fetcher_run ::
  "'s gorm option \<Rightarrow> string \<Rightarrow> (filter_query \<Rightarrow> reply) \<Rightarrow> fetcher_event list \<Rightarrow> filter_query \<times> 's \<times> fetcher
   \<Rightarrow> (filter_query \<times> 's \<times> fetcher) option" where
  "fetcher_run dbAdapter chain FilterLogs [] x = Some x"
| "fetcher_run dbAdapter chain FilterLogs (ev # evs) x =
     Option.bind (fetcher_do dbAdapter chain FilterLogs ev x) (fetcher_run dbAdapter chain FilterLogs evs)"

lemma set_both: "q\<lparr>FromBlock := FromBlock (setQueryRange q f r c), ToBlock := ToBlock (setQueryRange q' f r c)\<rparr>
    = setQueryRange q f r c"
  by (simp add: setQueryRange_def Let_def)

lemma undisturbed_iteration:
  assumes "ft_phase t = Ready" and "ft_from t \<le> ft_current t"
    and "env = \<lparr>fe_chain = chain, fe_db = dbAdapter, fe_current = ft_current t, fe_store = ft_store t\<rparr>"
  shows "\<exists>r. fetcher_run dbAdapter chain f
        (round_events (f (setQueryRange q (ft_from t) (ft_range t) (ft_current t)))) (q, s, t) = Some r
    \<and> as_state r = fetch_iteration env f (as_state (q, s, t)) \<and> ft_phase (snd (snd r)) = Ready"
  using assms
  by (cases "f (setQueryRange q (ft_from t) (ft_range t) (ft_current t))")
    (auto simp: fetch_iteration_def as_state_def Let_def store_checkpoint_def set_both
      split: reply.split outcome.split bool.split option.split)

section \<open>Disturbed iterations\<close>

lemma fetch_range_init_bounds: "0 < unat (fetch_range_init config)" "unat (fetch_range_init config) < 2 ^ 63"
  by (auto simp: fetch_range_init_def word_less_nat_alt)

text \<open>
  C35: the shared query loses blocks. Whatever range there is to recover, there is a schedule of the
  two goroutines in which the recovery sends one single query, one that starts at the block at which polling
  starts, and is then done: the checkpoint is past every block, so that a restart does not recover them either.
\<close>

theorem shared_query_skips_blocks:
  assumes "checkpoint_store db rows column assign" and "small current'" and "cur \<le> current'"
    and "recover_from config (last_checkpoint db (GetId config) s) \<le> cur"
    and "\<And>q. FilterLogs q = Logs (concat (map chain [FromBlock q..ToBlock q]))"
  shows "\<exists>schedule l q. loop_run (Some db) (GetId config) FilterLogs schedule
      (LoopFetchLogs config db query cur current' s) = Some l
    \<and> ft_asked (lp_recover l) = [q] \<and> FromBlock q = int (unat cur) \<and> ft_phase (lp_recover l) = Ready
    \<and> cur < ft_from (lp_recover l) \<and> cur \<le> last_checkpoint db (GetId config) (lp_db l)"
proof -
  let ?first = "recover_from config (last_checkpoint db (GetId config) s)"
  define to where "to = min (unat cur + unat (fetch_range_init config) - 1) (unat current')"
  define q2 where "q2 = \<lparr>FromBlock = int (unat cur), ToBlock = int to\<rparr>"
  have q2: "FromBlock (setQueryRange q cur (fetch_range_init config) current') = FromBlock q2"
    "ToBlock (setQueryRange q cur (fetch_range_init config) current') = ToBlock q2" for q
    unfolding q2_def to_def by (simp_all add: setQueryRange_small [OF assms(3,2) fetch_range_init_bounds])
  have both: "q\<lparr>FromBlock := FromBlock q2, ToBlock := int to\<rparr> = q2" for q :: filter_query by (simp add: q2_def)
  have to: "unat cur \<le> to" "to < 2 ^ 63 - 1"
    using assms(2,3) fetch_range_init_bounds(1) [of config] by (auto simp: to_def word_le_nat_alt)
  then have u: "unat (of_nat to :: u64) = to" "unat (of_nat to + 1 :: u64) = to + 1"
    using unat_of_nat_small [of to] unat_of_nat_small [of "to + 1"] by (simp_all add: add.commute)
  obtain logs where answer: "FilterLogs q2 = Logs logs" "ToBlock q2 = int to" using assms(5) by (simp add: q2_def)
  let ?s = "[(Recover, SetFrom), (Recover, SetTo), (Realtime, SetFrom), (Realtime, SetTo), (Recover, Request),
    (Recover, SendLogs), (Recover, StoreCheckpoint), (Recover, Advance)]"
  let ?db = "store_checkpoint (Some db) (GetId config) True (of_nat to) s"
  obtain l where "loop_run (Some db) (GetId config) FilterLogs ?s (LoopFetchLogs config db query cur current' s) = Some l"
      "ft_asked (lp_recover l) = [q2]" "ft_phase (lp_recover l) = Ready"
      "ft_from (lp_recover l) = of_nat to + 1" "lp_db l = ?db"
    using assms(3,4) answer
    by (simp add: LoopFetchLogs_def new_fetcher_def q2 both BigInt_Uint64_int)
  moreover have "last_checkpoint db (GetId config) ?db = of_nat to"
    using checkpoint_store.checkpoint_roundtrip [OF assms(1)] by (simp add: store_checkpoint_def)
  moreover have "cur < of_nat to + 1" "cur \<le> of_nat to" using to u by (simp_all add: word_less_nat_alt word_le_nat_alt)
  moreover have "FromBlock q2 = int (unat cur)" by (simp add: q2_def)
  ultimately show ?thesis by metis
qed

theorem shared_query_skips_blocks_witness:
  "\<exists>schedule l q. loop_run (Some mem_engine) ''evm|1'' (\<lambda>q. Logs (concat (map example_block_log [FromBlock q..ToBlock q]))) schedule
      (LoopFetchLogs example_evm_config mem_engine \<lparr>FromBlock = 0, ToBlock = 0\<rparr> 5000 5001 []) = Some l
    \<and> ft_asked (lp_recover l) = [q] \<and> FromBlock q = 5000 \<and> 5000 < ft_from (lp_recover l)
    \<and> recover_from example_evm_config (last_checkpoint mem_engine ''evm|1'' []) = 50"
proof -
  have "last_checkpoint mem_engine ''evm|1'' [] = 0"
    by (simp add: last_checkpoint_def GetLatestFetchedBlock_def mem_engine_def matching_def)
  then have first: "recover_from example_evm_config (last_checkpoint mem_engine ''evm|1'' []) = 50"
    using recover_from_example by simp
  have id: "GetId example_evm_config = ''evm|1''" by (simp add: GetId_def example_evm_config_def)
  show ?thesis
    using shared_query_skips_blocks [OF mem_checkpoints.checkpoint_store_axioms, of 5001 5000 example_evm_config "[]"
        "\<lambda>q. Logs (concat (map example_block_log [FromBlock q..ToBlock q]))" example_block_log
        "\<lparr>FromBlock = 0, ToBlock = 0\<rparr>"] first
    unfolding id by auto
qed

end
