(* ===== verification/RowKeys.thy ===== *)
theory RowKeys
  imports LogBatch BlockFetcher
begin

text \<open>
  Well-formed databases: in each table of the indexer, no two rows agree on the columns that its \<open>ON CONFLICT\<close>
  clause names. Every write that the EVM indexer makes keeps a database well formed, and adds no rows but its own.
\<close>

section \<open>Keys\<close>

text \<open>The tables with the columns that identify their rows. Vault transactions have no such clause.\<close>

definition keyed_tables :: "(table \<times> string list) list" where
  "keyed_tables =
     [(BlockHeaders, [''chain'', ''block_number'']), (BtcBlockHeaders, [''height'']),
      (TokenSents, [''event_id'']), (CommandExecuteds, [''command_id'']), (ContractCalls, [''event_id'']),
      (ContractCallApproveds, [''event_id'']), (ContractCallWithTokens, [''event_id'']),
      (TokenDeployeds, [''source_chain'', ''token_address'']), (EvmRedeemTxs, [''event_id'']),
      (SwitchedPhases, [''source_chain'', ''tx_hash'', ''custodian_group_uid'', ''session_sequence'']),
      (LogEventCheckPoints, [''chain_id''])]"

definition table_keys :: "columns \<Rightarrow> table \<Rightarrow> string list \<Rightarrow> model list \<Rightarrow> (table \<times> sql_value list) list" where
  "table_keys column t cols rs = map (key column cols) (filter (\<lambda>r. table_of r = t) rs)"

definition well_keyed :: "columns \<Rightarrow> model list \<Rightarrow> bool" where
  "well_keyed column rs \<longleftrightarrow> list_all (\<lambda>(t, cols). distinct (table_keys column t cols rs)) keyed_tables"

lemma well_keyed_iff:
  "well_keyed column rs \<longleftrightarrow> (\<forall>(t, cols) \<in> set keyed_tables. distinct (table_keys column t cols rs))"
  by (simp add: well_keyed_def list_all_iff)

lemma keyed_tables_unique:
  "(t, cols) \<in> set keyed_tables \<Longrightarrow> (t, cols') \<in> set keyed_tables \<Longrightarrow> cols = cols'"
  unfolding keyed_tables_def by (cases t) simp_all

lemma event_target_keyed: "event_target name = Some (t, cols) \<Longrightarrow> (t, cols) \<in> set keyed_tables"
  by (auto simp: event_target_def keyed_tables_def split: if_splits)

lemma table_keys_insert_other:
  "\<forall>m \<in> set ms. table_of m \<noteq> t \<Longrightarrow> table_keys column t cols (rs @ ms) = table_keys column t cols rs"
  by (simp add: table_keys_def filter_False)

text \<open>From one state to another: well-formedness is kept, and every row that is added satisfies \<open>ok\<close>.\<close>

definition stores_only :: "columns \<Rightarrow> ('s \<Rightarrow> model list) \<Rightarrow> (model \<Rightarrow> bool) \<Rightarrow> 's \<Rightarrow> 's \<Rightarrow> bool" where
  "stores_only column rows ok s s' \<longleftrightarrow> (well_keyed column (rows s) \<longrightarrow> well_keyed column (rows s'))
     \<and> (\<forall>m \<in> set (rows s') - set (rows s). ok m)"

lemma stores_only_refl [simp]: "stores_only column rows ok s s"
  by (simp add: stores_only_def)

lemma stores_only_same: "rows s' = rows s \<Longrightarrow> stores_only column rows ok s s'"
  by (simp add: stores_only_def)

lemma stores_only_trans:
  "stores_only column rows ok s s' \<Longrightarrow> stores_only column rows ok s' s'' \<Longrightarrow> stores_only column rows ok s s''"
  by (auto simp: stores_only_def)

lemma stores_only_mono:
  "stores_only column rows ok s s' \<Longrightarrow> (\<And>m. ok m \<Longrightarrow> ok' m) \<Longrightarrow> stores_only column rows ok' s s'"
  by (auto simp: stores_only_def)

section \<open>The records of a batch\<close>

text \<open>Every record that is gathered is the contribution of a log.\<close>

lemma add_record_entry:
  "(t, rs) \<in> set (add_record topic r m) \<Longrightarrow> x \<in> set rs \<Longrightarrow>
     (t = topic \<and> x = r) \<or> (\<exists>rs'. (t, rs') \<in> set m \<and> x \<in> set rs')"
  by (induction topic r m rule: add_record.induct) (auto split: if_splits)

lemma gather_sound:
  "gather lib chain mapEvents logs m hs = Ok (m', hs') \<Longrightarrow> (topic, rs) \<in> set m' \<Longrightarrow> r \<in> set rs \<Longrightarrow>
     (\<exists>rs'. (topic, rs') \<in> set m \<and> r \<in> set rs') \<or> (\<exists>l \<in> set logs. contribution lib chain mapEvents l = Some (topic, r))"
proof (induction logs arbitrary: m hs)
  case (Cons txLog logs)
  let ?hs = "if Log_BlockNumber txLog \<in> set hs then hs else hs @ [Log_BlockNumber txLog]"
  obtain t ts where t: "Log_Topics txLog = t # ts"
    using Cons.prems(1) by (cases "Log_Topics txLog") (auto simp: Let_def index_at_def)
  have "gather lib chain mapEvents logs (add_contribution lib chain mapEvents txLog m) ?hs = Ok (m', hs')"
    using Cons.prems(1) t
    by (auto simp: add_contribution_def contribution_def index_at_def Let_def split: option.splits outcome.splits)
  from Cons.IH [OF this Cons.prems(2,3)] show ?case
    using add_record_entry [of topic _ _ _ m r]
    by (fastforce simp: add_contribution_def split: option.splits prod.splits)
qed auto

section \<open>The writes of the EVM indexer\<close>

context gorm_engine
begin

lemma inserted_keyed:
  assumes "Create db t (DoNothing cols) (map Some ms) s = (s', None)" and "(t, cols) \<in> set keyed_tables"
    and "\<forall>m \<in> set ms. table_of m = t" and "well_keyed column (rows s)"
  shows "well_keyed column (rows s')"
  unfolding well_keyed_iff
proof clarify
  fix u cols'
  assume u: "(u, cols') \<in> set keyed_tables"
  show "distinct (table_keys column u cols' (rows s'))"
  proof (cases "u = t")
    case True
    then have "cols' = cols" using keyed_tables_unique assms(2) u by blast
    then show ?thesis
      using created(3) [OF assms(1), of u] assms(4) u by (auto simp: well_keyed_iff table_keys_def)
  next
    case False
    then obtain new where "rows s' = rows s @ new" "\<forall>m \<in> set new. table_of m \<noteq> u"
      using created(1) [OF assms(1)] assms(3) by blast
    then show ?thesis using assms(4) u table_keys_insert_other by (auto simp: well_keyed_iff)
  qed
qed

lemma create_stores_only:
  assumes "(t, cols) \<in> set keyed_tables" and "\<And>m. Some m \<in> set ps \<Longrightarrow> table_of m = t \<and> ok m"
  shows "stores_only column rows ok s (fst (Create db t (DoNothing cols) ps s))"
proof (cases "Create db t (DoNothing cols) ps s")
  case (Pair s' err)
  show ?thesis
  proof (cases err)
    case None
    then have "None \<notin> set ps" using create_nil [of ps t "DoNothing cols" s] Pair by auto
    then have "ps = map Some (map the ps)" by (induction ps) auto
    then obtain ms where ps: "ps = map Some ms" by blast
    then have c: "Create db t (DoNothing cols) (map Some ms) s = (s', None)" using Pair None by simp
    have t: "\<forall>m \<in> set ms. table_of m = t \<and> ok m" using assms(2) ps by auto
    have "well_keyed column (rows s) \<longrightarrow> well_keyed column (rows s')"
      using inserted_keyed [OF c assms(1)] t by blast
    moreover have "\<forall>m \<in> set (rows s') - set (rows s). ok m" using created(1) [OF c] t by auto
    ultimately show ?thesis using Pair by (simp add: stores_only_def)
  next
    case (Some e)
    then show ?thesis using create_err Pair by (simp add: stores_only_same)
  qed
qed

lemma assert_type_rows:
  assumes "assert_type sel t msg records = Ok rs" and "\<And>m x. sel m = Some x \<Longrightarrow> con x = m \<and> table_of m = t"
    and "Some m \<in> set (map (map_option con) rs)"
  shows "table_of m = t \<and> Ptr m \<in> set records"
proof -
  obtain x where "Some x \<in> set rs" "con x = m" using assms(3) by (auto simp: eq_commute [of "Some m"])
  then obtain i where i: "i < length rs" "rs ! i = Some x" "con x = m" by (metis in_set_conv_nth)
  then have l: "i < length records" and "(case records ! i of
      TypedNil t' \<Rightarrow> if t' = t then Ok None else Err (Errorf msg)
    | Ptr m \<Rightarrow> (case sel m of Some x \<Rightarrow> Ok (Some x) | None \<Rightarrow> Err (Errorf msg))) = Ok (Some x)"
    using assms(1) unfolding assert_type_def collect_Ok_iff by auto
  then obtain m' where m': "records ! i = Ptr m'" "sel m' = Some x"
    by (auto split: go_any.splits if_splits option.splits)
  then have "Ptr m' \<in> set records" using l by (metis nth_mem)
  with assms(2) [OF m'(2)] i(3) show ?thesis by simp
qed

lemma with_db_stores_only:
  assumes "with_db (Some db) s sel t msg records save = Ok (s', err)"
    and "\<And>rs. fst (save db rs) = fst (Create db t (DoNothing cols) (map (map_option con) rs) s)"
    and "\<And>m x. sel m = Some x \<Longrightarrow> con x = m \<and> table_of m = t" and "(t, cols) \<in> set keyed_tables"
  shows "stores_only column rows (\<lambda>m. Ptr m \<in> set records) s s'"
proof (cases "assert_type sel t msg records")
  case (Ok rs)
  then have "s' = fst (Create db t (DoNothing cols) (map (map_option con) rs) s)"
    using assms(1,2) by (metis (no_types, lifting) fst_conv option.case(2) outcome.case(1) outcome.inject(1) with_db_def)
  moreover have "stores_only column rows (\<lambda>m. Ptr m \<in> set records) s
      (fst (Create db t (DoNothing cols) (map (map_option con) rs) s))"
    by (rule create_stores_only [OF assms(4)]) (rule assert_type_rows [OF Ok assms(3)])
  ultimately show ?thesis by simp
qed (use assms(1) in \<open>auto simp: with_db_def\<close>)

lemma sel_sound:
  "sel_TokenSent m = Some a \<Longrightarrow> TokenSentM a = m \<and> table_of m = TokenSents"
  "sel_ContractCall m = Some b \<Longrightarrow> ContractCallM b = m \<and> table_of m = ContractCalls"
  "sel_ContractCallWithToken m = Some c \<Longrightarrow> ContractCallWithTokenM c = m \<and> table_of m = ContractCallWithTokens"
  "sel_ContractCallApproved m = Some d \<Longrightarrow> ContractCallApprovedM d = m \<and> table_of m = ContractCallApproveds"
  "sel_EvmRedeemTx m = Some e \<Longrightarrow> EvmRedeemTxM e = m \<and> table_of m = EvmRedeemTxs"
  "sel_CommandExecuted m = Some f \<Longrightarrow> CommandExecutedM f = m \<and> table_of m = CommandExecuteds"
  "sel_TokenDeployed m = Some g \<Longrightarrow> TokenDeployedM g = m \<and> table_of m = TokenDeployeds"
  "sel_SwitchedPhase m = Some h \<Longrightarrow> SwitchedPhaseM h = m \<and> table_of m = SwitchedPhases"
  by (cases m; simp)+

lemma SaveBatchRecords_stores_only:
  assumes "SaveBatchRecords (Some db) event records s = Ok (s', err)"
  shows "stores_only column rows (\<lambda>m. Ptr m \<in> set records) s s'"
proof (cases "records = [] \<or> \<not> list_all (\<lambda>r. dyn_type r = dyn_type (hd records)) records")
  case False
  then show ?thesis
    using assms unfolding SaveBatchRecords_def
    by (simp add: save_defs split: if_split_asm)
      (rule with_db_stores_only, assumption, rule refl fst_wrap_err, erule sel_sound, simp add: keyed_tables_def)+
qed (use assms in \<open>auto simp: SaveBatchRecords_def split: if_split_asm\<close>)

lemma save_chunks_stores_only:
  "save_chunks (Some db) event cs s = Ok (s', err) \<Longrightarrow>
     stores_only column rows (\<lambda>m. Ptr m \<in> set (concat cs)) s s'"
proof (induction cs arbitrary: s)
  case (Cons c cs)
  then obtain s1 err1 where s1: "SaveBatchRecords (Some db) event c s = Ok (s1, err1)"
    "(case err1 of Some e \<Rightarrow> Ok (s1, Some (Wrapf ''failed to save batch'' e)) | None \<Rightarrow> save_chunks (Some db) event cs s1)
       = Ok (s', err)"
    by (auto simp: and_then_Ok_iff)
  have "stores_only column rows (\<lambda>m. Ptr m \<in> set (concat (c # cs))) s s1"
    by (rule stores_only_mono [OF SaveBatchRecords_stores_only [OF s1(1)]]) simp
  moreover have "stores_only column rows (\<lambda>m. Ptr m \<in> set (concat (c # cs))) s1 s'"
  proof (cases err1)
    case None
    then have "stores_only column rows (\<lambda>m. Ptr m \<in> set (concat cs)) s1 s'" using Cons.IH s1(2) by simp
    then show ?thesis by (rule stores_only_mono) simp
  qed (use s1(2) in simp)
  ultimately show ?case by (rule stores_only_trans)
qed simp

lemma SaveRecords_stores_only:
  assumes "SaveRecords numField (Some db) event records s = Some (Ok (s', err))" and "\<And>t. 0 < numField t"
  shows "stores_only column rows (\<lambda>m. Ptr m \<in> set records) s s'"
proof -
  obtain n where "0 < n" "SaveRecords numField (Some db) event records s =
      Some (save_chunks (Some db) event (chunks_of n records) s)"
    using SaveRecords_chunks [of numField records "Some db" event s] assms(2) by auto
  then show ?thesis
    using save_chunks_stores_only [of event "chunks_of n records" s s' err] assms(1) by (simp add: concat_chunks_of)
qed

lemma save_topics_stores_only:
  assumes "save_topics numField (Some db) mapEvents m s = Some (Ok s')" and "\<And>t. 0 < numField t"
  shows "stores_only column rows (\<lambda>x. \<exists>topic rs. (topic, rs) \<in> set m \<and> Ptr x \<in> set rs) s s'"
  using assms(1)
proof (induction m arbitrary: s)
  case (Cons tr m)
  obtain topic records where tr: "tr = (topic, records)" by (cases tr)
  let ?ok = "\<lambda>m x. \<exists>topic rs. (topic, rs) \<in> set m \<and> Ptr x \<in> set rs"
  obtain s1 where s1: "stores_only column rows (\<lambda>m. Ptr m \<in> set records) s s1"
    "save_topics numField (Some db) mapEvents m s1 = Some (Ok s')"
  proof (cases "mapEvents topic")
    case None
    then show ?thesis using Cons.prems tr that [of s] by simp
  next
    case (Some event)
    obtain s1 err where r: "SaveRecords numField (Some db) event records s = Some (Ok (s1, err))"
      using SaveRecords_extends [of numField event records s] assms(2) by (auto simp: extending_def)
    then show ?thesis
      using Some Cons.prems tr that [of s1] SaveRecords_stores_only [OF r assms(2)] by simp
  qed
  have "stores_only column rows (?ok (tr # m)) s s1" by (rule stores_only_mono [OF s1(1)]) (use tr in auto)
  moreover have "stores_only column rows (?ok (tr # m)) s1 s'"
    by (rule stores_only_mono [OF Cons.IH [OF s1(2)]]) auto
  ultimately show ?case by (rule stores_only_trans)
qed simp

text \<open>The header of a block that the node returned.\<close>

lemma fetch_block_stores_only:
  assumes "fetch_block config (Some db) BlockByNumber b s = Ok s'"
  shows "stores_only column rows
    (\<lambda>m. \<exists>block h. BlockByNumber (int_of_u64 b) = Ok (Some block) \<and> header_row config block = Ok h \<and> m = BlockHeaderM h) s s'"
proof -
  consider "s' = s"
    | block h where "BlockByNumber (int_of_u64 b) = Ok (Some block)" "header_row config block = Ok h"
        "s' = fst (CreateBlockHeader db h s)"
    using assms by (auto simp: fetch_block_def and_then_Ok_iff split: outcome.splits option.splits)
  then show ?thesis
  proof cases
    case 2
    then show ?thesis
      unfolding CreateBlockHeader_def by (auto intro!: create_stores_only simp: keyed_tables_def)
  qed simp
qed

text \<open>A checkpoint of a chain.\<close>

lemma checkpoint_key:
  "(LogEventCheckPoints, cols) \<in> set keyed_tables \<Longrightarrow>
     key column cols (LogEventCheckPointM c) = (LogEventCheckPoints, [SText (cp_ChainID c)])"
  by (auto simp: keyed_tables_def key_def column_simps)

lemma checkpoint_rows_keyed:
  fixes chain b
  defines "set_block \<equiv> \<lambda>m. case m of LogEventCheckPointM c \<Rightarrow>
      if cp_ChainID c = chain then LogEventCheckPointM (c\<lparr>cp_LastBlock := b\<rparr>) else m | _ \<Rightarrow> m"
  assumes "(t, cols) \<in> set keyed_tables"
  shows "table_keys column t cols (map set_block rs) = table_keys column t cols rs"
proof -
  have "table_of (set_block m) = table_of m" for m by (cases m) (simp_all add: set_block_def)
  moreover have "key column cols (set_block m) = key column cols m" if "table_of m = t" for m
    using that assms(2) checkpoint_key by (cases m) (auto simp: set_block_def)
  ultimately show ?thesis by (simp add: table_keys_def filter_map comp_def)
qed

lemma first_checkpoint_keyed:
  assumes "\<nexists>c. LogEventCheckPointM c \<in> set rs \<and> cp_ChainID c = chain" and "well_keyed column rs"
  shows "well_keyed column (rs @ [LogEventCheckPointM \<lparr>cp_ChainID = chain, cp_LastBlock = b\<rparr>])"
  unfolding well_keyed_iff
proof clarify
  fix t cols
  assume t: "(t, cols) \<in> set keyed_tables"
  show "distinct (table_keys column t cols (rs @ [LogEventCheckPointM \<lparr>cp_ChainID = chain, cp_LastBlock = b\<rparr>]))"
  proof (cases "t = LogEventCheckPoints")
    case True
    have "key column cols m \<noteq> (LogEventCheckPoints, [SText chain])" if "m \<in> set rs" for m
    proof (cases "table_of m = LogEventCheckPoints")
      case True
      then obtain c where "m = LogEventCheckPointM c" by (auto simp: table_of_constructors)
      with that assms(1) t checkpoint_key \<open>t = LogEventCheckPoints\<close> show ?thesis by auto
    qed (simp add: key_def)
    then have "(LogEventCheckPoints, [SText chain]) \<notin> set (table_keys column t cols rs)"
      by (force simp: table_keys_def)
    moreover have "distinct (table_keys column t cols rs)" using assms(2) t by (auto simp: well_keyed_iff)
    ultimately show ?thesis using checkpoint_key t unfolding True table_keys_def by simp
  next
    case False
    then show ?thesis using assms(2) t table_keys_insert_other by (auto simp: well_keyed_iff)
  qed
qed

lemma update_checkpoint_stores_only:
  "stores_only column rows (\<lambda>m. \<exists>c. m = LogEventCheckPointM c \<and> cp_ChainID c = chain) s
     (fst (UpdateLatestFetchedBlock (Some db) chain \<lparr>cp_ChainID = chain, cp_LastBlock = b\<rparr> s))"
proof -
  obtain s' err where c: "Create db LogEventCheckPoints (DoUpdates [''chain_id''] [''last_block''])
      [Some (LogEventCheckPointM \<lparr>cp_ChainID = chain, cp_LastBlock = b\<rparr>)] s = (s', err)" by fastforce
  have "stores_only column rows (\<lambda>m. \<exists>c. m = LogEventCheckPointM c \<and> cp_ChainID c = chain) s s'"
  proof (cases err)
    case None
    note rows = checkpoint_rows [OF c [unfolded None]]
    have "well_keyed column (rows s) \<longrightarrow> well_keyed column (rows s')"
      unfolding rows using first_checkpoint_keyed checkpoint_rows_keyed by (auto simp: well_keyed_iff)
    moreover have "\<forall>m \<in> set (rows s') - set (rows s). \<exists>c. m = LogEventCheckPointM c \<and> cp_ChainID c = chain"
      unfolding rows by (auto split: model.splits)
    ultimately show ?thesis by (simp add: stores_only_def)
  qed (use create_err c in \<open>simp add: stores_only_same\<close>)
  with c show ?thesis by (simp add: UpdateLatestFetchedBlock_def)
qed

end

end
