(* ===== verification/EvmSystem.thy ===== *)
theory EvmSystem
  imports EvmPipeline SharedQuery RowKeys
begin

text \<open>
  Everything that \<open>EvmClient.Start\<close> (\<open>pkg/evm/client.go\<close>) runs: besides the goroutines of \<open>EvmPipeline\<close>, the polling for new logs
  (\<open>fetchRealtimeLogs\<close>), which uses the same channel and, through a pointer, the same query as the recovery. Here the two act at the
  granularity of \<open>SharedQuery\<close>, one access to the query at a time. What holds of the system in spite of that race: no row is
  spurious, and the database stays well formed; and the system of \<open>EvmPipeline\<close> is this one while the polling pauses.
\<close>

section \<open>Model\<close>

text \<open>
  What the goroutines share, with the query, the recovery, the variables of the polling and, while it fetches, those of its
  call of \<open>FetchRangeLogs\<close>.
\<close>

record 's evm_system = "'s evm_core" +
  shared_query :: filter_query
  recovery :: SharedQuery.fetcher
  polling :: realtime
  poll_call :: "SharedQuery.fetcher option"

text \<open>The batch that a step of \<open>FetchRangeLogs\<close> sends, and its effect on what is shared; any answer of the node may come next.\<close>

fun sent_logs :: "fetcher_event \<Rightarrow> phase \<Rightarrow> eth_log list list" where
  "sent_logs SendLogs (Answered (Logs logs)) = (if logs = [] then [] else [logs])"
| "sent_logs _ _ = []"

inductive fetcher_step ::
  "'s evm_setup \<Rightarrow> SharedQuery.fetcher \<Rightarrow> 's evm_system \<Rightarrow> SharedQuery.fetcher \<Rightarrow> 's evm_system \<Rightarrow> bool" for su where
  act: "fetcher_do (Some (su_db su)) (GetId (su_config su)) (su_rpc su n) ev (shared_query p, sys_db p, t) = Some (q, s, t') \<Longrightarrow>
     length (logsChan p @ sent_logs ev (ft_phase t)) \<le> logs_capacity \<Longrightarrow>
     fetcher_step su t p t' (p\<lparr>sys_db := s, shared_query := q, logsChan := logsChan p @ sent_logs ev (ft_phase t)\<rparr>)"

text \<open>The block number with which a round of the polling works.\<close>

definition polled_block :: "evm_network_config \<Rightarrow> round_input \<Rightarrow> realtime \<Rightarrow> u64" where
  "polled_block config i st =
     (if calculateSleepTime config (ri_now i - rt_last st) (rt_from st) (rt_current st) (rt_range st) > 0
      then block_number (ri_block i) else rt_current st)"

inductive fetchRealtimeLogs :: "'s evm_setup \<Rightarrow> 's evm_system \<Rightarrow> 's evm_system \<Rightarrow> bool" for su where
  poll_calls: "poll_call p = None \<Longrightarrow> current = polled_block (su_config su) i (polling p) \<Longrightarrow> rt_from (polling p) \<le> current \<Longrightarrow>
     fetchRealtimeLogs su p (p\<lparr>polling := (polling p)\<lparr>rt_current := current, rt_last := ri_start i,
          rt_calls := rt_calls (polling p) @ [(rt_from (polling p), current)]\<rparr>,
        poll_call := Some (new_fetcher (rt_from (polling p)) current (rt_range (polling p)) False)\<rparr>)"
| poll_skips: "poll_call p = None \<Longrightarrow> current = polled_block (su_config su) i (polling p) \<Longrightarrow> \<not> rt_from (polling p) \<le> current \<Longrightarrow>
     fetchRealtimeLogs su p (p\<lparr>polling := (polling p)\<lparr>rt_from := current + 1, rt_current := current\<rparr>\<rparr>)"
| poll_fetches: "poll_call p = Some t \<Longrightarrow> fetcher_step su t p t' q \<Longrightarrow> fetchRealtimeLogs su p (q\<lparr>poll_call := Some t'\<rparr>)"
| poll_returns: "poll_call p = Some t \<Longrightarrow> ft_phase t = Ready \<Longrightarrow> \<not> ft_from t \<le> ft_current t \<Longrightarrow>
     fetchRealtimeLogs su p (p\<lparr>polling := (polling p)\<lparr>rt_from := rt_current (polling p) + 1, rt_range := ft_range t\<rparr>,
        poll_call := None\<rparr>)"

inductive system_step :: "'s evm_setup \<Rightarrow> 's evm_system \<Rightarrow> 's evm_system \<Rightarrow> bool" for su where
  recovering: "fetcher_step su (recovery p) p t q \<Longrightarrow> system_step su p (q\<lparr>recovery := t\<rparr>)"
| polling: "fetchRealtimeLogs su p q \<Longrightarrow> system_step su p q"
| processing: "ProcessLogsFromFetcher su p q \<Longrightarrow> system_step su p q"
| fetching: "fetchBlocks su p q \<Longrightarrow> system_step su p q"

text \<open>The polling asks for the block number once more before its first round, at the time \<open>now\<close>.\<close>

definition system_start :: "'s evm_setup \<Rightarrow> filter_query \<Rightarrow> u64 outcome \<Rightarrow> int \<Rightarrow> 's \<Rightarrow> 's evm_system" where
  "system_start su query reply now s = \<lparr>sys_db = s, logsChan = [], log_processor = Receiving, blockHeightsChan = [],
     pushing = [], height_queue = blockQueue, busy_workers = {#}, taken_logs = [], finished = {}, shared_query = query,
     recovery = new_fetcher (recovery_start su s) (su_current su) (recover_range (su_config su)) True,
     polling = realtime_init (su_config su) (su_current su) reply now, poll_call = None\<rparr>"

inductive_cases fetcher_stepE: "fetcher_step su t p t' q"
inductive_cases pollE: "fetchRealtimeLogs su p q"

text \<open>A round without a call is a round of \<open>LogFetcher\<close>; a round with one makes the same call.\<close>

lemma polled_round:
  "realtime_round config fetch i st =
     (let current = polled_block config i st in
      if rt_from st \<le> current then
        map_option (\<lambda>r. \<lparr>rt_from = current + 1, rt_current = current, rt_range = r, rt_last = ri_start i,
             rt_calls = rt_calls st @ [(rt_from st, current)]\<rparr>) (fetch (rt_from st) current (rt_range st))
      else Some (st\<lparr>rt_from := current + 1, rt_current := current\<rparr>))"
  by (simp add: realtime_round_def polled_block_def Let_def)

section \<open>No spurious rows\<close>

text \<open>The logs that the node may answer, and the rows that the indexer may add.\<close>

definition answered :: "'s evm_setup \<Rightarrow> eth_log \<Rightarrow> bool" where
  "answered su l \<longleftrightarrow> (\<exists>n q logs. su_rpc su n q = Logs logs \<and> l \<in> set logs)"

lemma answeredI: "su_rpc su n q = Logs logs \<Longrightarrow> l \<in> set logs \<Longrightarrow> answered su l"
  by (auto simp: answered_def)

definition justified :: "'s evm_setup \<Rightarrow> model \<Rightarrow> bool" where
  "justified su m \<longleftrightarrow>
     (\<exists>l topic. answered su l \<and> log_record su l = Some (topic, Ptr m))
   \<or> (\<exists>n block h. su_block su n = Ok (Some block) \<and> header_row (su_config su) block = Ok h \<and> m = BlockHeaderM h)
   \<or> (\<exists>c. m = LogEventCheckPointM c \<and> cp_ChainID c = GetId (su_config su))"

definition answered_phase :: "'s evm_setup \<Rightarrow> SharedQuery.fetcher \<Rightarrow> bool" where
  "answered_phase su t \<longleftrightarrow> (\<forall>logs. ft_phase t = Answered (Logs logs) \<longrightarrow> (\<forall>l \<in> set logs. answered su l))"

definition inv_logs :: "'s evm_setup \<Rightarrow> 's evm_system \<Rightarrow> bool" where
  "inv_logs su p \<longleftrightarrow> (\<forall>logs \<in> set (logsChan p). \<forall>l \<in> set logs. answered su l)
     \<and> answered_phase su (recovery p) \<and> (\<forall>t. poll_call p = Some t \<longrightarrow> answered_phase su t)"

definition inv_records :: "'s evm_setup \<Rightarrow> ('s, 'm) evm_core_scheme \<Rightarrow> bool" where
  "inv_records su p \<longleftrightarrow> (\<forall>(topic, rs) \<in> set (pending_records (log_processor p)). \<forall>m. Ptr m \<in> set rs \<longrightarrow> justified su m)"

lemma fetcher_step_logs:
  assumes "fetcher_step su t p t' q" and "inv_logs su p" and "answered_phase su t"
  shows "inv_logs su q \<and> answered_phase su t'"
  using assms
proof cases
  case (act n ev qu s)
  then show ?thesis
    using assms(2,3)
    by (cases ev) (auto simp: inv_logs_def answered_phase_def intro: answeredI
        split: if_splits phase.splits reply.splits outcome.splits)
qed

lemma system_step_logs:
  assumes "system_step su p q" and "inv_logs su p"
  shows "inv_logs su q"
  using assms(1)
proof cases
  case (recovering t q')
  then show ?thesis
    using fetcher_step_logs [OF recovering(2) assms(2)] assms(2) by (auto simp: inv_logs_def)
next
  case polling
  then show ?thesis
  proof cases
    case (poll_fetches t t' q')
    then show ?thesis
      using fetcher_step_logs [OF poll_fetches(3) assms(2)] assms(2) by (auto simp: inv_logs_def)
  qed (use assms(2) in \<open>auto simp: inv_logs_def answered_phase_def new_fetcher_def\<close>)
next
  case processing
  then show ?thesis by cases (use assms(2) in \<open>auto simp: inv_logs_def simp del: save_topics.simps\<close>)
next
  case fetching
  then show ?thesis by cases (use assms(2) in \<open>auto simp: inv_logs_def\<close>)
qed

lemma system_step_records:
  assumes "system_step su p q" and "inv_logs su p" and "inv_records su p"
  shows "inv_records su q"
  using assms(1)
proof cases
  case (recovering t q')
  then show ?thesis by (auto elim!: fetcher_stepE simp: inv_records_def) (use assms(3) in \<open>auto simp: inv_records_def\<close>)
next
  case polling
  then show ?thesis by (elim pollE fetcher_stepE) (use assms(3) in \<open>auto simp: inv_records_def\<close>)
next
  case processing
  then show ?thesis
  proof cases
    case (receive_logs logs rest mapRecords mapBlockHeights visited)
    have "justified su m" if "(topic, rs) \<in> set visited" "Ptr m \<in> set rs" for topic rs m
    proof -
      note entry = that
      have "(topic, rs) \<in> set mapRecords" using entry(1) receive_logs(5) by (metis set_mset_mset)
      then obtain l where l: "l \<in> set logs" "log_record su l = Some (topic, Ptr m)"
        using gather_sound [OF receive_logs(4) _ entry(2)] by auto
      moreover have "answered su l" using assms(2) receive_logs(3) l(1) by (simp add: inv_logs_def)
      ultimately show ?thesis unfolding justified_def by blast
    qed
    with receive_logs(1) show ?thesis by (auto simp: inv_records_def)
  qed (use assms(3) in \<open>auto simp: inv_records_def simp del: save_topics.simps\<close>)
next
  case fetching
  then show ?thesis by cases (use assms(3) in \<open>auto simp: inv_records_def\<close>)
qed

context gorm_engine
begin

lemma fetcher_step_rows:
  assumes "fetcher_step su t p t' q" and "su_db su = db"
  shows "stores_only column rows (justified su) (sys_db p) (sys_db q)"
  using assms(1)
proof cases
  case (act n ev qu s)
  have "stores_only column rows (justified su) (sys_db p)
      (store_checkpoint (Some db) (GetId (su_config su)) store b (sys_db p))" for store b
    by (cases store) (auto simp: store_checkpoint_def justified_def intro: stores_only_mono [OF update_checkpoint_stores_only])
  then have "stores_only column rows (justified su) (sys_db p) s"
    using act(2) assms(2) by (cases ev) (auto split: if_splits phase.splits reply.splits outcome.splits)
  with act(1) show ?thesis by simp
qed

lemma system_step_rows:
  assumes "system_step su p q" and "inv_records su p" and "su_db su = db" and "\<And>t. 0 < su_numField su t"
  shows "stores_only column rows (justified su) (sys_db p) (sys_db q)"
  using assms(1)
proof cases
  case (recovering t q')
  then show ?thesis using fetcher_step_rows [OF recovering(2) assms(3)] by simp
next
  case polling
  then show ?thesis
  proof cases
    case (poll_fetches t t' q')
    then show ?thesis using fetcher_step_rows [OF poll_fetches(3) assms(3)] by simp
  qed simp_all
next
  case processing
  then show ?thesis
  proof cases
    case (save_topic tr m s)
    have "stores_only column rows (\<lambda>x. \<exists>topic rs. (topic, rs) \<in> set [tr] \<and> Ptr x \<in> set rs) (sys_db p) s"
      by (rule save_topics_stores_only [OF save_topic(3) [unfolded assms(3)] assms(4)])
    then have "stores_only column rows (justified su) (sys_db p) s"
      by (rule stores_only_mono) (use assms(2) save_topic(2) in \<open>auto simp: inv_records_def\<close>)
    with save_topic(1) show ?thesis by simp
  qed simp_all
next
  case fetching
  then show ?thesis
  proof cases
    case (worker_store b s)
    have "stores_only column rows (justified su) (sys_db p) s"
      by (rule stores_only_mono [OF fetch_block_stores_only [OF worker_store(3) [unfolded assms(3)]]])
        (auto simp: justified_def)
    with worker_store(1) show ?thesis by simp
  qed simp_all
qed

lemma system_rows:
  assumes "(system_step su)\<^sup>*\<^sup>* (system_start su query reply now s) p" and "su_db su = db" and "\<And>t. 0 < su_numField su t"
  shows "inv_logs su p \<and> inv_records su p \<and> stores_only column rows (justified su) s (sys_db p)"
  using assms(1)
proof (induction rule: rtranclp_induct)
  case base
  show ?case by (simp add: inv_logs_def inv_records_def answered_phase_def system_start_def new_fetcher_def)
next
  case (step p q)
  then have "stores_only column rows (justified su) (sys_db p) (sys_db q)"
    using system_step_rows [OF step(2) _ assms(2,3)] by simp
  with step(3) have "stores_only column rows (justified su) s (sys_db q)"
    using stores_only_trans [of column rows] by blast
  with step show ?case using system_step_logs [OF step(2)] system_step_records [OF step(2)] by simp
qed

end

section \<open>The system without polling\<close>

text \<open>The same database, channels, processor and workers.\<close>

definition same_core :: "('s, 'm) evm_core_scheme \<Rightarrow> ('s, 'n) evm_core_scheme \<Rightarrow> bool" where
  "same_core p P \<longleftrightarrow> sys_db P = sys_db p \<and> logsChan P = logsChan p \<and> log_processor P = log_processor p
     \<and> blockHeightsChan P = blockHeightsChan p \<and> pushing P = pushing p \<and> height_queue P = height_queue p
     \<and> busy_workers P = busy_workers p \<and> taken_logs P = taken_logs p \<and> finished P = finished p"

text \<open>The recovery is between two rounds, with the variables of \<open>EvmPipeline\<close>, and no call of the polling is open.\<close>

definition between_rounds :: "'s evm_setup \<Rightarrow> 's evm_state \<Rightarrow> 's evm_system \<Rightarrow> bool" where
  "between_rounds su p P \<longleftrightarrow> same_core p P \<and> poll_call P = None
     \<and> (\<forall>s. as_state (shared_query P, s, recovery P) = (fetcher p)\<lparr>fs_db := s\<rparr>)
     \<and> ft_current (recovery P) = su_current su \<and> ft_store (recovery P) \<and> ft_phase (recovery P) = Ready"

lemma fetcher_do_keeps:
  "fetcher_do dba chain f ev (q, s, t) = Some (q', s', t') \<Longrightarrow>
     ft_logs t' = ft_logs t @ sent_logs ev (ft_phase t) \<and> ft_current t' = ft_current t \<and> ft_store t' = ft_store t"
  by (cases ev) (auto split: if_splits phase.splits reply.splits outcome.splits)

lemma recovery_runs:
  assumes "fetcher_run (Some (su_db su)) (GetId (su_config su)) (su_rpc su n) evs (shared_query P, sys_db P, recovery P) =
    Some (q, s, t)"
  shows "\<exists>new. ft_logs t = ft_logs (recovery P) @ new
    \<and> ft_current t = ft_current (recovery P) \<and> ft_store t = ft_store (recovery P)
    \<and> (length (logsChan P @ new) \<le> logs_capacity \<longrightarrow>
        (system_step su)\<^sup>*\<^sup>* P (P\<lparr>sys_db := s, shared_query := q, recovery := t, logsChan := logsChan P @ new\<rparr>))"
  using assms
proof (induction evs arbitrary: P)
  case (Cons ev evs)
  obtain q1 s1 t1 where d: "fetcher_do (Some (su_db su)) (GetId (su_config su)) (su_rpc su n) ev
      (shared_query P, sys_db P, recovery P) = Some (q1, s1, t1)"
    and r: "fetcher_run (Some (su_db su)) (GetId (su_config su)) (su_rpc su n) evs (q1, s1, t1) = Some (q, s, t)"
    using Cons.prems(1) by (auto simp: bind_eq_Some_conv)
  let ?sent = "sent_logs ev (ft_phase (recovery P))"
  let ?P = "P\<lparr>sys_db := s1, shared_query := q1, logsChan := logsChan P @ ?sent\<rparr>"
  let ?P1 = "?P\<lparr>recovery := t1\<rparr>"
  obtain new where new: "ft_logs t = ft_logs t1 @ new" "ft_current t = ft_current t1" "ft_store t = ft_store t1"
    "length (logsChan ?P1 @ new) \<le> logs_capacity \<longrightarrow>
       (system_step su)\<^sup>*\<^sup>* ?P1 (?P1\<lparr>sys_db := s, shared_query := q, recovery := t, logsChan := logsChan ?P1 @ new\<rparr>)"
    using Cons.IH [of ?P1] r by auto
  have "(system_step su)\<^sup>*\<^sup>* P (P\<lparr>sys_db := s, shared_query := q, recovery := t, logsChan := logsChan P @ ?sent @ new\<rparr>)"
    if room: "length (logsChan P @ ?sent @ new) \<le> logs_capacity"
  proof -
    have "system_step su P ?P1" by (rule recovering) (rule act [OF d], use room in simp)
    with new(4) room show ?thesis by (simp add: converse_rtranclp_into_rtranclp)
  qed
  with new(1-3) fetcher_do_keeps [OF d] show ?case by (intro exI [of _ "?sent @ new"]) simp
qed auto

lemma round_simulated:
  assumes "recover_step su p q" and "between_rounds su p P"
  shows "\<exists>Q. (system_step su)\<^sup>*\<^sup>* P Q \<and> between_rounds su q Q"
  using assms(1)
proof cases
  case (fetch st)
  let ?t = "recovery P" and ?f = "su_rpc su (requests p)" and ?chain = "GetId (su_config su)"
  have R: "same_core p P" "ft_phase ?t = Ready" "ft_current ?t = su_current su" "ft_store ?t" "poll_call P = None"
    "\<And>s. as_state (shared_query P, s, ?t) = (fetcher p)\<lparr>fs_db := s\<rparr>"
    using assms(2) by (simp_all add: between_rounds_def)
  have f: "ft_from ?t = fs_from (fetcher p)" "ft_logs ?t = fs_logs (fetcher p)"
    using R(6) [THEN arg_cong [where f = fs_from]] R(6) [THEN arg_cong [where f = fs_logs]] by (simp_all add: as_state_def)
  obtain qu s t where r: "fetcher_run (Some (su_db su)) ?chain ?f
      (round_events (?f (setQueryRange (shared_query P) (ft_from ?t) (ft_range ?t) (ft_current ?t))))
      (shared_query P, sys_db P, ?t) = Some (qu, s, t)"
    "as_state (qu, s, t) = fetch_iteration (su_env su) ?f (as_state (shared_query P, sys_db P, ?t))" "ft_phase t = Ready"
    using undisturbed_iteration [of ?t "su_env su" ?chain "Some (su_db su)" ?f "shared_query P" "sys_db P"] fetch(2) f R(2-4)
    by (auto simp: su_env_def recovery_env_def)
  have st: "as_state (qu, s, t) = st"
    using r(2) R(1,6) fetch(4) by (simp add: same_core_def)
  then have db: "s = fs_db st" and logs: "ft_logs t = fs_logs st"
    by (auto simp: as_state_def)
  obtain new where new: "ft_logs t = ft_logs ?t @ new" "ft_current t = ft_current ?t" "ft_store t = ft_store ?t"
    "length (logsChan P @ new) \<le> logs_capacity \<longrightarrow>
        (system_step su)\<^sup>*\<^sup>* P (P\<lparr>sys_db := s, shared_query := qu, recovery := t, logsChan := logsChan P @ new\<rparr>)"
    using recovery_runs [OF r(1)] by blast
  have d: "drop (length (fs_logs (fetcher p))) (fs_logs st) = new" using new(1) f(2) logs by simp
  have "length new \<le> 1"
    unfolding d [symmetric] fetch(4) by (auto simp: fetch_iteration_def Let_def split: reply.split outcome.split)
  let ?Q = "P\<lparr>sys_db := s, shared_query := qu, recovery := t, logsChan := logsChan P @ new\<rparr>"
  have "as_state (qu, s', t) = st\<lparr>fs_db := s'\<rparr>" for s'
    unfolding st [symmetric] by (simp add: as_state_def)
  then have "between_rounds su q ?Q"
    unfolding fetch(1) between_rounds_def using R new(2,3) r(3) d db by (simp add: same_core_def)
  moreover have "(system_step su)\<^sup>*\<^sup>* P ?Q"
    using new(4) \<open>length new \<le> 1\<close> fetch(3) R(1) by (simp add: same_core_def)
  ultimately show ?thesis by blast
qed

lemma processing_simulated:
  assumes "ProcessLogsFromFetcher su p q" and "between_rounds su p P"
  shows "\<exists>Q. ProcessLogsFromFetcher su P Q \<and> between_rounds su q Q"
  using assms(1)
proof cases
  case (receive_logs logs rest mapRecords mapBlockHeights visited)
  then have "ProcessLogsFromFetcher su P (P\<lparr>logsChan := rest, log_processor := Sending visited mapBlockHeights,
      taken_logs := taken_logs P @ logs\<rparr>)"
    using assms(2) by (intro ProcessLogsFromFetcher.receive_logs) (auto simp: between_rounds_def same_core_def)
  with receive_logs(1) assms(2) show ?thesis
    by (intro exI conjI) (assumption, simp add: between_rounds_def same_core_def)
next
  case (send_heights m heights)
  then have "ProcessLogsFromFetcher su P (P\<lparr>log_processor := Saving m, blockHeightsChan := blockHeightsChan P @ [heights]\<rparr>)"
    using assms(2) by (intro ProcessLogsFromFetcher.send_heights) (auto simp: between_rounds_def same_core_def)
  with send_heights(1) assms(2) show ?thesis
    by (intro exI conjI) (assumption, simp add: between_rounds_def same_core_def)
next
  case (save_topic tr m s)
  then have "ProcessLogsFromFetcher su P (P\<lparr>sys_db := s, log_processor := Saving m\<rparr>)"
    using assms(2) by (intro ProcessLogsFromFetcher.save_topic) (auto simp: between_rounds_def same_core_def)
  with save_topic(1) assms(2) show ?thesis
    by (intro exI conjI) (assumption, simp add: between_rounds_def same_core_def)
next
  case batch_done
  then have "ProcessLogsFromFetcher su P (P\<lparr>log_processor := Receiving\<rparr>)"
    using assms(2) by (intro ProcessLogsFromFetcher.batch_done) (auto simp: between_rounds_def same_core_def)
  with batch_done(1) assms(2) show ?thesis
    by (intro exI conjI) (assumption, simp add: between_rounds_def same_core_def)
qed

lemma fetching_simulated:
  assumes "fetchBlocks su p q" and "between_rounds su p P"
  shows "\<exists>Q. fetchBlocks su P Q \<and> between_rounds su q Q"
  using assms(1)
proof cases
  case (receive_heights heights rest visited)
  then have "fetchBlocks su P (P\<lparr>blockHeightsChan := rest, pushing := visited\<rparr>)"
    using assms(2) by (intro fetchBlocks.receive_heights) (auto simp: between_rounds_def same_core_def)
  with receive_heights(1) assms(2) show ?thesis
    by (intro exI conjI) (assumption, simp add: between_rounds_def same_core_def)
next
  case (push_height h hs)
  then have "fetchBlocks su P (P\<lparr>pushing := hs, height_queue := Push h (height_queue P)\<rparr>)"
    using assms(2) by (intro fetchBlocks.push_height) (auto simp: between_rounds_def same_core_def)
  with push_height(1) assms(2) show ?thesis
    by (intro exI conjI) (assumption, simp add: between_rounds_def same_core_def)
next
  case (worker_pop b hq)
  then have "fetchBlocks su P (P\<lparr>height_queue := hq, busy_workers := add_mset b (busy_workers P)\<rparr>)"
    using assms(2) by (intro fetchBlocks.worker_pop) (auto simp: between_rounds_def same_core_def)
  with worker_pop(1) assms(2) show ?thesis
    by (intro exI conjI) (assumption, simp add: between_rounds_def same_core_def)
next
  case (worker_store b s)
  then have "fetchBlocks su P (P\<lparr>sys_db := s, busy_workers := busy_workers P - {#b#}, finished := insert b (finished P)\<rparr>)"
    using assms(2) by (intro fetchBlocks.worker_store) (auto simp: between_rounds_def same_core_def)
  with worker_store(1) assms(2) show ?thesis
    by (intro exI conjI) (assumption, simp add: between_rounds_def same_core_def)
qed

lemma evm_step_simulated:
  assumes "evm_step su p q" and "between_rounds su p P"
  shows "\<exists>Q. (system_step su)\<^sup>*\<^sup>* P Q \<and> between_rounds su q Q"
  using assms(1)
proof cases
  case recover
  then show ?thesis by (rule round_simulated [OF _ assms(2)])
next
  case process
  then show ?thesis using processing_simulated [OF _ assms(2)] processing by (metis r_into_rtranclp)
next
  case blocks
  then show ?thesis using fetching_simulated [OF _ assms(2)] fetching by (metis r_into_rtranclp)
qed

lemma evm_run_simulated:
  "(evm_step su)\<^sup>*\<^sup>* (Start su query s) p \<Longrightarrow>
     \<exists>P. (system_step su)\<^sup>*\<^sup>* (system_start su query reply now s) P \<and> between_rounds su p P"
proof (induction rule: rtranclp_induct)
  case base
  have "between_rounds su (Start su query s) (system_start su query reply now s)"
    by (simp add: between_rounds_def same_core_def Start_def system_start_def as_state_def new_fetcher_def
        recovery_state_def recovery_start_def)
  then show ?case by blast
next
  case (step p q)
  then show ?case using evm_step_simulated by (meson rtranclp_trans)
qed

section \<open>Properties\<close>

text \<open>The chain that a row of the EVM indexer belongs to.\<close>

fun row_chain :: "model \<Rightarrow> string option" where
  "row_chain (BlockHeaderM h) = Some (bh_Chain h)"
| "row_chain (TokenSentM t) = Some (ts_SourceChain t)"
| "row_chain (CommandExecutedM c) = Some (ce_SourceChain c)"
| "row_chain (ContractCallM c) = Some (cc_SourceChain c)"
| "row_chain (ContractCallApprovedM c) = Some (cca_DestinationChain c)"
| "row_chain (ContractCallWithTokenM c) = Some (cc_SourceChain (ccwt_ContractCall c))"
| "row_chain (TokenDeployedM d) = Some (td_SourceChain d)"
| "row_chain (EvmRedeemTxM r) = Some (er_SourceChain r)"
| "row_chain (SwitchedPhaseM p) = Some (sp_SourceChain p)"
| "row_chain (LogEventCheckPointM c) = Some (cp_ChainID c)"
| "row_chain (BtcBlockHeaderM h) = None"
| "row_chain (VaultTransactionM t) = None"

lemma converted_chain:
  "TokenSentEvent2Model lib chain e1 = Ok t \<Longrightarrow> ts_SourceChain t = chain"
  "ContractCallWithTokenEvent2Model lib chain e2 = Ok (Some c) \<Longrightarrow> cc_SourceChain (ccwt_ContractCall c) = chain"
  "RedeemTokenEvent2Model lib chain e3 = Ok (Some r) \<Longrightarrow> er_SourceChain r = chain"
  unfolding TokenSentEvent2Model_def ContractCallWithTokenEvent2Model_def RedeemTokenEvent2Model_def Let_def
  by (auto simp only: and_then_Ok_iff outcome.inject option.inject token_sent.simps contract_call.simps contract_call_with_token.simps
      evm_redeem_tx.simps outcome.distinct option.distinct dest!: or_nil_Some [THEN iffD1] split: if_splits)

lemma model_chain: "event_model lib chain e = Ok (Ptr m) \<Longrightarrow> row_chain m = Some chain"
  using converted_chain
  by (cases e)
    (auto simp: and_then_Ok_iff ContractCallEvent2Model_def ContractCallApprovedEvent2Model_def CommandExecutedEvent2Model_def
      TokenDeployedEvent2Model_def SwitchPhaseEvent2Model_def Let_def split: option.splits)

lemma justified_chain:
  assumes "justified su m"
  shows "row_chain m = Some (GetId (su_config su))"
proof -
  have "row_chain m = Some (GetId (su_config su))" if c: "log_record su l = Some (topic, Ptr m)" for l topic
  proof -
    obtain event e where "parseEventLog (su_lib su) (GetId (su_config su)) event l = Ok (e, Ptr m)"
      using contribution_parsed [OF c] by blast
    then have "event_model (su_lib su) (GetId (su_config su)) e = Ok (Ptr m)"
      by (auto simp: parseEventLog_def and_then_Ok_iff split: option.splits)
    then show ?thesis by (rule model_chain)
  qed
  with assms show ?thesis by (auto simp: justified_def header_row_def split: option.splits)
qed

text \<open>
  The rows of the EVM indexer are well formed. Whatever the recovery, the polling, the log processing and the block
  workers do, and in whatever order, no table ever holds two rows with the same identifying columns if the database
  that the indexer found did not, and every row that is new belongs to the chain of the indexer.
\<close>

theorem evm_rows_well_formed:
  assumes "gorm_engine (su_db su) rows column assign" and "\<And>t. 0 < su_numField su t" and "well_keyed column (rows s)"
    and "(system_step su)\<^sup>*\<^sup>* (system_start su query reply now s) p"
  shows "well_keyed column (rows (sys_db p))
    \<and> (\<forall>m \<in> set (rows (sys_db p)) - set (rows s). row_chain m = Some (GetId (su_config su)))"
  using gorm_engine.system_rows [OF assms(1,4) refl assms(2)] assms(3) justified_chain by (auto simp: stores_only_def)

text \<open>
  C7: the EVM indexer stores nothing of its own making. Every row that is new is the record of a log that the node has
  answered, the header of a block that the node has returned, or the checkpoint of this chain; and this in spite of the query
  that the recovery and the polling overwrite for each other.
\<close>

theorem evm_no_spurious_rows:
  assumes "gorm_engine (su_db su) rows column assign" and "\<And>t. 0 < su_numField su t"
    and "(system_step su)\<^sup>*\<^sup>* (system_start su query reply now s) p"
    and "m \<in> set (rows (sys_db p))" and "m \<notin> set (rows s)"
  shows "(\<exists>n q logs l topic. su_rpc su n q = Logs logs \<and> l \<in> set logs \<and> log_record su l = Some (topic, Ptr m))
    \<or> (\<exists>n block h. su_block su n = Ok (Some block) \<and> header_row (su_config su) block = Ok h \<and> m = BlockHeaderM h)
    \<or> (\<exists>c. m = LogEventCheckPointM c \<and> cp_ChainID c = GetId (su_config su))"
proof -
  have "justified su m"
    using gorm_engine.system_rows [OF assms(1,3) refl assms(2)] assms(4,5) by (simp add: stores_only_def)
  then show ?thesis unfolding justified_def answered_def by blast
qed


section \<open>A concrete run\<close>

text \<open>The run of the example of \<open>EvmPipeline\<close>, from an empty database to a row for each transfer.\<close>

lemma example_run:
  "\<exists>p. (evm_step example_setup)\<^sup>*\<^sup>* (Start example_setup no_query []) p
    \<and> transfer_stored transfer_eth (example_transfer 51) (sys_db p)"
proof -
  obtain p where p: "(evm_step example_setup)\<^sup>*\<^sup>* (Start example_setup no_query []) p" "evm_idle example_setup p"
    using evm_finishes [OF example_setup_ok(1,3) example_range(2) example_setup_ok(4,5,6) rtranclp.rtrancl_refl] by blast
  have "51 \<in> {int (unat (recovery_start example_setup []))..int (unat (su_current example_setup))}"
    by (simp add: example_range(1) example_setup_fields)
  moreover have "example_transfer 51 \<in> set (transfer_chain 51)" by (simp add: transfer_chain_def)
  ultimately show ?thesis
    using idle_stored [OF example_setup_ok(1,3) example_range(2) p] example_transfer_ok(2) p(1)
    unfolding log_stored_def example_setup_fields by blast
qed

lemma example_system_run:
  "\<exists>P. (system_step example_setup)\<^sup>*\<^sup>* (system_start example_setup no_query (Ok 52) 0 []) P
    \<and> transfer_stored transfer_eth (example_transfer 51) (sys_db P)"
proof -
  obtain p where p: "(evm_step example_setup)\<^sup>*\<^sup>* (Start example_setup no_query []) p"
    "transfer_stored transfer_eth (example_transfer 51) (sys_db p)" using example_run by blast
  obtain P where "(system_step example_setup)\<^sup>*\<^sup>* (system_start example_setup no_query (Ok 52) 0 []) P" "same_core p P"
    using evm_run_simulated [OF p(1)] unfolding between_rounds_def by blast
  with p(2) show ?thesis by (auto simp: same_core_def)
qed

lemma example_setup_db:
  "gorm_engine (su_db example_setup) (\<lambda>s. s) mem_column mem_assign" "0 < su_numField example_setup t"
  using mem.gorm_engine_axioms by (simp_all add: example_setup_def)

theorem evm_rows_well_formed_witness:
  "\<exists>P. (system_step example_setup)\<^sup>*\<^sup>* (system_start example_setup no_query (Ok 52) 0 []) P
    \<and> transfer_stored transfer_eth (example_transfer 51) (sys_db P) \<and> well_keyed mem_column (sys_db P)
    \<and> (\<forall>m \<in> set (sys_db P). row_chain m = Some ''evm|1'')"
proof -
  obtain P where P: "(system_step example_setup)\<^sup>*\<^sup>* (system_start example_setup no_query (Ok 52) 0 []) P"
    "transfer_stored transfer_eth (example_transfer 51) (sys_db P)" using example_system_run by blast
  have "well_keyed mem_column []" by (simp add: well_keyed_def keyed_tables_def table_keys_def)
  then show ?thesis
    using evm_rows_well_formed [OF example_setup_db _ P(1)] P
    by (auto simp: example_setup_fields example_evm_config_def GetId_def)
qed

theorem evm_no_spurious_rows_witness:
  "\<exists>P t. (system_step example_setup)\<^sup>*\<^sup>* (system_start example_setup no_query (Ok 52) 0 []) P
    \<and> TokenSentM t \<in> set (sys_db P)
    \<and> (\<exists>n q logs l topic. su_rpc example_setup n q = Logs logs \<and> l \<in> set logs
        \<and> log_record example_setup l = Some (topic, Ptr (TokenSentM t)))"
proof -
  obtain P where P: "(system_step example_setup)\<^sup>*\<^sup>* (system_start example_setup no_query (Ok 52) 0 []) P"
    "transfer_stored transfer_eth (example_transfer 51) (sys_db P)" using example_system_run by blast
  then obtain t where t: "TokenSentM t \<in> set (sys_db P)" by (auto simp: transfer_stored_iff)
  have "\<exists>n q logs l topic. su_rpc example_setup n q = Logs logs \<and> l \<in> set logs
      \<and> log_record example_setup l = Some (topic, Ptr (TokenSentM t))"
    using evm_no_spurious_rows [OF example_setup_db P(1) t] by simp
  with P(1) t show ?thesis by blast
qed


end
