(* ===== verification/EvmAnswers.thy ===== *)
theory EvmAnswers
  imports EvmSystem
begin

text \<open>
  What becomes of the answers of an EVM node, in the whole of \<open>EvmClient.Start\<close> with its polling (\<open>EvmSystem\<close>). The query that the recovery and
  the polling share decides which blocks are asked for, but whatever has been answered is never lost on its way to the database: it is
  in a goroutine's hands, in the channel or taken by the processor, and it is stored when nothing is left to do.
\<close>

section \<open>Logs on their way\<close>

fun answer_logs :: "phase \<Rightarrow> eth_log set" where
  "answer_logs (Answered (Logs logs)) = set logs"
| "answer_logs _ = {}"

definition poll_logs :: "SharedQuery.fetcher option \<Rightarrow> eth_log set" where
  "poll_logs call = (case call of None \<Rightarrow> {} | Some t \<Rightarrow> answer_logs (ft_phase t))"

text \<open>All logs that the client has received so far, and that those who fetch have sent on what they received.\<close>

definition received_logs :: "'s evm_system \<Rightarrow> eth_log set" where
  "received_logs p = answer_logs (ft_phase (recovery p)) \<union> poll_logs (poll_call p) \<union> set (concat (logsChan p)) \<union> set (taken_logs p)"

definition settled :: "'s evm_system \<Rightarrow> bool" where
  "settled p \<longleftrightarrow> drained p \<and> answer_logs (ft_phase (recovery p)) = {} \<and> poll_logs (poll_call p) = {}"

lemma poll_logs_simps [simp]: "poll_logs None = {}" "poll_logs (Some t) = answer_logs (ft_phase t)"
  by (simp_all add: poll_logs_def)

lemma fetcher_step_keeps_logs:
  assumes "fetcher_step su t p t' q"
  shows "answer_logs (ft_phase t) \<union> set (concat (logsChan p)) \<subseteq> answer_logs (ft_phase t') \<union> set (concat (logsChan q))
    \<and> taken_logs q = taken_logs p \<and> recovery q = recovery p \<and> poll_call q = poll_call p"
  using assms
proof cases
  case (act n ev qu s)
  then show ?thesis by (cases ev) (auto split: if_splits phase.splits reply.splits outcome.splits)
qed

lemma received_step:
  assumes "system_step su p q"
  shows "received_logs p \<subseteq> received_logs q"
  using assms
proof cases
  case (recovering t q')
  from fetcher_step_keeps_logs [OF recovering(2)] recovering(1) show ?thesis by (auto simp: received_logs_def)
next
  case polling
  then show ?thesis
  proof cases
    case (poll_fetches t t' q')
    from fetcher_step_keeps_logs [OF poll_fetches(3)] poll_fetches(1,2) show ?thesis by (auto simp: received_logs_def)
  qed (auto simp: received_logs_def)
next
  case processing
  then show ?thesis by cases (auto simp: received_logs_def simp del: save_topics.simps)
next
  case fetching
  then show ?thesis by cases (auto simp: received_logs_def)
qed

lemma received_run: "(system_step su)\<^sup>*\<^sup>* p q \<Longrightarrow> received_logs p \<subseteq> received_logs q"
  by (induction rule: rtranclp_induct) (use received_step in blast)+

section \<open>The invariant of a client\<close>

text \<open>Rows of other clients may come in between: the invariant only needs its own rows to stay.\<close>

definition client_inv ::
  "'s evm_setup \<Rightarrow> columns \<Rightarrow> ('s \<Rightarrow> model list) \<Rightarrow> 's evm_system \<Rightarrow> bool" where
  "client_inv su column rows p \<longleftrightarrow> inv_logs su p \<and> inv_heights p \<and> inv_rows su (Collect (answered su)) column rows p"

text \<open>What is supposed of a client: no answer makes a goroutine panic, decoding keeps \<open>Raw\<close>, and row types have fields.\<close>

definition well_set :: "'s evm_setup \<Rightarrow> bool" where
  "well_set su \<longleftrightarrow> harmless su (Collect (answered su)) \<and> decodes_in_place (su_lib su) \<and> (\<forall>t. 0 < su_numField su t)"

lemma well_setD:
  "well_set su \<Longrightarrow> harmless su (Collect (answered su))" "well_set su \<Longrightarrow> decodes_in_place (su_lib su)"
  "well_set su \<Longrightarrow> 0 < su_numField su t"
  by (simp_all add: well_set_def)

lemma client_sent: "client_inv su column rows p \<Longrightarrow> sent_within (Collect (answered su)) p"
  by (auto simp: client_inv_def inv_logs_def sent_within_def)

lemma client_inv_keeps:
  assumes "client_inv su column rows p" and "keeps rows (sys_db p) s"
  shows "client_inv su column rows (p\<lparr>sys_db := s\<rparr>)"
proof -
  have "inv_rows su (Collect (answered su)) column rows (p\<lparr>sys_db := s\<rparr>)"
    by (rule inv_rows_keeps [where p = p]) (use assms in \<open>simp_all add: client_inv_def\<close>)
  with assms(1) show ?thesis by (simp add: client_inv_def inv_logs_def inv_heights_def)
qed

lemma client_inv_start: "client_inv su column rows (system_start su query reply now s)"
  using blockQueue_inv
  by (simp add: client_inv_def inv_logs_def inv_heights_def inv_rows_def answered_phase_def system_start_def new_fetcher_def)

lemma client_settled_stored:
  assumes "gorm_engine (su_db su) rows column assign" and "well_set su" and "client_inv su column rows p" and "settled p"
    and "l \<in> received_logs p"
  shows "log_stored su (Collect (answered su)) column l (rows (sys_db p))"
proof (rule drained_stored [OF assms(1) well_setD(2) [OF assms(2)]])
  show "l \<in> set (taken_logs p)" using assms(4,5) by (simp add: settled_def received_logs_def drained_def)
qed (use assms(3,4) in \<open>simp_all add: client_inv_def settled_def\<close>)

context gorm_engine
begin

lemma store_checkpoint_keeps: "keeps rows s (store_checkpoint (Some db) chain store b s)"
  using checkpoint_data_rows by (cases store) (auto simp: store_checkpoint_def intro: data_rows_keeps)

lemma fetcher_step_kept:
  assumes "fetcher_step su t p t' q" and "su_db su = db"
  shows "keeps rows (sys_db p) (sys_db q) \<and> taken_logs q = taken_logs p \<and> log_processor q = log_processor p
    \<and> finished q = finished p \<and> inv_heights q = inv_heights p"
  using assms(1)
proof cases
  case (act n ev qu s)
  have "keeps rows (sys_db p) s"
    using act(2) assms(2) store_checkpoint_keeps
    by (cases ev) (auto split: if_splits phase.splits reply.splits outcome.splits)
  with act(1) show ?thesis by (simp add: inv_heights_def)
qed

lemma system_step_keeps:
  assumes "system_step su p q" and "su_db su = db" and "\<And>t. 0 < su_numField su t"
  shows "keeps rows (sys_db p) (sys_db q)"
  using assms(1)
proof cases
  case (recovering t q')
  then show ?thesis using fetcher_step_kept [OF recovering(2) assms(2)] by simp
next
  case polling
  then show ?thesis
  proof cases
    case (poll_fetches t t' q')
    then show ?thesis using fetcher_step_kept [OF poll_fetches(3) assms(2)] by simp
  qed simp_all
next
  case processing
  then show ?thesis
  proof cases
    case (save_topic tr m s)
    then show ?thesis using save_topics_keeps [OF assms(3) save_topic(3) [unfolded assms(2)]] by simp
  qed simp_all
next
  case fetching
  then show ?thesis
  proof cases
    case (worker_store b s)
    then show ?thesis using fetch_block_keeps [OF worker_store(3) [unfolded assms(2)]] by simp
  qed simp_all
qed

end

context accepting_engine
begin

lemma client_inv_step:
  assumes "system_step su p q" and "client_inv su column rows p" and "su_db su = db" and "well_set su"
  shows "client_inv su column rows q"
proof -
  note inv = assms(2) [unfolded client_inv_def]
  note sent = client_sent [OF assms(2)]
  have logs: "inv_logs su q" using system_step_logs [OF assms(1)] inv by blast
  have kept: "inv_heights r \<and> inv_rows su (Collect (answered su)) column rows r"
    if f: "fetcher_step su t p t' r" for t t' r
    using inv fetcher_step_kept [OF f assms(3)] inv_rows_keeps [of su "Collect (answered su)" column rows p r] by simp
  have "inv_heights q \<and> inv_rows su (Collect (answered su)) column rows q"
    using assms(1)
  proof cases
    case (recovering t q')
    then show ?thesis using kept [OF recovering(2)] by (simp add: inv_heights_def inv_rows_def)
  next
    case polling
    then show ?thesis
    proof cases
      case (poll_fetches t t' q')
      then show ?thesis using kept [OF poll_fetches(3)] by (simp add: inv_heights_def inv_rows_def)
    qed (use inv in \<open>simp_all add: inv_heights_def inv_rows_def\<close>)
  next
    case processing
    then show ?thesis
      using processor_inv_heights [OF processing _ sent] process_inv_rows [OF processing _ sent] inv assms(3) well_setD [OF assms(4)]
      by blast
  next
    case fetching
    then show ?thesis using pool_inv_heights [OF fetching] pool_inv_rows [OF fetching _ assms(3)] inv by blast
  qed
  with logs show ?thesis by (simp add: client_inv_def)
qed

lemma client_inv_run:
  assumes "(system_step su)\<^sup>*\<^sup>* p q" and "client_inv su column rows p" and "su_db su = db" and "well_set su"
  shows "client_inv su column rows q"
  using assms(1)
  by (induction rule: rtranclp_induct) (use assms(2) client_inv_step [OF _ _ assms(3,4)] in blast)+

end

section \<open>Settling\<close>

text \<open>
  While something is left to do, a step brings the client closer to having done it: first the answers in hand are to be sent, then the
  work behind the channel is to be done.
\<close>

definition in_hand :: "'s evm_system \<Rightarrow> nat" where
  "in_hand p = (if answer_logs (ft_phase (recovery p)) = {} then 0 else 1) + (if poll_logs (poll_call p) = {} then 0 else 1)"

definition settle_measure :: "('s evm_system \<times> 's evm_system) set" where
  "settle_measure = measures [in_hand, evm_work]"

lemma answer_logs_cases: "answer_logs ph \<noteq> {} \<Longrightarrow> \<exists>logs. ph = Answered (Logs logs) \<and> logs \<noteq> []"
  by (induction ph rule: answer_logs.induct) auto

text \<open>With an empty channel an answer can be sent.\<close>

lemma answer_sent:
  assumes "answer_logs (ft_phase t) \<noteq> {}" and "logsChan p = []"
  shows "\<exists>t' q. fetcher_step su t p t' q \<and> answer_logs (ft_phase t') = {} \<and> recovery q = recovery p \<and> poll_call q = poll_call p"
proof -
  obtain logs where l: "ft_phase t = Answered (Logs logs)" "logs \<noteq> []" using answer_logs_cases [OF assms(1)] by blast
  let ?t = "t\<lparr>ft_logs := ft_logs t @ [logs], ft_phase := LogsSent\<rparr>"
  have "fetcher_do (Some (su_db su)) (GetId (su_config su)) (su_rpc su n) SendLogs (shared_query p, sys_db p, t) =
      Some (shared_query p, sys_db p, ?t)" for n
    using l by simp
  from act [OF this] assms(2) l have "fetcher_step su t p ?t (p\<lparr>logsChan := [logs]\<rparr>)" by (simp add: logs_capacity_def)
  then show ?thesis by (intro exI [of _ ?t] exI [of _ "p\<lparr>logsChan := [logs]\<rparr>"]) simp
qed

lemma readers_keep_answers:
  "ProcessLogsFromFetcher su p q \<or> fetchBlocks su p q \<Longrightarrow> in_hand q = in_hand p"
  by (auto simp: in_hand_def elim!: ProcessLogsFromFetcher.cases fetchBlocks.cases)

lemma settling_step:
  assumes "gorm_engine (su_db su) rows column assign" and "well_set su" and "harmless_blocks su"
    and "0 \<le> evm_FetchThread (su_config su)" and "client_inv su column rows p" and "\<not> settled p"
  shows "\<exists>q. system_step su p q \<and> (q, p) \<in> settle_measure"
proof -
  consider "\<not> drained p" | "drained p" "answer_logs (ft_phase (recovery p)) \<noteq> {}"
    | t where "drained p" "poll_call p = Some t" "answer_logs (ft_phase t) \<noteq> {}"
    using assms(6) by (cases "poll_call p") (auto simp: settled_def)
  then show ?thesis
  proof cases
    case 1
    then obtain q where q: "ProcessLogsFromFetcher su p q \<or> fetchBlocks su p q"
      using not_drained_step [OF assms(1) 1 client_sent [OF assms(5)] well_setD(1-3) [OF assms(2)] assms(3,4)] by blast
    have "block_queue_inv (height_queue p)" using assms(5) by (simp add: client_inv_def inv_heights_def)
    then have "evm_work q < evm_work p" using q processor_step_work pool_step_work by blast
    with q readers_keep_answers [OF q] show ?thesis
      by (auto simp: settle_measure_def intro: processing fetching)
  next
    case 2
    then obtain t q where q: "fetcher_step su (recovery p) p t q" "answer_logs (ft_phase t) = {}" "poll_call q = poll_call p"
      using answer_sent [of "recovery p" p su] by (auto simp: drained_def)
    from recovering [OF q(1)] q(2,3) 2(2) show ?thesis
      by (intro exI [of _ "q\<lparr>recovery := t\<rparr>"]) (simp add: settle_measure_def in_hand_def)
  next
    case 3
    then obtain t' q where q: "fetcher_step su t p t' q" "answer_logs (ft_phase t') = {}" "recovery q = recovery p"
      using answer_sent [of t p su] by (auto simp: drained_def)
    from polling [OF poll_fetches [OF 3(2) q(1)]] q(2,3) 3(2,3) show ?thesis
      by (intro exI [of _ "q\<lparr>poll_call := Some t'\<rparr>"]) (simp add: settle_measure_def in_hand_def)
  qed
qed

section \<open>Properties\<close>

lemma client_reachable:
  assumes "accepting_engine (su_db su) rows column assign" and "well_set su"
    and "(system_step su)\<^sup>*\<^sup>* (system_start su query reply now s) p"
  shows "client_inv su column rows p"
  by (rule accepting_engine.client_inv_run [OF assms(1,3) client_inv_start refl assms(2)])

text \<open>
  No answer of the node is lost. Whatever the recovery, the polling, the processor and the workers of an EVM client do, and in
  whatever order: a log that has been received at some time is stored at any later time at which nothing is left to do. It has a row with
  the identifying columns of its record, if no log of its topic converts to nil; a row with its event id, if it is a token transfer
  that can be decoded; and the header of its block is stored, if the node returned the block.
\<close>

theorem evm_answers_stored:
  assumes "accepting_engine (su_db su) rows column assign" and "well_set su"
    and "(system_step su)\<^sup>*\<^sup>* (system_start su query reply now s) p" and "l \<in> received_logs p"
    and "(system_step su)\<^sup>*\<^sup>* p q" and "settled q"
  shows "log_stored su (Collect (answered su)) column l (rows (sys_db q))"
proof (rule client_settled_stored [OF _ assms(2) _ assms(6)])
  show "gorm_engine (su_db su) rows column assign" using assms(1) by (simp add: accepting_engine_def)
  show "client_inv su column rows q" by (rule client_reachable [OF assms(1,2) rtranclp_trans [OF assms(3,5)]])
  show "l \<in> received_logs q" using received_run [OF assms(5)] assms(4) by blast
qed


section \<open>A concrete run\<close>

lemma example_answered: "answered example_setup l \<longleftrightarrow> (\<exists>b. l \<in> set (transfer_chain b))"
proof
  assume "\<exists>b. l \<in> set (transfer_chain b)"
  then obtain b where b: "l = example_transfer (word_of_int b)" by (auto simp: transfer_chain_def)
  let ?b = "uint (word_of_int b :: u64)"
  have "su_rpc example_setup 0 \<lparr>FromBlock = ?b, ToBlock = ?b\<rparr> = Logs [l]" using b by (simp add: example_setup_def transfer_chain_def)
  then show "answered example_setup l" by (auto intro: answeredI)
qed (auto simp: answered_def example_setup_def)

lemma example_well_set: "well_set example_setup"
proof -
  have "harmless_logs example_setup transfer_chain" "decodes_in_place (su_lib example_setup)" "\<forall>t. 0 < su_numField example_setup t"
    using example_setup_ok(3) by (simp_all add: orderly_def)
  then show ?thesis by (auto simp: well_set_def harmless_def harmless_logs_def list_all_iff example_answered)
qed

lemma example_received:
  "\<exists>P. (system_step example_setup)\<^sup>*\<^sup>* (system_start example_setup no_query (Ok 52) 0 []) P \<and> settled P
    \<and> example_transfer 51 \<in> received_logs P"
proof -
  obtain p where p: "(evm_step example_setup)\<^sup>*\<^sup>* (Start example_setup no_query []) p" "evm_idle example_setup p"
    using evm_finishes [OF example_setup_ok(1,3) example_range(2) example_setup_ok(4,5,6) rtranclp.rtrancl_refl] by blast
  have "int (unat (51 :: u64)) \<in> set [int (unat (recovery_start example_setup []))..int (unat (su_current example_setup))]"
    by (simp add: example_range(1) example_setup_fields)
  moreover have "example_transfer 51 \<in> set (transfer_chain (int (unat (51 :: u64))))" by (simp add: transfer_chain_def)
  ultimately have t: "example_transfer 51 \<in> set (taken_logs p)"
    unfolding idle_taken [OF example_setup_ok(1,3) example_range(2) p] by (auto simp del: upto.simps)
  obtain P where P: "(system_step example_setup)\<^sup>*\<^sup>* (system_start example_setup no_query (Ok 52) 0 []) P"
    "between_rounds example_setup p P"
    using evm_run_simulated [OF p(1)] by blast
  then have "settled P" "taken_logs P = taken_logs p"
    using p(2) by (simp_all add: between_rounds_def same_core_def settled_def evm_idle_def drained_def)
  with P(1) t show ?thesis by (auto simp: received_logs_def)
qed

theorem evm_answers_stored_witness:
  "\<exists>P. (system_step example_setup)\<^sup>*\<^sup>* (system_start example_setup no_query (Ok 52) 0 []) P
    \<and> transfer_stored transfer_eth (example_transfer 51) (sys_db P)"
proof -
  obtain P where P: "(system_step example_setup)\<^sup>*\<^sup>* (system_start example_setup no_query (Ok 52) 0 []) P" "settled P"
    "example_transfer 51 \<in> received_logs P" using example_received by blast
  from evm_answers_stored [OF example_setup_ok(1) example_well_set P(1,3) rtranclp.rtrancl_refl P(2)] P(1) example_transfer_ok(2)
  show ?thesis unfolding log_stored_def example_setup_fields by blast
qed


end
