(* ===== verification/BtcIndexing.thy ===== *)
theory BtcIndexing
  imports BtcSync RowKeys
begin

text \<open>
  \<open>indexBlock\<close> of \<open>pkg/btc/btcnode.go\<close> step by step, for the clients that share a database: between two of its steps other clients may
  change the rows. A step is a call of the reorganisation handler, of \<open>StoreBlockHeader\<close> or of \<open>StoreVaultTransactions\<close>.
\<close>

section \<open>Model\<close>

text \<open>Where the goroutine stands: at the receive, or with a block before one of its calls.\<close>

datatype indexing =
  Waiting | Checking wire_header block_verbose | Storing wire_header block_verbose | Parsing block_verbose

text \<open>The height of the chain, which another goroutine sets, is read when the block is checked.\<close>

inductive indexBlock_step :: "'s node \<Rightarrow> indexing \<times> 's \<Rightarrow> indexing \<times> 's \<Rightarrow> bool" for n where
  block_received: "extractBlockHeader (node_lib n) now block = Ok header \<Longrightarrow>
     indexBlock_step n (Waiting, s) (Checking header block, s)"
| block_unreadable: "extractBlockHeader (node_lib n) now block = Err e \<Longrightarrow> indexBlock_step n (Waiting, s) (Waiting, s)"
| reorg_checked: "check_reorg n header currHeight block s = Ok (Some s') \<Longrightarrow>
     indexBlock_step n (Checking header block, s) (Storing header block, s')"
| hash_unreadable: "check_reorg n header currHeight block s = Ok None \<Longrightarrow>
     indexBlock_step n (Checking header block, s) (Waiting, s)"
| header_stored: "s' = fst (StoreBlockHeader (node_db n) (node_lib n) (node_hash n) header (Block_Height block) s) \<Longrightarrow>
     indexBlock_step n (Storing header block, s) (Parsing block, s')"
| transactions_stored: "index_txs (node_lib n) (node_config n) block 0 (Block_Tx block) = Ok vaultTxs \<Longrightarrow>
     s' = (if vaultTxs = [] then s else fst (StoreVaultTransactions (node_db n) vaultTxs s)) \<Longrightarrow>
     indexBlock_step n (Parsing block, s) (Waiting, s')"

text \<open>Undisturbed, the steps are those of \<open>index_one\<close>.\<close>

lemma index_one_steps:
  assumes "index_one n now currHeight (Some block) s = Ok s'"
  shows "(indexBlock_step n)\<^sup>*\<^sup>* (Waiting, s) (Waiting, s')"
proof (cases "extractBlockHeader (node_lib n) now block")
  case header: (Ok header)
  note received = block_received [OF header, of s]
  obtain r where r: "check_reorg n header currHeight block s = Ok r"
    using assms header by (auto simp: index_one_def and_then_Ok_iff)
  show ?thesis
  proof (cases r)
    case None
    with assms header r have "s' = s" by (simp add: index_one_def)
    with received hash_unreadable [OF r [unfolded None]] show ?thesis by (meson converse_rtranclp_into_rtranclp r_into_rtranclp)
  next
    case (Some s1)
    let ?s2 = "fst (StoreBlockHeader (node_db n) (node_lib n) (node_hash n) header (Block_Height block) s1)"
    obtain vs where vs: "index_txs (node_lib n) (node_config n) block 0 (Block_Tx block) = Ok vs"
      "s' = (if vs = [] then ?s2 else fst (StoreVaultTransactions (node_db n) vs ?s2))"
      using assms header r Some by (auto simp: index_one_def and_then_Ok_iff Let_def split: if_split_asm)
    from received reorg_checked [OF r [unfolded Some]] header_stored [OF refl] transactions_stored [OF vs]
    show ?thesis by (meson converse_rtranclp_into_rtranclp r_into_rtranclp)
  qed
qed (use assms block_unreadable in \<open>auto simp: index_one_def\<close>)

section \<open>The rows of a Bitcoin client\<close>

text \<open>A rollback removes rows of its two tables, even when its second statement fails; no table gets a duplicate key by it.\<close>

lemma well_keyed_filter: "well_keyed column rs \<Longrightarrow> well_keyed column (filter P rs)"
proof -
  have "distinct (map f (filter Q rs)) \<Longrightarrow> distinct (map f (filter Q (filter P rs)))" for f :: "model \<Rightarrow> table \<times> sql_value list" and Q
    by (induction rs) auto
  then show "well_keyed column rs \<Longrightarrow> ?thesis" by (auto simp: well_keyed_iff table_keys_def)
qed

lemma vault_rows_keyed: "well_keyed column rs \<Longrightarrow> well_keyed column (rs @ map VaultTransactionM vs)"
proof -
  have "table_keys column t cols (rs @ map VaultTransactionM vs) = table_keys column t cols rs"
    if "(t, cols) \<in> set keyed_tables" for t cols
  proof (rule table_keys_insert_other)
    have "t \<noteq> VaultTransactions" using that by (auto simp: keyed_tables_def)
    then show "\<forall>m \<in> set (map VaultTransactionM vs). table_of m \<noteq> t" by auto
  qed
  then show "well_keyed column rs \<Longrightarrow> ?thesis" by (auto simp: well_keyed_iff)
qed

definition btc_tables :: "table set" where
  "btc_tables = {BtcBlockHeaders, VaultTransactions}"

definition removes_only :: "('s \<Rightarrow> model list) \<Rightarrow> 's \<Rightarrow> 's \<Rightarrow> bool" where
  "removes_only rows s s' \<longleftrightarrow> (\<exists>P. rows s' = filter P (rows s) \<and> (\<forall>m. table_of m \<notin> btc_tables \<longrightarrow> P m))"

lemma removes_only_refl [simp]: "removes_only rows s s"
  unfolding removes_only_def by (rule exI [of _ "\<lambda>_. True"]) simp

lemma removes_only_trans:
  assumes "removes_only rows s s'" and "removes_only rows s' s''"
  shows "removes_only rows s s''"
proof -
  obtain P Q where "rows s'' = filter (\<lambda>m. P m \<and> Q m) (rows s)" "\<forall>m. table_of m \<notin> btc_tables \<longrightarrow> P m \<and> Q m"
    using assms by (auto simp: removes_only_def)
  then show ?thesis unfolding removes_only_def by blast
qed

lemma removes_stores: "removes_only rows s s' \<Longrightarrow> stores_only column rows ok s s'"
  by (auto simp: removes_only_def stores_only_def well_keyed_filter)

context gorm_engine
begin

lemma delete_removes:
  assumes "t \<in> btc_tables"
  shows "removes_only rows s (fst (Delete db t c s))"
proof (cases "Delete db t c s")
  case (Pair s' err)
  show ?thesis
  proof (cases err)
    case None
    from delete_ok [OF Pair [unfolded None]] Pair assms show ?thesis by (auto simp: removes_only_def)
  next
    case (Some e)
    from delete_err [OF Pair [unfolded Some]] Pair show ?thesis
      unfolding removes_only_def by (intro exI [of _ "\<lambda>_. True"]) simp
  qed
qed

lemma rollback_removes: "removes_only rows s (fst (DeleteBlockAndTxsFromHeight db height s))"
proof -
  obtain s1 err where d: "Delete db VaultTransactions (Ge ''block_number'' (SNum64 (u64_of_int height))) s = (s1, err)" by fastforce
  have "removes_only rows s s1"
    using delete_removes [of VaultTransactions s "Ge ''block_number'' (SNum64 (u64_of_int height))"] d by (simp add: btc_tables_def)
  moreover have "removes_only rows s1 (fst (Delete db BtcBlockHeaders (Ge ''height'' (SNum height)) s1))"
    by (rule delete_removes) (simp add: btc_tables_def)
  ultimately show ?thesis
    using d removes_only_trans by (auto simp: DeleteBlockAndTxsFromHeight_def split: option.splits prod.splits)
qed

lemma reorg_removes: "removes_only rows s (fst (DetectAndHandleReorg (DatabaseAdapter db f) new s))"
  using rollback_removes
  by (auto simp: DetectAndHandleReorg_def DatabaseAdapter_def split: outcome.splits prod.splits option.splits if_splits)
    (metis fst_conv)+

lemma check_reorg_removes:
  assumes "check_reorg n header currHeight block s = Ok (Some s')" and "node_db n = db"
  shows "removes_only rows s s'"
proof (cases "s' = s")
  case False
  then obtain new where "s' = fst (DetectAndHandleReorg (DatabaseAdapter db (NewHashFromStr (node_lib n))) new s)"
    using assms by (auto simp: check_reorg_def split: if_splits outcome.splits prod.splits) (metis fst_conv)+
  then show ?thesis using reorg_removes by simp
qed simp

end

text \<open>A row of a Bitcoin client: a header, or a vault transaction of its source chain.\<close>

fun btc_row :: "'s node \<Rightarrow> model \<Rightarrow> bool" where
  "btc_row n (BtcBlockHeaderM h) = True"
| "btc_row n (VaultTransactionM t) = (vt_Chain t = SourceChain (node_config n))"
| "btc_row n _ = False"

lemma index_txs_chain:
  "index_txs lib config block i txs = Ok vs \<Longrightarrow> t \<in> set vs \<Longrightarrow> vt_Chain t = SourceChain config"
proof (induction txs arbitrary: i vs)
  case (Cons tx txs)
  have parsed: "vt_Chain v = SourceChain config" if "ParseVaultTxRawResult lib config tx block i = Ok (Some v)" for v
    using that parseVaultTransactionData_fields ParseVaultMsgTx_Some
    by (fastforce simp: ParseVaultTxRawResult_def and_then_Ok_iff wrapf_Ok_iff split: option.splits)
  show ?case
    using Cons parsed by (fastforce simp: and_then_Ok_iff split: outcome.splits option.splits)
qed simp

context inserting_engine
begin

lemma indexBlock_step_stores_only:
  assumes "indexBlock_step n (st, s) (st', s')" and "node_db n = db"
  shows "stores_only column rows (btc_row n) s s'"
  using assms(1)
proof cases
  case (reorg_checked header currHeight block)
  then show ?thesis using check_reorg_removes [OF _ assms(2)] removes_stores by metis
next
  case (header_stored header block)
  show ?thesis
    unfolding header_stored(3) assms(2) StoreBlockHeader_def CreateBtcBlockHeader_def
    by (rule create_stores_only) (auto simp: keyed_tables_def)
next
  case (transactions_stored block vaultTxs)
  have "rows s' = rows s @ map VaultTransactionM vaultTxs"
    using transactions_stored(4) assms(2) vault_transactions_stored by simp
  then show ?thesis
    using index_txs_chain [OF transactions_stored(3)] vault_rows_keyed by (auto simp: stores_only_def)
qed simp_all

lemma indexBlock_step_keeps:
  assumes "indexBlock_step n (st, s) (st', s')" and "node_db n = db" and "m \<in> set (rows s)" and "table_of m \<notin> btc_tables"
  shows "m \<in> set (rows s')"
  using assms(1)
proof cases
  case (reorg_checked header currHeight block)
  then show ?thesis using check_reorg_removes [OF reorg_checked(3) assms(2)] assms(3,4) by (auto simp: removes_only_def)
next
  case (header_stored header block)
  then show ?thesis using header_stored_at(2) assms(2,3) by blast
next
  case (transactions_stored block vaultTxs)
  then show ?thesis using assms(2,3) vault_transactions_stored by simp
qed (use assms(3) in simp_all)

end

end
