(* ===== verification/ServiceRun.thy ===== *)
theory ServiceRun
  imports EvmAnswers BtcIndexing
begin

text \<open>
  The whole service at work (\<open>Service.Start\<close> of \<open>indexer/service.go\<close>): the EVM clients with all their goroutines (\<open>EvmSystem\<close>) and the Bitcoin
  clients' \<open>indexBlock\<close> (\<open>BtcIndexing\<close>) run at the same time on the one database that they share (\<open>Clients\<close>). A step of the service is a step of
  one client on the database as the others have left it.
\<close>

section \<open>Model\<close>

text \<open>
  Each client has its own state but for the database, of which the state of an EVM client holds the copy of its last step; \<^const>\<open>None\<close> is a
  goroutine that has been launched and has not yet run.
\<close>

record 's running =
  shared_db :: 's
  evm_states :: "'s evm_system option list"
  btc_states :: "indexing list"

definition service_start :: "'s evm_setup list \<Rightarrow> 's node list \<Rightarrow> 's \<Rightarrow> 's running" where
  "service_start sus nodes s =
     \<lparr>shared_db = s, evm_states = replicate (length sus) None, btc_states = replicate (length nodes) Waiting\<rparr>"

definition on_db :: "'s evm_system \<Rightarrow> 's \<Rightarrow> 's evm_system" where
  "on_db p s = p\<lparr>sys_db := s\<rparr>"

inductive service_step :: "'s evm_setup list \<Rightarrow> 's node list \<Rightarrow> 's running \<Rightarrow> 's running \<Rightarrow> bool" for sus nodes where
  evm_starts: "i < length (evm_states v) \<Longrightarrow> evm_states v ! i = None \<Longrightarrow>
     service_step sus nodes v
       (v\<lparr>evm_states := (evm_states v)[i := Some (system_start (sus ! i) query reply now (shared_db v))]\<rparr>)"
| evm_acts: "i < length (evm_states v) \<Longrightarrow> evm_states v ! i = Some p \<Longrightarrow>
     system_step (sus ! i) (on_db p (shared_db v)) q \<Longrightarrow>
     service_step sus nodes v (v\<lparr>shared_db := sys_db q, evm_states := (evm_states v)[i := Some q]\<rparr>)"
| btc_acts: "j < length (btc_states v) \<Longrightarrow>
     indexBlock_step (nodes ! j) (btc_states v ! j, shared_db v) (st, s) \<Longrightarrow>
     service_step sus nodes v (v\<lparr>shared_db := s, btc_states := (btc_states v)[j := st]\<rparr>)"

lemma on_db_simps [simp]:
  "sys_db (on_db p s) = s" "on_db (on_db p s) s' = on_db p s'" "received_logs (on_db p s) = received_logs p"
  "settled (on_db p s) = settled p" "on_db p (sys_db p) = p"
  by (simp_all add: on_db_def received_logs_def settled_def drained_def)

lemma service_step_shape:
  "service_step sus nodes v w \<Longrightarrow> length (evm_states w) = length (evm_states v) \<and> length (btc_states w) = length (btc_states v)"
  by (auto elim!: service_step.cases)

lemma service_shape:
  "(service_step sus nodes)\<^sup>*\<^sup>* (service_start sus nodes s) v \<Longrightarrow>
     length (evm_states v) = length sus \<and> length (btc_states v) = length nodes"
  by (induction rule: rtranclp_induct) (auto simp: service_start_def dest: service_step_shape)

section \<open>Contracts of the clients\<close>

text \<open>
  A property \<open>P\<close> of each EVM client that its start gives, its own steps keep, and the steps of the others keep as well, who
  change the database only as \<open>rely\<close> allows.
\<close>

locale client_contract =
  fixes sus :: "'s evm_setup list" and nodes :: "'s node list" and rely :: "'s \<Rightarrow> 's \<Rightarrow> bool"
    and P :: "'s evm_setup \<Rightarrow> 's evm_system \<Rightarrow> bool"
  assumes at_start: "su \<in> set sus \<Longrightarrow> P su (system_start su query reply now s)"
    and own_step: "su \<in> set sus \<Longrightarrow> P su p \<Longrightarrow> system_step su p q \<Longrightarrow> P su q"
    and other_step: "P su p \<Longrightarrow> rely (sys_db p) s \<Longrightarrow> P su (on_db p s)"
    and evm_relies: "su \<in> set sus \<Longrightarrow> P su p \<Longrightarrow> system_step su p q \<Longrightarrow> rely (sys_db p) (sys_db q)"
    and btc_relies: "n \<in> set nodes \<Longrightarrow> indexBlock_step n (st, s) (st', s') \<Longrightarrow> rely s s'"
begin

definition contracts :: "'s running \<Rightarrow> bool" where
  "contracts v \<longleftrightarrow> length (evm_states v) = length sus \<and> length (btc_states v) = length nodes
     \<and> (\<forall>i < length sus. \<forall>p. evm_states v ! i = Some p \<longrightarrow> P (sus ! i) (on_db p (shared_db v)))"

lemma contracts_step:
  assumes "service_step sus nodes v w" and "contracts v"
  shows "contracts w"
  using assms(1)
proof cases
  case (evm_starts i query reply now)
  have "on_db (system_start (sus ! i) query reply now (shared_db v)) (shared_db v) =
      system_start (sus ! i) query reply now (shared_db v)"
    by (simp add: on_db_def system_start_def)
  with evm_starts assms(2) at_start show ?thesis by (auto simp: contracts_def nth_list_update)
next
  case (evm_acts i p q)
  have i: "i < length sus" "P (sus ! i) (on_db p (shared_db v))" using evm_acts(2,3) assms(2) by (simp_all add: contracts_def)
  then have q: "P (sus ! i) q" "rely (shared_db v) (sys_db q)"
    using own_step [OF _ i(2) evm_acts(4)] evm_relies [OF _ i(2) evm_acts(4)] by simp_all
  have "P (sus ! k) (on_db r (sys_db q))" if "k < length sus" "evm_states v ! k = Some r" for k r
    using other_step [of "sus ! k" "on_db r (shared_db v)" "sys_db q"] assms(2) that q(2) by (simp add: contracts_def)
  with q(1) assms(2) evm_acts(2) show ?thesis
    unfolding evm_acts(1) by (auto simp: contracts_def nth_list_update split: if_splits)
next
  case (btc_acts j st s)
  have "rely (shared_db v) s" using btc_relies [OF _ btc_acts(3)] btc_acts(2) assms(2) by (simp add: contracts_def)
  then have "P (sus ! k) (on_db r s)" if "k < length sus" "evm_states v ! k = Some r" for k r
    using other_step [of "sus ! k" "on_db r (shared_db v)" s] assms(2) that by (simp add: contracts_def)
  with assms(2) show ?thesis unfolding btc_acts(1) by (simp add: contracts_def)
qed

lemma contracts_run: "(service_step sus nodes)\<^sup>*\<^sup>* v w \<Longrightarrow> contracts v \<Longrightarrow> contracts w"
  by (induction rule: rtranclp_induct) (use contracts_step in blast)+

lemma contracts_hold:
  "(service_step sus nodes)\<^sup>*\<^sup>* (service_start sus nodes s) v \<Longrightarrow> contracts v"
  by (erule contracts_run) (simp add: contracts_def service_start_def)

end

section \<open>Clients on one database\<close>

text \<open>The clients that the service has created: they all use \<open>db\<close>, and no answer of an EVM node makes a goroutine panic.\<close>

locale one_database = inserting_engine +
  fixes sus :: "'a evm_setup list" and nodes :: "'a node list"
  assumes evm_db: "su \<in> set sus \<Longrightarrow> su_db su = db" and evm_set: "su \<in> set sus \<Longrightarrow> well_set su"
    and btc_db: "n \<in> set nodes \<Longrightarrow> node_db n = db"

sublocale one_database \<subseteq> storing: client_contract sus nodes "keeps rows" "\<lambda>su. client_inv su column rows"
proof
  fix su query reply now s p q n st st' s'
  show "client_inv su column rows (system_start su query reply now s)" by (rule client_inv_start)
  show "client_inv su column rows q" if "su \<in> set sus" "client_inv su column rows p" "system_step su p q"
    by (rule client_inv_step [OF that(3,2) evm_db [OF that(1)] evm_set [OF that(1)]])
  show "client_inv su column rows (on_db p s)" if "client_inv su column rows p" "keeps rows (sys_db p) s"
    unfolding on_db_def by (rule client_inv_keeps [OF that])
  show "keeps rows (sys_db p) (sys_db q)" if "su \<in> set sus" "system_step su p q"
    by (rule system_step_keeps [OF that(2) evm_db [OF that(1)] well_setD(3) [OF evm_set [OF that(1)]]])
  show "keeps rows s s'" if "n \<in> set nodes" "indexBlock_step n (st, s) (st', s')"
    using indexBlock_step_keeps [OF that(2) btc_db [OF that(1)]] by (simp add: keeps_def btc_tables_def)
qed

sublocale one_database \<subseteq> sound: client_contract sus nodes "\<lambda>_ _. True" "\<lambda>su p. inv_logs su p \<and> inv_records su p"
proof
  fix su query reply now s p q
  show "inv_logs su (system_start su query reply now s) \<and> inv_records su (system_start su query reply now s)"
    by (simp add: inv_logs_def inv_records_def answered_phase_def system_start_def new_fetcher_def)
  show "inv_logs su q \<and> inv_records su q" if "inv_logs su p \<and> inv_records su p" "system_step su p q"
    using that system_step_logs system_step_records by blast
  show "inv_logs su (on_db p s) \<and> inv_records su (on_db p s)" if "inv_logs su p \<and> inv_records su p"
    using that by (simp add: on_db_def inv_logs_def inv_records_def)
qed simp_all

text \<open>The state of a client goes on receiving and never loses a log.\<close>

lemma service_received_step:
  assumes "service_step sus nodes v w" and "i < length (evm_states v)" and "evm_states v ! i = Some p"
  shows "\<exists>q. evm_states w ! i = Some q \<and> received_logs p \<subseteq> received_logs q"
  using assms(1)
proof cases
  case (evm_acts k r q)
  then show ?thesis using assms(2,3) received_step [OF evm_acts(4)] by (cases "i = k") auto
qed (use assms(2,3) in \<open>auto simp: nth_list_update\<close>)

lemma service_received_run:
  assumes "(service_step sus nodes)\<^sup>*\<^sup>* v w" and "i < length (evm_states v)" and "evm_states v ! i = Some p"
  shows "\<exists>q. evm_states w ! i = Some q \<and> received_logs p \<subseteq> received_logs q \<and> i < length (evm_states w)"
  using assms(1)
proof (induction rule: rtranclp_induct)
  case (step w x)
  then obtain q where q: "evm_states w ! i = Some q" "received_logs p \<subseteq> received_logs q" "i < length (evm_states w)" by blast
  with service_received_step [OF step(2) q(3,1)] service_step_shape [OF step(2)] show ?case by auto
qed (use assms in blast)

text \<open>A row of one of the clients.\<close>

definition client_row :: "'s evm_setup list \<Rightarrow> 's node list \<Rightarrow> model \<Rightarrow> bool" where
  "client_row sus nodes m \<longleftrightarrow> (\<exists>su \<in> set sus. justified su m) \<or> (\<exists>n \<in> set nodes. btc_row n m)"

context one_database
begin

lemma answers_stored:
  assumes "(service_step sus nodes)\<^sup>*\<^sup>* (service_start sus nodes s) v" and "i < length sus" and "evm_states v ! i = Some p"
    and "l \<in> received_logs p" and "(service_step sus nodes)\<^sup>*\<^sup>* v w" and "evm_states w ! i = Some q" and "settled q"
  shows "log_stored (sus ! i) (Collect (answered (sus ! i))) column l (rows (shared_db w))"
proof -
  have i: "i < length (evm_states v)" using service_shape [OF assms(1)] assms(2) by simp
  have su: "su_db (sus ! i) = db" "well_set (sus ! i)" using evm_db evm_set assms(2) by simp_all
  have "client_inv (sus ! i) column rows (on_db q (shared_db w))"
    using storing.contracts_hold [OF rtranclp_trans [OF assms(1,5)]] assms(2,6) by (simp add: storing.contracts_def)
  moreover have "l \<in> received_logs q" using service_received_run [OF assms(5) i assms(3)] assms(4,6) by auto
  moreover have "gorm_engine (su_db (sus ! i)) rows column assign" using gorm_engine_axioms su(1) by simp
  ultimately show ?thesis
    using client_settled_stored [of "sus ! i" rows column assign "on_db q (shared_db w)" l] su(2) assms(7) by simp
qed

lemma service_step_stores_only:
  assumes "service_step sus nodes v w" and "sound.contracts v"
  shows "stores_only column rows (client_row sus nodes) (shared_db v) (shared_db w)"
  using assms(1)
proof cases
  case (evm_acts i p q)
  have i: "i < length sus" "inv_records (sus ! i) (on_db p (shared_db v))"
    using evm_acts(2,3) assms(2) by (simp_all add: sound.contracts_def)
  then have "stores_only column rows (justified (sus ! i)) (shared_db v) (sys_db q)"
    using system_step_rows [OF evm_acts(4) i(2) evm_db well_setD(3) [OF evm_set]] by simp
  then have "stores_only column rows (client_row sus nodes) (shared_db v) (sys_db q)"
    by (rule stores_only_mono) (use i(1) in \<open>auto simp: client_row_def\<close>)
  with evm_acts(1) show ?thesis by simp
next
  case (btc_acts j st s)
  then have n: "nodes ! j \<in> set nodes" using assms(2) by (simp add: sound.contracts_def)
  have "stores_only column rows (client_row sus nodes) (shared_db v) s"
    by (rule stores_only_mono [OF indexBlock_step_stores_only [OF btc_acts(3) btc_db [OF n]]])
      (use n in \<open>auto simp: client_row_def\<close>)
  with btc_acts(1) show ?thesis by simp
qed simp

lemma service_stores_only:
  "(service_step sus nodes)\<^sup>*\<^sup>* (service_start sus nodes s) v \<Longrightarrow> stores_only column rows (client_row sus nodes) s (shared_db v)"
proof (induction rule: rtranclp_induct)
  case (step v w)
  show ?case
    by (rule stores_only_trans [OF step(3) service_step_stores_only [OF step(2) sound.contracts_hold [OF step(1)]]])
qed (simp add: service_start_def)

end

section \<open>Properties\<close>



section \<open>A concrete run\<close>

text \<open>A run of one client is a run of the service in which the others pause.\<close>

lemma evm_run_lifts:
  assumes "(system_step (sus ! i))\<^sup>*\<^sup>* (on_db p (shared_db v)) q" and "i < length (evm_states v)" and "evm_states v ! i = Some p"
  shows "\<exists>w. (service_step sus nodes)\<^sup>*\<^sup>* v w \<and> shared_db w = sys_db q \<and> btc_states w = btc_states v
    \<and> i < length (evm_states w) \<and> (\<exists>r. evm_states w ! i = Some r \<and> on_db r (sys_db q) = q)"
  using assms(1)
proof (induction rule: rtranclp_induct)
  case base
  show ?case using assms(2,3) by (intro exI [of _ v]) auto
next
  case (step q q')
  then obtain w r where w: "(service_step sus nodes)\<^sup>*\<^sup>* v w" "shared_db w = sys_db q" "btc_states w = btc_states v"
    "i < length (evm_states w)" "evm_states w ! i = Some r" "on_db r (sys_db q) = q" by blast
  have "service_step sus nodes w (w\<lparr>shared_db := sys_db q', evm_states := (evm_states w)[i := Some q']\<rparr>)"
    by (rule evm_acts [OF w(4,5)]) (use w(2,6) step(2) in simp)
  with w show ?case
    by (intro exI [of _ "w\<lparr>shared_db := sys_db q', evm_states := (evm_states w)[i := Some q']\<rparr>"]) auto
qed

lemma btc_run_lifts:
  assumes "(indexBlock_step (nodes ! j))\<^sup>*\<^sup>* (btc_states v ! j, shared_db v) (st, s)" and "j < length (btc_states v)"
  shows "\<exists>w. (service_step sus nodes)\<^sup>*\<^sup>* v w \<and> shared_db w = s \<and> evm_states w = evm_states v
    \<and> j < length (btc_states w) \<and> btc_states w ! j = st"
  using assms(1)
proof (induction "(st, s)" arbitrary: st s rule: rtranclp_induct)
  case base
  show ?case using assms(2) base by (intro exI [of _ v]) auto
next
  case (step y)
  obtain st1 s1 where y: "y = (st1, s1)" by (cases y)
  with step(3) obtain w where w: "(service_step sus nodes)\<^sup>*\<^sup>* v w" "shared_db w = s1" "evm_states w = evm_states v"
    "j < length (btc_states w)" "btc_states w ! j = st1" by blast
  have "service_step sus nodes w (w\<lparr>shared_db := s, btc_states := (btc_states w)[j := st]\<rparr>)"
    by (rule btc_acts [OF w(4)]) (use w(2,5) step(2) y in simp)
  with w show ?case by (intro exI [of _ "w\<lparr>shared_db := s, btc_states := (btc_states w)[j := st]\<rparr>"]) auto
qed

text \<open>Two EVM chains and a Bitcoin chain on the in-memory database.\<close>

definition other_setup :: "model list evm_setup" where
  "other_setup = example_setup\<lparr>su_config := example_evm_config\<lparr>ID := ''evm|2''\<rparr>\<rparr>"

lemma other_well_set: "well_set other_setup"
proof -
  have "unproblematic (su_lib other_setup) (GetId (su_config other_setup)) (su_events other_setup) l" if "answered other_setup l" for l
  proof -
    have "answered example_setup l" using that by (simp add: answered_def other_setup_def)
    then obtain b where "l = example_transfer b" unfolding example_answered by (auto simp: transfer_chain_def)
    then show ?thesis using example_transfer_ok(1) by (simp add: other_setup_def example_setup_def)
  qed
  then show ?thesis
    using transfer_eth_decodes by (simp add: well_set_def harmless_def) (simp add: other_setup_def example_setup_def)
qed

interpretation mem_service: one_database mem_engine "\<lambda>s. s" mem_column mem_assign "[example_setup, other_setup]" "[sync_node]"
  by unfold_locales (use example_well_set other_well_set in \<open>auto simp: example_setup_def other_setup_def sync_node_def\<close>)

lemma deep_block_indexed:
  "\<exists>s' h. index_one sync_node 0 82345 (Some sync_block) s = Ok s' \<and> BtcBlockHeaderM h \<in> set s' \<and> set s \<subseteq> set s'"
proof -
  obtain header where h: "extractBlockHeader (node_lib sync_node) 0 sync_block = Ok header"
    using readable_extract sync_indexes(3) by blast
  have r: "check_reorg sync_node header 82345 sync_block s = Ok (Some s)" for header
    by (simp add: check_reorg_def sync_block_def example_block_def FINAL_CONFIRMATIONS_def int_of_u64_small)
  obtain s' where s': "index_one sync_node 0 82345 (Some sync_block) s = Ok s'"
    using h r by (simp add: index_one_def Let_def) (simp add: sync_block_def)
  have "node_db sync_node = mem_engine" by (simp add: sync_node_def)
  from mem_inserting.index_one_rows(1,2) [OF s' this r] sync_indexes(3) s' show ?thesis
    by (auto simp: block_indexed_def)
qed

lemma example_service_run:
  "\<exists>v p h. (service_step [example_setup, other_setup] [sync_node])\<^sup>*\<^sup>*
      (service_start [example_setup, other_setup] [sync_node] []) v
    \<and> evm_states v ! 0 = Some p \<and> settled p \<and> example_transfer 51 \<in> received_logs p \<and> BtcBlockHeaderM h \<in> set (shared_db v)"
proof -
  let ?step = "service_step [example_setup, other_setup] [sync_node]" and ?v = "service_start [example_setup, other_setup] [sync_node] []"
  let ?P = "system_start example_setup no_query (Ok 52) 0 []"
  obtain P where P: "(system_step example_setup)\<^sup>*\<^sup>* ?P P" "settled P" "example_transfer 51 \<in> received_logs P"
    using example_received by blast
  let ?v1 = "?v\<lparr>evm_states := (evm_states ?v)[0 := Some ?P]\<rparr>"
  have s1: "?step ?v ?v1"
    using evm_starts [of 0 ?v "[example_setup, other_setup]" "[sync_node]" no_query "Ok 52" 0] by (simp add: service_start_def)
  have "on_db ?P (shared_db ?v1) = ?P" by (simp add: on_db_def system_start_def service_start_def)
  then obtain w r where w: "?step\<^sup>*\<^sup>* ?v1 w" "shared_db w = sys_db P" "btc_states w = [Waiting]"
    "evm_states w ! 0 = Some r" "on_db r (sys_db P) = P"
    using evm_run_lifts [of "[example_setup, other_setup]" 0 ?P ?v1 P "[sync_node]"] P(1) by (auto simp: service_start_def)
  obtain s h where s: "index_one sync_node 0 82345 (Some sync_block) (sys_db P) = Ok s" "BtcBlockHeaderM h \<in> set s"
    using deep_block_indexed by blast
  then obtain x where x: "?step\<^sup>*\<^sup>* w x" "shared_db x = s" "evm_states x = evm_states w"
    using btc_run_lifts [of "[sync_node]" 0 w Waiting s "[example_setup, other_setup]"] index_one_steps [OF s(1)] w(2,3)
    by auto
  have "settled r" "received_logs r = received_logs P" using P(2) w(5) by (metis on_db_simps(4)) (metis on_db_simps(3) w(5))
  moreover have "?step\<^sup>*\<^sup>* ?v x" using s1 w(1) x(1) by (meson converse_rtranclp_into_rtranclp rtranclp_trans)
  ultimately show ?thesis using P(3) w(4) x(2,3) s(2) by metis
qed



end
