(* ===== verification/EvmUtils.thy ===== *)
theory EvmUtils
  imports GatewayEvents
begin

text \<open>
  \<open>pkg/evm/utils.go\<close> with the data types of \<open>pkg/evm/types.go\<close>: decoding of the gateway's
  \<open>execute\<close> input. Each \<open>x.(T)\<close> is a checked access that panics on another type.
\<close>

section \<open>Model\<close>

record decoded_execute_data =
  ded_ChainId :: u64
  ded_CommandIds :: "bytes list"
  ded_Commands :: "string list"
  ded_Params :: "bytes list"
  ded_Operators :: "address list"
  ded_Weights :: "u64 list"
  ded_Threshold :: u64
  ded_Signatures :: "string list"
  ded_Input :: bytes

record approve_contract_call =
  acc_ChainId :: u64
  acc_CommandIds :: "bytes list"
  acc_Commands :: "string list"
  acc_Params :: "bytes list"

record deploy_token =
  dt_Name :: string
  dt_Symbol :: string
  dt_Decimals :: u8
  dt_Cap :: u64
  dt_TokenAddress :: address
  dt_MintLimit :: u64

record redeem_phase =
  rp_Sequence :: u64
  rp_Phase :: u8

fun as_bigint :: "abi_value \<Rightarrow> int outcome" where
  "as_bigint (VBigInt i) = Ok i" | "as_bigint _ = Panic TypeAssertion"
fun as_bigints :: "abi_value \<Rightarrow> int list outcome" where
  "as_bigints (VBigInts i) = Ok i" | "as_bigints _ = Panic TypeAssertion"
fun as_uint8 :: "abi_value \<Rightarrow> u8 outcome" where
  "as_uint8 (VUint8 b) = Ok b" | "as_uint8 _ = Panic TypeAssertion"
fun as_string :: "abi_value \<Rightarrow> string outcome" where
  "as_string (VString s) = Ok s" | "as_string _ = Panic TypeAssertion"
fun as_address :: "abi_value \<Rightarrow> address outcome" where
  "as_address (VAddress a) = Ok a" | "as_address _ = Panic TypeAssertion"
fun as_addresses :: "abi_value \<Rightarrow> address list outcome" where
  "as_addresses (VAddresses a) = Ok a" | "as_addresses _ = Panic TypeAssertion"
fun as_byteslist :: "abi_value \<Rightarrow> bytes list outcome" where
  "as_byteslist (VBytesList b) = Ok b" | "as_byteslist _ = Panic TypeAssertion"
fun as_bytes32s :: "abi_value \<Rightarrow> bytes list outcome" where
  "as_bytes32s (VBytes32s b) = Ok b" | "as_bytes32s _ = Panic TypeAssertion"

definition AbiUnpack :: "eth_lib \<Rightarrow> bytes \<Rightarrow> string list \<Rightarrow> abi_value list outcome" where
  "AbiUnpack lib data types =
     and_then (collect (\<lambda>t. case NewType lib t of
                         Some e \<Rightarrow> Err (Wrapf ''failed to create type'' e)
                       | None \<Rightarrow> Ok (arg t)) types) (\<lambda>arguments.
     wrapf ''failed to get arguments'' (Arguments_Unpack lib arguments data))"

text \<open>The argument types are given as bytes and the map is filled by \<open>UnpackIntoMap\<close>, which is go-ethereum's.\<close>

definition AbiUnpackIntoMap :: "(u8 list \<Rightarrow> bytes \<Rightarrow> 'm \<Rightarrow> 'm outcome) \<Rightarrow> 'm \<Rightarrow> bytes \<Rightarrow> u8 list \<Rightarrow> 'm outcome" where
  "AbiUnpackIntoMap UnpackIntoMap v data types = wrapf ''failed to get arguments'' (UnpackIntoMap types data v)"

definition DecodeInput :: "eth_lib \<Rightarrow> bytes \<Rightarrow> decoded_execute_data outcome" where
  "DecodeInput lib input =
     and_then (wrapf ''failed to unpack execute input'' (AbiUnpack lib input [''bytes'', ''bytes''])) (\<lambda>args.
     and_then (decoded_at args 0 as_bytes) (\<lambda>data.
     and_then (wrapf ''failed to unpack data''
       (AbiUnpack lib data [''uint256'', ''bytes32[]'', ''string[]'', ''bytes[]''])) (\<lambda>dataDecoded.
     and_then (decoded_at dataDecoded 0 as_bigint) (\<lambda>_.
     and_then (decoded_at dataDecoded 2 as_strings) (\<lambda>_.
     and_then (decoded_at args 1 as_bytes) (\<lambda>proof_bytes.
     and_then (wrapf ''failed to unpack proof''
       (AbiUnpack lib proof_bytes [''address[]'', ''uint256[]'', ''uint256'', ''bytes[]''])) (\<lambda>proofDecoded.
     and_then (decoded_at dataDecoded 0 as_bigint) (\<lambda>chainId.
     and_then (decoded_at dataDecoded 1 as_bytes32s) (\<lambda>commandIds.
     and_then (decoded_at dataDecoded 2 as_strings) (\<lambda>commands.
     and_then (decoded_at dataDecoded 3 as_byteslist) (\<lambda>params.
     and_then (decoded_at proofDecoded 1 as_bigints) (\<lambda>weights.
     and_then (decoded_at proofDecoded 2 as_bigint) (\<lambda>threshold.
     and_then (decoded_at proofDecoded 3 as_byteslist) (\<lambda>signaturesBytes.
     and_then (decoded_at proofDecoded 0 as_addresses) (\<lambda>operators.
     Ok \<lparr>ded_ChainId = BigInt_Uint64 chainId, ded_CommandIds = commandIds, ded_Commands = commands,
         ded_Params = params, ded_Operators = operators, ded_Weights = map BigInt_Uint64 weights,
         ded_Threshold = BigInt_Uint64 threshold, ded_Signatures = map hex_encode signaturesBytes,
         ded_Input = input\<rparr>)))))))))))))))"

text \<open>
  An unpack error is only logged: the nil slice that comes with it is indexed at once.
\<close>

definition DecodeExecuteData :: "eth_lib \<Rightarrow> string \<Rightarrow> decoded_execute_data outcome" where
  "DecodeExecuteData lib executeData =
     and_then (wrapf ''failed to decode execute data'' (hex_decode executeData)) (\<lambda>executeDataBytes.
     and_then (sub_slice executeDataBytes 4 (length executeDataBytes)) (\<lambda>rest.
     let input = (case AbiUnpack lib rest [''bytes''] of Err _ \<Rightarrow> Ok [] | r \<Rightarrow> r) in
     and_then input (\<lambda>input.
     and_then (decoded_at input 0 as_bytes) (DecodeInput lib))))"

definition DecodeApproveContractCall :: "eth_lib \<Rightarrow> bytes \<Rightarrow> approve_contract_call outcome" where
  "DecodeApproveContractCall lib input =
     and_then (wrapf ''failed to unpack data''
       (AbiUnpack lib input [''uint256'', ''bytes32[]'', ''string[]'', ''bytes[]''])) (\<lambda>dataDecoded.
     and_then (decoded_at dataDecoded 0 as_bigint) (\<lambda>chainId.
     and_then (decoded_at dataDecoded 1 as_bytes32s) (\<lambda>commandIds.
     and_then (decoded_at dataDecoded 2 as_strings) (\<lambda>commands.
     and_then (decoded_at dataDecoded 3 as_byteslist) (\<lambda>params.
     Ok \<lparr>acc_ChainId = BigInt_Uint64 chainId, acc_CommandIds = commandIds, acc_Commands = commands,
         acc_Params = params\<rparr>)))))"

definition DecodeDeployToken :: "eth_lib \<Rightarrow> bytes \<Rightarrow> deploy_token outcome" where
  "DecodeDeployToken lib input =
     and_then (wrapf ''failed to unpack data''
       (AbiUnpack lib input [''string'', ''string'', ''uint8'', ''uint256'', ''address'', ''uint256''])) (\<lambda>dataDecoded.
     and_then (decoded_at dataDecoded 2 as_uint8) (\<lambda>decimals.
     and_then (decoded_at dataDecoded 3 as_bigint) (\<lambda>cap.
     and_then (decoded_at dataDecoded 5 as_bigint) (\<lambda>mintLimit.
     and_then (decoded_at dataDecoded 0 as_string) (\<lambda>name.
     and_then (decoded_at dataDecoded 1 as_string) (\<lambda>symbol.
     and_then (decoded_at dataDecoded 4 as_address) (\<lambda>tokenAddress.
     Ok \<lparr>dt_Name = name, dt_Symbol = symbol, dt_Decimals = decimals, dt_Cap = BigInt_Uint64 cap,
         dt_TokenAddress = tokenAddress, dt_MintLimit = BigInt_Uint64 mintLimit\<rparr>)))))))"

definition DecodeStartedSwitchPhase :: "eth_lib \<Rightarrow> bytes \<Rightarrow> redeem_phase outcome" where
  "DecodeStartedSwitchPhase lib input =
     and_then (wrapf ''failed to unpack data'' (AbiUnpack lib input [''uint64'', ''uint8''])) (\<lambda>dataDecoded.
     and_then (decoded_at dataDecoded 0 as_bigint) (\<lambda>sessionSequence.
     and_then (decoded_at dataDecoded 1 as_uint8) (\<lambda>phase.
     Ok \<lparr>rp_Sequence = BigInt_Uint64 sessionSequence, rp_Phase = phase\<rparr>)))"

definition DecodeGroupUid :: "string \<Rightarrow> bytes outcome" where
  "DecodeGroupUid groupHex =
     and_then (wrapf ''failed to decode group uid'' (hex_decode groupHex)) (\<lambda>groupBytes.
     Ok (copy_to (replicate 32 0) groupBytes))"

section \<open>Decoding and types\<close>

text \<open>The Go type that the ABI decoder produces for a Solidity type: \<open>uint64\<close> is a \<open>uint64\<close>.\<close>

fun value_type :: "abi_value \<Rightarrow> string" where
  "value_type (VUint8 _) = ''uint8''"
| "value_type (VUint64 _) = ''uint64''"
| "value_type (VBigInt _) = ''uint256''"
| "value_type (VString _) = ''string''"
| "value_type (VBytes _) = ''bytes''"
| "value_type (VBytes32 _) = ''bytes32''"
| "value_type (VAddress _) = ''address''"
| "value_type (VStrings _) = ''string[]''"
| "value_type (VUint32s _) = ''uint32[]''"
| "value_type (VUint64s _) = ''uint64[]''"
| "value_type (VBigInts _) = ''uint256[]''"
| "value_type (VBytesList _) = ''bytes[]''"
| "value_type (VBytes32s _) = ''bytes32[]''"
| "value_type (VAddresses _) = ''address[]''"

definition abi_typed :: "eth_lib \<Rightarrow> bool" where
  "abi_typed lib \<longleftrightarrow> (\<forall>args d. \<not> is_panic (Arguments_Unpack lib args d)
     \<and> (\<forall>vs. Arguments_Unpack lib args d = Ok vs \<longrightarrow> map value_type vs = map Arg_Type args))"

lemma AbiUnpack_typed:
  assumes "abi_typed lib"
  shows "\<not> is_panic (AbiUnpack lib d types)"
    and "AbiUnpack lib d types = Ok vs \<Longrightarrow> map value_type vs = types"
proof -
  have c: "collect (\<lambda>t. case NewType lib t of Some e \<Rightarrow> Err (Wrapf ''failed to create type'' e) | None \<Rightarrow> Ok (arg t)) ts
      = Ok args \<Longrightarrow> map Arg_Type args = ts" for ts args
    by (induction ts arbitrary: args) (auto simp: and_then_Ok_iff arg_def split: option.splits)
  have p: "\<not> is_panic (collect (\<lambda>t. case NewType lib t of Some e \<Rightarrow> Err (Wrapf ''failed to create type'' e) | None \<Rightarrow> Ok (arg t)) ts)" for ts
    by (induction ts) (auto simp: and_then_is_panic split: option.splits)
  show "\<not> is_panic (AbiUnpack lib d types)"
    using assms p by (auto simp: AbiUnpack_def and_then_is_panic wrapf_is_panic abi_typed_def)
  show "AbiUnpack lib d types = Ok vs \<Longrightarrow> map value_type vs = types"
    using assms c by (auto simp: AbiUnpack_def and_then_Ok_iff wrapf_Ok_iff abi_typed_def)
qed

lemma value_type_simps:
  "value_type v = ''uint8'' \<longleftrightarrow> (\<exists>x. v = VUint8 x)"
  "value_type v = ''uint64'' \<longleftrightarrow> (\<exists>x. v = VUint64 x)"
  "value_type v = ''uint256'' \<longleftrightarrow> (\<exists>x. v = VBigInt x)"
  "value_type v = ''string'' \<longleftrightarrow> (\<exists>x. v = VString x)"
  "value_type v = ''bytes'' \<longleftrightarrow> (\<exists>x. v = VBytes x)"
  "value_type v = ''address'' \<longleftrightarrow> (\<exists>x. v = VAddress x)"
  "value_type v = ''string[]'' \<longleftrightarrow> (\<exists>x. v = VStrings x)"
  "value_type v = ''uint256[]'' \<longleftrightarrow> (\<exists>x. v = VBigInts x)"
  "value_type v = ''bytes[]'' \<longleftrightarrow> (\<exists>x. v = VBytesList x)"
  "value_type v = ''bytes32[]'' \<longleftrightarrow> (\<exists>x. v = VBytes32s x)"
  "value_type v = ''address[]'' \<longleftrightarrow> (\<exists>x. v = VAddresses x)"
  by (cases v; simp)+

text \<open>
  The start of a switch of phase cannot be decoded. The ABI decoder yields a \<open>uint64\<close> where
  the code asserts a big integer, so the call panics on every input that unpacks.
\<close>

theorem DecodeStartedSwitchPhase_never_succeeds:
  assumes "abi_typed lib"
  shows "case AbiUnpack lib input [''uint64'', ''uint8''] of
      Ok _ \<Rightarrow> DecodeStartedSwitchPhase lib input = Panic TypeAssertion
    | Err e \<Rightarrow> DecodeStartedSwitchPhase lib input = Err (Wrapf ''failed to unpack data'' e)
    | Panic _ \<Rightarrow> False"
proof (cases "AbiUnpack lib input [''uint64'', ''uint8'']")
  case (Ok vs)
  then have "map value_type vs = [''uint64'', ''uint8'']" by (rule AbiUnpack_typed(2) [OF assms])
  then obtain a b where "vs = [VUint64 a, VUint8 b]" by (auto simp: map_eq_Cons_conv value_type_simps)
  with Ok show ?thesis by (simp add: DecodeStartedSwitchPhase_def decoded_at_def index_at_def)
qed (use AbiUnpack_typed(1) [OF assms, of input "[''uint64'', ''uint8'']"] in
    \<open>auto simp: DecodeStartedSwitchPhase_def\<close>)

text \<open>
  Decoding an \<open>execute\<close> input never panics when the decoder keeps its types, and the
  decoded record carries the input itself.
\<close>

theorem DecodeInput_no_panic:
  assumes "abi_typed lib"
  shows "\<not> is_panic (DecodeInput lib input)"
proof -
  note np = AbiUnpack_typed(1) [OF assms] and ty = AbiUnpack_typed(2) [OF assms]
  have a: "AbiUnpack lib d [''bytes'', ''bytes''] = Ok vs \<Longrightarrow> \<exists>x y. vs = [VBytes x, VBytes y]" for d vs
    using ty [of d "[''bytes'', ''bytes'']" vs] by (auto simp: map_eq_Cons_conv value_type_simps)
  have b: "AbiUnpack lib d [''uint256'', ''bytes32[]'', ''string[]'', ''bytes[]''] = Ok vs \<Longrightarrow>
      \<exists>x y z w. vs = [VBigInt x, VBytes32s y, VStrings z, VBytesList w]" for d vs
    using ty [of d "[''uint256'', ''bytes32[]'', ''string[]'', ''bytes[]'']" vs] by (auto simp: map_eq_Cons_conv value_type_simps)
  have c: "AbiUnpack lib d [''address[]'', ''uint256[]'', ''uint256'', ''bytes[]''] = Ok vs \<Longrightarrow>
      \<exists>x y z w. vs = [VAddresses x, VBigInts y, VBigInt z, VBytesList w]" for d vs
    using ty [of d "[''address[]'', ''uint256[]'', ''uint256'', ''bytes[]'']" vs] by (auto simp: map_eq_Cons_conv value_type_simps)
  show ?thesis
    using np by (auto simp: DecodeInput_def and_then_is_panic wrapf_is_panic wrapf_Ok_iff decoded_at_def index_at_def
        dest!: a b c)
qed

section \<open>A concrete decoder\<close>

text \<open>A decoder that yields the zero value of each type.\<close>

definition zero_value :: "string \<Rightarrow> abi_value option" where
  "zero_value t = map_of [(''uint8'', VUint8 0), (''uint64'', VUint64 0), (''uint256'', VBigInt 0), (''string'', VString []),
     (''bytes'', VBytes []), (''bytes32'', VBytes32 []), (''address'', VAddress []), (''string[]'', VStrings []),
     (''uint32[]'', VUint32s []), (''uint64[]'', VUint64s []), (''uint256[]'', VBigInts []), (''bytes[]'', VBytesList []),
     (''bytes32[]'', VBytes32s []), (''address[]'', VAddresses [])] t"

definition zero_lib :: eth_lib where
  "zero_lib = example_eth\<lparr>Arguments_Unpack := (\<lambda>args d.
     collect (\<lambda>a. case zero_value (Arg_Type a) of Some v \<Rightarrow> Ok v | None \<Rightarrow> Err (Errorf ''type'')) args)\<rparr>"

lemma zero_value_type: "zero_value t = Some v \<Longrightarrow> value_type v = t"
  by (auto simp: zero_value_def split: if_splits)

lemma zero_lib_typed: "abi_typed zero_lib"
proof -
  let ?f = "\<lambda>a :: abi_argument. case zero_value (Arg_Type a) of Some v \<Rightarrow> Ok v | None \<Rightarrow> Err (Errorf ''type'')"
  have "\<not> is_panic (collect ?f args)" for args
    by (induction args) (auto simp: and_then_is_panic split: option.splits)
  moreover have "collect ?f args = Ok vs \<Longrightarrow> map value_type vs = map Arg_Type args" for args vs
    by (induction args arbitrary: vs) (auto simp: and_then_Ok_iff zero_value_type split: option.splits)
  ultimately show ?thesis by (simp add: abi_typed_def zero_lib_def)
qed

theorem DecodeStartedSwitchPhase_never_succeeds_witness:
  "DecodeStartedSwitchPhase zero_lib [] = Panic TypeAssertion"
proof -
  have "AbiUnpack zero_lib [] [''uint64'', ''uint8''] = Ok [VUint64 0, VUint8 0]"
    by (simp add: AbiUnpack_def zero_lib_def zero_value_def example_eth_def arg_def)
  with DecodeStartedSwitchPhase_never_succeeds [OF zero_lib_typed, of "[]"] show ?thesis by simp
qed

theorem DecodeInput_no_panic_witness: "\<not> is_panic (DecodeInput zero_lib [1, 2])"
  by (rule DecodeInput_no_panic [OF zero_lib_typed])

end
