(* ===== verification/Clients.thy ===== *)
theory Clients
  imports LogFetcher Electrum "HOL-Library.Sublist"
begin

text \<open>
  Start-up: reading the configuration files (\<open>config/config.go\<close>), the constructors of the EVM and
  Bitcoin clients (\<open>NewEvmClients\<close> of \<open>pkg/evm/client.go\<close>, \<open>NewBtcClients\<close> of \<open>pkg/btc/client.go\<close>), the service
  that owns them (\<open>indexer/service.go\<close>) and the command that runs it (\<open>cmd/root.go\<close>). All constructors share the adapter variable of \<open>pkg/db\<close>.
\<close>

section \<open>Configuration\<close>

text \<open>
  \<open>Unmarshal\<close> is \<open>json.Unmarshal\<close> into a variable of the type asked for, with the value it leaves there. Of the types of the
  program, \<open>BtcConfig\<close> has a decoder of its own (\<open>BtcConfig.UnmarshalJSON\<close>).
\<close>

definition ParseJsonArrayConfig :: "(bytes \<Rightarrow> 'a list outcome) \<Rightarrow> bytes \<Rightarrow> 'a list outcome" where
  "ParseJsonArrayConfig Unmarshal content = and_then (Unmarshal content) (\<lambda>result. Ok result)"

definition ParseJsonConfig :: "(bytes \<Rightarrow> 'a outcome) \<Rightarrow> bytes \<Rightarrow> 'a outcome" where
  "ParseJsonConfig Unmarshal content = and_then (Unmarshal content) (\<lambda>result. Ok result)"

definition ReadJsonArrayConfig :: "(string \<Rightarrow> bytes outcome) \<Rightarrow> (bytes \<Rightarrow> 'a list outcome) \<Rightarrow> string \<Rightarrow> 'a list outcome" where
  "ReadJsonArrayConfig read_file decode filePath =
     and_then (wrapf ''error reading file'' (read_file filePath)) (\<lambda>content.
     wrapf ''error unmarshaling config from'' (ParseJsonArrayConfig decode content))"

definition ReadJsonConfig :: "(string \<Rightarrow> bytes outcome) \<Rightarrow> (bytes \<Rightarrow> 'a outcome) \<Rightarrow> string \<Rightarrow> 'a outcome" where
  "ReadJsonConfig read_file decode filePath =
     and_then (wrapf ''error reading file'' (read_file filePath)) (\<lambda>content.
     wrapf ''error unmarshaling config from'' (ParseJsonConfig decode content))"

section \<open>EVM clients\<close>

text \<open>The network and the database driver. \<open>conn_config\<close> is \<open>rpcclient.ConnConfig\<close>.\<close>

record conn_config =
  Host :: string
  User :: string
  Pass :: string
  HTTPPostMode :: bool
  DisableTLS :: bool

record 's world =
  open_db :: "string \<Rightarrow> ('s gorm \<times> 's) outcome"
  dial_eth :: "string \<Rightarrow> unit outcome"
  new_gateway :: "address \<Rightarrow> unit outcome"
  HexToAddress :: "string \<Rightarrow> address"
  new_rpc :: "conn_config \<Rightarrow> unit outcome"

record 's evm_client =
  EvmConfig :: evm_network_config
  GatewayAddress :: address
  evm_db :: "'s adapter_var option"

definition NewEvmClient ::
  "'s world \<Rightarrow> evm_network_config \<Rightarrow> 's adapter_var option \<Rightarrow> 's evm_client outcome \<times> 's adapter_var option" where
  "NewEvmClient w evmConfig var =
     (let (r, var) = (if evm_DatabaseURL evmConfig \<noteq> [] then
              (case NewDatabaseAdapter (open_db w) (evm_DatabaseURL evmConfig) var of
                 (a, var') \<Rightarrow> (and_then (wrapf ''failed to create database adapter'' a) (\<lambda>a. Ok (Some a)), var'))
            else (Ok None, var))
      in (and_then r (\<lambda>dbAdapter.
          and_then (wrapf ''failed to connect to Ethereum client'' (dial_eth w (RPCUrl evmConfig))) (\<lambda>_.
          let gatewayAddress = HexToAddress w (Gateway evmConfig) in
          and_then (wrapf ''failed to create gateway contract instance'' (new_gateway w gatewayAddress)) (\<lambda>_.
          Ok \<lparr>EvmConfig = evmConfig, GatewayAddress = gatewayAddress, evm_db = dbAdapter\<rparr>))), var))"

definition CreateGateway :: "'s world \<Rightarrow> string \<Rightarrow> string \<Rightarrow> address outcome" where
  "CreateGateway w networName gwAddr =
     (if gwAddr = [] then Err (Errorf ''gateway address is not set for network'')
      else
        let gatewayAddress = HexToAddress w gwAddr in
        and_then (wrapf ''failed to initialize gateway contract for network'' (new_gateway w gatewayAddress)) (\<lambda>_.
        Ok gatewayAddress))"

definition evm_defaults :: "evm_network_config \<Rightarrow> evm_network_config" where
  "evm_defaults c =
     c\<lparr>BlockTime := (if BlockTime c = 0 then 12 * Second else wrap64 (BlockTime c * Millisecond)),
       RecoverRange := (if RecoverRange c = 0 then 1000000 else RecoverRange c)\<rparr>"

fun evm_clients ::
  "'s world \<Rightarrow> evm_network_config list \<Rightarrow> 's adapter_var option \<Rightarrow> 's evm_client list outcome \<times> 's adapter_var option" where
  "evm_clients w [] var = (Ok [], var)"
| "evm_clients w (c # cs) var =
     (if \<not> evm_Enable c then evm_clients w cs var
      else
        case NewEvmClient w (evm_defaults c) var of
          (Ok client, var') \<Rightarrow>
            (case evm_clients w cs var' of (r, var'') \<Rightarrow> (and_then r (\<lambda>clients. Ok (client # clients)), var''))
        | (Err _, var') \<Rightarrow> evm_clients w cs var'
        | (Panic p, var') \<Rightarrow> (Panic p, var'))"

definition NewEvmClients ::
  "'s world \<Rightarrow> (string \<Rightarrow> bytes outcome) \<Rightarrow> (bytes \<Rightarrow> evm_network_config list outcome) \<Rightarrow> string
   \<Rightarrow> 's adapter_var option \<Rightarrow> 's evm_client list outcome \<times> 's adapter_var option" where
  "NewEvmClients w read_file decode configPath var =
     (if configPath = [] then (Err (Errorf ''config path is not set''), var)
      else
        (case wrapf ''failed to read electrum configs''
                (ReadJsonArrayConfig read_file decode (configPath @ ''/evms.json'')) of
           Ok configs \<Rightarrow> evm_clients w configs var
         | Err e \<Rightarrow> (Err e, var)
         | Panic p \<Rightarrow> (Panic p, var)))"

text \<open>
  \<open>SubscribeWithRetry\<close> with \<open>SubscribeAllEvents\<close>. An iteration observes whether the context is done before it,
  what \<open>SubscribeFilterLogs\<close> answers, and whether the context is done afterwards. The result is the last
  subscription and the pauses made.
\<close>

definition SubscribeAllEvents :: "'sub outcome \<Rightarrow> 'sub option \<Rightarrow> 'sub option \<times> unit outcome" where
  "SubscribeAllEvents reply subscriptions =
     (case reply of Ok sub \<Rightarrow> (Some sub, Ok ()) | Err e \<Rightarrow> (subscriptions, Err e) | Panic p \<Rightarrow> (subscriptions, Panic p))"

fun SubscribeWithRetry ::
  "duration \<Rightarrow> (bool \<times> 'sub outcome \<times> bool) list \<Rightarrow> 'sub option \<Rightarrow> 'sub option \<times> duration list" where
  "SubscribeWithRetry retryInterval [] sub = (sub, [])"
| "SubscribeWithRetry retryInterval ((ctx_done, reply, ctx_err) # rest) sub =
     (if ctx_done then (sub, [])
      else
        let sub' = fst (SubscribeAllEvents reply sub) in
        if ctx_err then (sub', [])
        else
          let (sub'', pauses) = SubscribeWithRetry
                (if retryInterval < 5 * Minute then retryInterval * 2 else retryInterval) rest sub'
          in (sub'', retryInterval # pauses))"

section \<open>Bitcoin clients\<close>

record 's btc_client =
  btc_cfg :: btc_config
  btc_db :: "'s adapter_var"
  btc_state :: client
  btc_baseReconnectDelay :: duration
  btc_maxReconnectDelay :: duration

text \<open>The \<open>%d\<close> verb.\<close>

definition format_int :: "int \<Rightarrow> string" where
  "format_int i = (if i < 0 then ''-'' @ decimal (nat (- i)) else decimal (nat i))"

definition new_connCfg :: "btc_config \<Rightarrow> conn_config" where
  "new_connCfg config =
     \<lparr>Host = BtcHost config @ '':'' @ format_int (BtcPort config), User = BtcUser config, Pass = BtcPassword config,
      HTTPPostMode = True, DisableTLS = (case BtcSSL config of None \<Rightarrow> True | Some ssl \<Rightarrow> \<not> ssl)\<rparr>"

definition new_client :: client where
  "new_client = \<lparr>isConnected = False, has_conn = False, reconnectAttempts = 0, reconnect_pending = False,
     stopChan_closed = False, lastHeight = 0\<rparr>"

definition NewBtcClient ::
  "'s world \<Rightarrow> btc_config \<Rightarrow> 's adapter_var option \<Rightarrow> 's btc_client outcome \<times> 's adapter_var option" where
  "NewBtcClient w config var =
     (let config = default_config config in
      case NewDatabaseAdapter (open_db w) (DatabaseURL config) var of
        (a, var') \<Rightarrow>
          (and_then (wrapf ''failed to connect to database'' a) (\<lambda>dbAdapter.
           and_then (wrapf ''failed to create BTC client for network'' (new_rpc w (new_connCfg config))) (\<lambda>_.
           Ok \<lparr>btc_cfg = config, btc_db = dbAdapter, btc_state = new_client,
               btc_baseReconnectDelay = ReconnectDelay config, btc_maxReconnectDelay = 2 * Minute\<rparr>)), var'))"

fun btc_clients ::
  "'s world \<Rightarrow> btc_config list \<Rightarrow> 's adapter_var option \<Rightarrow> 's btc_client list outcome \<times> 's adapter_var option" where
  "btc_clients w [] var = (Ok [], var)"
| "btc_clients w (c # cs) var =
     (if \<not> Enable c then btc_clients w cs var
      else
        case NewBtcClient w c var of
          (Ok client, var') \<Rightarrow>
            (case btc_clients w cs var' of (r, var'') \<Rightarrow> (and_then r (\<lambda>clients. Ok (client # clients)), var''))
        | (Err _, var') \<Rightarrow> btc_clients w cs var'
        | (Panic p, var') \<Rightarrow> (Panic p, var'))"

definition NewBtcClients ::
  "'s world \<Rightarrow> (string \<Rightarrow> bytes outcome) \<Rightarrow> (bytes \<Rightarrow> btc_config list outcome) \<Rightarrow> string option
   \<Rightarrow> 's adapter_var option \<Rightarrow> 's btc_client list outcome \<times> 's adapter_var option" where
  "NewBtcClients w read_file decode globalConfig var =
     (case globalConfig of
        None \<Rightarrow> (Err (Errorf ''config path is required''), var)
      | Some path \<Rightarrow>
          if path = [] then (Err (Errorf ''config path is required''), var)
          else
            (case wrapf ''failed to read electrum indexer configs''
                    (ReadJsonArrayConfig read_file decode (path @ ''/btcs.json'')) of
               Ok configs \<Rightarrow> btc_clients w configs var
             | Err e \<Rightarrow> (Err e, var)
             | Panic p \<Rightarrow> (Panic p, var)))"

section \<open>The service\<close>

record 's service =
  EvmClients :: "'s evm_client list"
  BtcClients :: "'s btc_client list"

definition NewService ::
  "'s world \<Rightarrow> (string \<Rightarrow> bytes outcome) \<Rightarrow> (bytes \<Rightarrow> evm_network_config list outcome)
   \<Rightarrow> (bytes \<Rightarrow> btc_config list outcome) \<Rightarrow> string \<Rightarrow> 's adapter_var option
   \<Rightarrow> 's service outcome \<times> 's adapter_var option" where
  "NewService w read_file decode_evms decode_btcs configPath var =
     (case NewEvmClients w read_file decode_evms configPath var of
        (evms, var') \<Rightarrow>
          (case wrapf ''failed to create evm clients'' evms of
             Err e \<Rightarrow> (Err e, var')
           | Panic p \<Rightarrow> (Panic p, var')
           | Ok evmClients \<Rightarrow>
               (case NewBtcClients w read_file decode_btcs (Some configPath) var' of
                  (btcs, var'') \<Rightarrow>
                    (and_then (wrapf ''failed to create btc indexers'' btcs) (\<lambda>btcClients.
                     Ok \<lparr>EvmClients = evmClients, BtcClients = btcClients\<rparr>), var''))))"

text \<open>The goroutines that \<open>Start\<close> launches, in order; it always returns nil.\<close>

datatype 's goroutine = EvmStart "'s evm_client" | StartBtcIndexer "'s btc_client"

definition Service_Start :: "'s service \<Rightarrow> 's goroutine list" where
  "Service_Start s = map EvmStart (EvmClients s) @ map StartBtcIndexer (BtcClients s)"

text \<open>\<open>Stop\<close> stops every Bitcoin client; stopping an EVM client only writes a log line.\<close>

fun stop_all :: "'s btc_client list \<Rightarrow> 's btc_client list outcome" where
  "stop_all [] = Ok []"
| "stop_all (c # cs) =
     and_then (Stop None (btc_state c)) (\<lambda>st.
     and_then (stop_all cs) (\<lambda>cs'. Ok (c\<lparr>btc_state := st\<rparr> # cs')))"

definition Service_Stop :: "'s service \<Rightarrow> 's service outcome" where
  "Service_Stop s = and_then (stop_all (BtcClients s)) (\<lambda>cs. Ok (s\<lparr>BtcClients := cs\<rparr>))"

section \<open>The command\<close>

text \<open>
  \<open>LoadEnv\<close> and \<open>run\<close> of \<open>cmd/root.go\<close>. \<open>unmarshal\<close> is \<open>viper.Unmarshal\<close> on the configured settings: the \<open>CONFIG_PATH\<close> field as it leaves
  it, and its error. An error of \<open>LoadEnv\<close> is only logged; an error of \<open>NewService\<close> ends the process.
\<close>

definition LoadEnv ::
  "(string \<Rightarrow> string) \<Rightarrow> ((string \<rightharpoonup> string) \<Rightarrow> string \<times> go_error option) \<Rightarrow> string \<times> go_error option" where
  "LoadEnv Getenv unmarshal =
     (case unmarshal [''CONFIG_PATH'' \<mapsto> Getenv ''CONFIG_PATH''] of
        (configPath, err) \<Rightarrow> (configPath, map_option (Wrapf ''error unmarshaling config'') err))"

definition run ::
  "'s world \<Rightarrow> (string \<Rightarrow> string) \<Rightarrow> ((string \<rightharpoonup> string) \<Rightarrow> string \<times> go_error option) \<Rightarrow> (string \<Rightarrow> bytes outcome)
   \<Rightarrow> (bytes \<Rightarrow> evm_network_config list outcome) \<Rightarrow> (bytes \<Rightarrow> btc_config list outcome) \<Rightarrow> 's goroutine list outcome" where
  "run w Getenv unmarshal read_file decode_evms decode_btcs =
     (let (configPath, warned) = LoadEnv Getenv unmarshal in
      and_then (fst (NewService w read_file decode_evms decode_btcs configPath None)) (\<lambda>service.
      Ok (Service_Start service)))"

lemma evm_clients_Cons:
  assumes "evm_clients w (c # cs) var = (Ok clients, var')" and "evm_Enable c" and "NewEvmClient w (evm_defaults c) var = (r, var1)"
  shows "(\<exists>e. r = Err e \<and> evm_clients w cs var1 = (Ok clients, var'))
    \<or> (\<exists>client rest. r = Ok client \<and> evm_clients w cs var1 = (Ok rest, var') \<and> clients = client # rest)"
  using assms by (cases r) (auto simp: and_then_Ok_iff split: prod.splits)

text \<open>
  One goroutine is started for every enabled network whose client could be created, EVM chains first, and for nothing
  else; a configuration without a path starts nothing.
\<close>

lemma evm_clients_configs:
  "evm_clients w cs var = (Ok clients, var') \<Longrightarrow> subseq (map EvmConfig clients) (map evm_defaults (filter evm_Enable cs))"
proof (induction cs arbitrary: var clients)
  case (Cons c cs)
  obtain r var1 where n: "NewEvmClient w (evm_defaults c) var = (r, var1)" by fastforce
  have "EvmConfig client = evm_defaults c" if "r = Ok client" for client
    using n that by (auto simp: NewEvmClient_def and_then_Ok_iff Let_def split: if_splits prod.splits)
  then show ?case
    using Cons evm_clients_Cons [OF Cons.prems _ n] by (cases "evm_Enable c") fastforce+
qed simp

lemma btc_clients_Cons:
  assumes "btc_clients w (c # cs) var = (Ok clients, var')" and "Enable c" and "NewBtcClient w c var = (r, var1)"
  shows "(\<exists>e. r = Err e \<and> btc_clients w cs var1 = (Ok clients, var'))
    \<or> (\<exists>client rest. r = Ok client \<and> btc_clients w cs var1 = (Ok rest, var') \<and> clients = client # rest)"
  using assms by (cases r) (auto simp: and_then_Ok_iff split: prod.splits)

lemma btc_clients_configs:
  "btc_clients w cs var = (Ok clients, var') \<Longrightarrow> subseq (map btc_cfg clients) (map default_config (filter Enable cs))"
proof (induction cs arbitrary: var clients)
  case (Cons c cs)
  obtain r var1 where n: "NewBtcClient w c var = (r, var1)" by fastforce
  have "btc_cfg client = default_config c" if "r = Ok client" for client
    using n that by (auto simp: NewBtcClient_def and_then_Ok_iff Let_def split: prod.splits)
  then show ?case
    using Cons btc_clients_Cons [OF Cons.prems _ n] by (cases "Enable c") fastforce+
qed simp

lemma run_starts:
  assumes "run w Getenv unmarshal read_file decode_evms decode_btcs = Ok gs"
    and "configPath = fst (LoadEnv Getenv unmarshal)"
  shows "\<exists>ecs bcs es bs. ReadJsonArrayConfig read_file decode_evms (configPath @ ''/evms.json'') = Ok ecs
    \<and> ReadJsonArrayConfig read_file decode_btcs (configPath @ ''/btcs.json'') = Ok bcs
    \<and> configPath \<noteq> [] \<and> gs = map EvmStart es @ map StartBtcIndexer bs
    \<and> subseq (map EvmConfig es) (map evm_defaults (filter evm_Enable ecs))
    \<and> subseq (map btc_cfg bs) (map default_config (filter Enable bcs))"
proof -
  obtain service var where s: "NewService w read_file decode_evms decode_btcs configPath None = (Ok service, var)"
    "gs = Service_Start service"
    using assms by (auto simp: run_def and_then_Ok_iff split: prod.splits) (metis prod.collapse)
  then obtain ecs bcs es bs var1 where
    "ReadJsonArrayConfig read_file decode_evms (configPath @ ''/evms.json'') = Ok ecs"
    "ReadJsonArrayConfig read_file decode_btcs (configPath @ ''/btcs.json'') = Ok bcs" "configPath \<noteq> []"
    "evm_clients w ecs None = (Ok es, var1)" "btc_clients w bcs var1 = (Ok bs, var)"
    "service = \<lparr>EvmClients = es, BtcClients = bs\<rparr>"
    by (auto simp: NewService_def NewEvmClients_def NewBtcClients_def and_then_Ok_iff wrapf_Ok_iff
        split: prod.splits outcome.splits if_splits)
  with s(2) evm_clients_configs btc_clients_configs show ?thesis by (fastforce simp: Service_Start_def)
qed

section \<open>Pauses\<close>

text \<open>
  The pause is doubled while it is below five minutes, so it settles above them: at 384 seconds.
\<close>

lemma SubscribeWithRetry_pauses:
  "i < length (snd (SubscribeWithRetry (12 * 2 ^ k * Second) is sub)) \<Longrightarrow> k \<le> 5 \<Longrightarrow>
     snd (SubscribeWithRetry (12 * 2 ^ k * Second) is sub) ! i = 12 * 2 ^ min 5 (k + i) * Second"
proof (induction "is" arbitrary: i k sub)
  case (Cons step "is")
  obtain ctx_done reply ctx_err where step: "step = (ctx_done, reply, ctx_err)" by (cases step)
  let ?k = "if k < 5 then Suc k else k"
  have "k \<in> {0, 1, 2, 3, 4, 5}" using Cons.prems(2) by auto
  then have "(if 12 * 2 ^ k * Second < 5 * Minute then 12 * 2 ^ k * Second * 2 else 12 * 2 ^ k * Second) = 12 * 2 ^ ?k * Second"
    by (auto simp: duration_defs)
  note next_pause = this and rec = Cons.IH [where k = ?k and sub = "fst (SubscribeAllEvents reply sub)"]
  show ?case
  proof (cases i)
    case 0
    with Cons.prems show ?thesis by (simp add: step Let_def next_pause min_absorb2 split: if_splits prod.splits)
  next
    case (Suc j)
    have "j < length (snd (SubscribeWithRetry (12 * 2 ^ ?k * Second) is (fst (SubscribeAllEvents reply sub))))"
      "snd (SubscribeWithRetry (12 * 2 ^ k * Second) (step # is) sub) ! i =
         snd (SubscribeWithRetry (12 * 2 ^ ?k * Second) is (fst (SubscribeAllEvents reply sub))) ! j"
      using Cons.prems Suc by (auto simp: step Let_def next_pause split: if_splits prod.splits)
    with rec [of j] Cons.prems(2) Suc show ?thesis by (auto simp: min_def split: if_splits)
  qed
qed simp

section \<open>One database\<close>

lemma NewDatabaseAdapter_var:
  "NewDatabaseAdapter opn url var = (Ok a, var') \<Longrightarrow> var' = Some a \<and> (\<forall>b. var = Some b \<longrightarrow> a = b)"
  by (auto simp: NewDatabaseAdapter_def Let_def split: option.splits outcome.splits)

lemma NewDatabaseAdapter_kept: "var = Some b \<Longrightarrow> snd (NewDatabaseAdapter opn url var) = Some b"
  by (simp add: NewDatabaseAdapter_def)

lemma NewEvmClient_db:
  "NewEvmClient w c var = (r, var') \<Longrightarrow>
     (\<forall>b. var = Some b \<longrightarrow> var' = Some b) \<and> (\<forall>client a. r = Ok client \<and> evm_db client = Some a \<longrightarrow> var' = Some a)"
  using NewDatabaseAdapter_var [of "open_db w" "evm_DatabaseURL c" var]
    NewDatabaseAdapter_kept [of var _ "open_db w" "evm_DatabaseURL c"]
  by (auto simp: NewEvmClient_def and_then_Ok_iff wrapf_Ok_iff Let_def split: if_splits prod.splits)

lemma evm_clients_share:
  "evm_clients w cs var = (Ok clients, var') \<Longrightarrow>
     (\<forall>b. var = Some b \<longrightarrow> var' = Some b) \<and> (\<forall>client a. client \<in> set clients \<and> evm_db client = Some a \<longrightarrow> var' = Some a)"
proof (induction cs arbitrary: var clients var')
  case (Cons c cs)
  show ?case
  proof (cases "evm_Enable c")
    case True
    obtain r var1 where n: "NewEvmClient w (evm_defaults c) var = (r, var1)" by fastforce
    show ?thesis
      using evm_clients_Cons [OF Cons.prems True n] NewEvmClient_db [OF n] Cons.IH [of var1] by fastforce
  qed (use Cons in auto)
qed simp

lemma NewBtcClient_db:
  "NewBtcClient w c var = (r, var') \<Longrightarrow>
     (\<forall>b. var = Some b \<longrightarrow> var' = Some b) \<and> (\<forall>client. r = Ok client \<longrightarrow> var' = Some (btc_db client))"
  using NewDatabaseAdapter_var [of "open_db w" "DatabaseURL (default_config c)" var]
    NewDatabaseAdapter_kept [of var _ "open_db w" "DatabaseURL (default_config c)"]
  by (auto simp: NewBtcClient_def and_then_Ok_iff wrapf_Ok_iff Let_def split: prod.splits)

lemma btc_clients_share:
  "btc_clients w cs var = (Ok clients, var') \<Longrightarrow>
     (\<forall>b. var = Some b \<longrightarrow> var' = Some b) \<and> (\<forall>client. client \<in> set clients \<longrightarrow> var' = Some (btc_db client))"
proof (induction cs arbitrary: var clients var')
  case (Cons c cs)
  show ?case
  proof (cases "Enable c")
    case True
    obtain r var1 where n: "NewBtcClient w c var = (r, var1)" by fastforce
    show ?thesis
      using btc_clients_Cons [OF Cons.prems True n] NewBtcClient_db [OF n] Cons.IH [of var1] by fastforce
  qed (use Cons in auto)
qed simp

lemma service_btc_db:
  assumes "NewService w read_file decode_evms decode_btcs configPath None = (Ok service, var)"
    and "b \<in> set (BtcClients service)"
  shows "var = Some (btc_db b)"
proof -
  obtain ecs bcs es bs var1 where "btc_clients w bcs var1 = (Ok bs, var)" "service = \<lparr>EvmClients = es, BtcClients = bs\<rparr>"
    using assms(1)
    by (auto simp: NewService_def NewEvmClients_def NewBtcClients_def and_then_Ok_iff wrapf_Ok_iff
        split: prod.splits outcome.splits if_splits)
  with btc_clients_share assms(2) show ?thesis by fastforce
qed

text \<open>
  Every client of the service that uses a database uses the same one, whatever database
  URLs the configuration gives them: the first URL that connects wins.
\<close>

theorem service_shares_one_database:
  assumes "NewService w read_file decode_evms decode_btcs configPath None = (Ok service, var)"
    and "e \<in> set (EvmClients service)" and "evm_db e = Some a" and "b \<in> set (BtcClients service)"
  shows "Connection a = Connection (btc_db b) \<and> a = btc_db b"
proof -
  obtain ecs bcs es bs var1 where "evm_clients w ecs None = (Ok es, var1)" "btc_clients w bcs var1 = (Ok bs, var)"
    "service = \<lparr>EvmClients = es, BtcClients = bs\<rparr>"
    using assms(1)
    by (auto simp: NewService_def NewEvmClients_def NewBtcClients_def and_then_Ok_iff wrapf_Ok_iff
        split: prod.splits outcome.splits if_splits)
  with assms(2,3,4) evm_clients_share btc_clients_share show ?thesis by fastforce
qed

text \<open>The adapter that every client shares is the one of the first configured URL that connects.\<close>

definition example_world :: "model list world" where
  "example_world = \<lparr>open_db = (\<lambda>_. Ok (mem_engine, [])), dial_eth = (\<lambda>_. Ok ()), new_gateway = (\<lambda>_. Ok ()),
     HexToAddress = (\<lambda>_. replicate 20 0), new_rpc = (\<lambda>_. Ok ())\<rparr>"

definition example_evm_network :: evm_network_config where
  "example_evm_network = example_evm_config\<lparr>evm_DatabaseURL := ''postgres://evm''\<rparr>"

definition example_btc_network :: btc_config where
  "example_btc_network = \<lparr>Enable = True, BtcHost = ''btc'', BtcPort = 8332, BtcUser = [], BtcPassword = [], BtcSSL = None,
     BtcNetwork = ''testnet4'', ElectrumHost = [], ElectrumPort = 0, VaultTag = [], VaultVersion = 3,
     DatabaseURL = ''postgres://btc'', DialTimeout = 0, MethodTimeout = 0, PingInterval = 0, MaxReconnectAttempts = 0,
     ReconnectDelay = 0, EnableAutoReconnect = True, StartHeight = 0, EndHeight = 0, BatchSize = 0, Confirmations = 0,
     SourceChain = [], FetchThread = 1\<rparr>"

lemma mem_migrates: "RunMigrations mem_engine s = (s, None)"
  by (simp add: RunMigrations_def mem_engine_def)

lemma example_service:
  "\<exists>e a b var. NewService example_world (\<lambda>_. Ok []) (\<lambda>_. Ok [example_evm_network]) (\<lambda>_. Ok [example_btc_network]) ''cfg'' None =
      (Ok \<lparr>EvmClients = [e], BtcClients = [b]\<rparr>, var) \<and> evm_db e = Some a \<and> Connection a = ''postgres://evm''
    \<and> DatabaseURL (btc_cfg b) = ''postgres://btc''"
  by (simp add: NewService_def NewEvmClients_def NewBtcClients_def ReadJsonArrayConfig_def ParseJsonArrayConfig_def
      NewEvmClient_def NewBtcClient_def
      NewDatabaseAdapter_def NewPostgresClient_def SetupDatabase_def mem_migrates example_world_def Let_def
      example_evm_network_def example_evm_config_def example_btc_network_def evm_defaults_def)

theorem service_shares_one_database_witness:
  "\<exists>b :: model list btc_client. Connection (btc_db b) = ''postgres://evm'' \<and> DatabaseURL (btc_cfg b) = ''postgres://btc''"
proof -
  obtain e a b var where "NewService example_world (\<lambda>_. Ok []) (\<lambda>_. Ok [example_evm_network])
      (\<lambda>_. Ok [example_btc_network]) ''cfg'' None = (Ok \<lparr>EvmClients = [e], BtcClients = [b]\<rparr>, var)"
    "evm_db e = Some a" "Connection a = ''postgres://evm''" "DatabaseURL (btc_cfg b) = ''postgres://btc''"
    using example_service by blast
  note example = this
  have "a = btc_db b" using service_shares_one_database [OF example(1), of e a b] example(2) by simp
  with example(3,4) show ?thesis by blast
qed

end
