(* ===== verification/Spec2Isabelle.thy ===== *)
theory Spec2Isabelle
  imports VaultParser Reorg BtcSync Electrum ServiceRun EvmUtils Clients
begin

text \<open>
  Verification of the indexer of the repository (\<open>evms-indexer\<close>): a Go service that follows one gateway contract on
  several EVM chains and the vault transactions on several Bitcoin chains, and stores what it finds in PostgreSQL.

  \<^bold>\<open>The parts of the program and the theories that model them.\<close>

  \<^item> \<open>Prelude\<close> and \<open>GoStrings\<close>: what the source uses of Go and its standard library. A fallible call yields an
    \<open>outcome\<close>: a value, an error or a panic (index out of range, nil dereference, failed type assertion, division by
    zero, closing a closed channel); \<open>and_then\<close> is the early return. \<open>uint64\<close> and \<open>uint8\<close> are words; an \<open>int64\<close> is an \<^typ>\<open>int\<close> with
    its wrap-around written out where it can occur. Slicing, big-endian numbers, decimal and hexadecimal numerals, the
    chunking loop, with the round trips of the encodings.
  \<^item> \<open>ChainInfo\<close>: \<open>pkg/types/chain_info.go\<close> and \<open>pkg/utils/normalize.go\<close>, the chain identifiers in binary and as text.
  \<^item> \<open>OrderedQueue\<close>: \<open>pkg/types/queue.go\<close>. The locale \<open>comparator\<close> is the contract of the comparison function, the locale
    \<open>priority_set\<close> the contract of the queue towards its client; both are interpreted in \<open>BlockFetcher\<close>.
  \<^item> \<open>Models\<close>: the rows of the tables (\<open>pkg/types/models.go\<close> and the data-models package) and the log and ABI types.
  \<^item> \<open>Database\<close>: \<open>pkg/db\<close>, every method of the adapter as a function of the GORM client (a record of the calls the
    adapter makes) and an abstract database state. \<open>DatabaseLaws\<close>: the contract of GORM and PostgreSQL as the locale
    \<open>gorm_engine\<close>, an in-memory engine that keeps it, and the properties of the adapter.
  \<^item> \<open>Merkle\<close>, \<open>BtcConfig\<close>, \<open>VaultTx\<close>, \<open>VaultParser\<close>: \<open>pkg/btc/merkle.go\<close>, \<open>config.go\<close>, \<open>types.go\<close> and \<open>parser.go\<close>: from a raw
    transaction to the vault transaction that is stored, with its Merkle proof.
  \<^item> \<open>Reorg\<close>: \<open>pkg/btc/reorg.go\<close>, against the contract \<open>header_store\<close> of its \<open>DBAdapter\<close> interface; \<open>hashed_engine\<close> is a
    \<open>sublocale\<close> of it.
  \<^item> \<open>BtcNode\<close> and \<open>Pipeline\<close>: \<open>pkg/btc/btcnode.go\<close> and \<open>db.go\<close>: the stream of heights, the two worker pools with their bounded
    channels as a step relation, and the indexing of a block. \<open>BtcSync\<close>: all of them from the node to the rows (contract
    \<open>inserting_engine\<close>). \<open>BtcIndexing\<close>: \<open>indexBlock\<close> step by step for clients that share a database, where a step is one call of
    the reorganisation handler, of \<open>StoreBlockHeader\<close> or of \<open>StoreVaultTransactions\<close>.
  \<^item> \<open>Electrum\<close>: \<open>pkg/btc/electrum.go\<close>: the connection with its reconnection policy and its lock, and the two loops over
    heights that share \<open>lastHeight\<close>.
  \<^item> \<open>GatewayEvents\<close>: the event structs of the contract binding and \<open>pkg/evm/parser\<close> (\<open>converter.go\<close>, \<open>payload.go\<close>,
    \<open>btc_fee_opt.go\<close>): from an event to its row. \<open>EvmUtils\<close>: \<open>pkg/evm/utils.go\<close>.
  \<^item> \<open>Processing\<close> and \<open>LogBatch\<close>: \<open>pkg/evm/abi\<close>, \<open>pkg/evm/parser.go\<close>, \<open>parser/parser.go\<close> and \<open>processing.go\<close>: from a batch of logs to rows in batches that
    respect the parameter limit of a statement; what a batch leaves in a database that accepts complete rows (contract
    \<open>accepting_engine\<close>).
  \<^item> \<open>LogFetcher\<close>, \<open>Recovery\<close>, \<open>SharedQuery\<close>: \<open>pkg/evm/fetcher.go\<close> and the loops of \<open>client.go\<close>: fetching a range of blocks, the
    recovery from a checkpoint (contract \<open>checkpoint_store\<close>), the polling with its clock, and the interleaving of the two
    goroutines of \<open>LoopFetchLogs\<close>, where a step makes one access to the query they share. \<open>BlockFetcher\<close>: the queue and the
    worker of \<open>fetchBlocks\<close>.
  \<^item> \<open>EvmGoroutines\<close>: the log processor and the block workers that \<open>EvmClient.Start\<close> runs behind the channel for logs, as step
    relations over the state they share (\<open>evm_core\<close>). \<open>EvmPipeline\<close> adds the recovery (\<open>evm_step\<close>): from its requests through both
    channels to the stored rows and headers. \<open>EvmSystem\<close>: all goroutines of \<open>Start\<close> with the polling (\<open>system_step\<close>), over the
    same shared state, at the granularity of \<open>SharedQuery\<close>; \<open>evm_step\<close> refines it. \<open>EvmAnswers\<close>: what becomes of the node's
    answers in it. \<open>RowKeys\<close>: which rows and which identifying columns each write of these goroutines leaves.
  \<^item> \<open>ServiceRun\<close>: all clients of a service on the database they share (\<open>service_step\<close>). The locale \<open>client_contract\<close> is what a client
    guarantees while the others do as they promise (rely); \<open>one_database\<close> gives it for two properties, by \<open>sublocale\<close>.
  \<^item> \<open>Clients\<close>: \<open>config/config.go\<close>, the constructors of \<open>client.go\<close> in both packages, \<open>indexer/service.go\<close> and \<open>run\<close> of
    \<open>cmd/root.go\<close>.

  \<^bold>\<open>What the theorems show.\<close> In every interleaving of its goroutines the EVM indexer comes to an end of its recovery, without a
  deadlock, and has then stored every transfer that can be decoded and every header that the node returned; catching up with a
  Bitcoin chain, up to its tip, stores the header and the vault transactions of every block that the node served. Whatever the polling and the recovery do to each other, every row
  that the EVM indexer adds is one that the node's answers justify, of its own chain, and no two rows share their identifying columns. Fetching a range returns every log of its blocks once and in order, and an interrupted
  recovery continues where it stopped. The heights sent to the Bitcoin workers are consecutive; the workers never block
  for ever and deliver each block once or lose it. The queue of block numbers is a set handed out in increasing order.
  The vault parser accepts exactly the encodings it documents and never reads out of bounds; the Merkle proof that is stored
  verifies against the root, and a proof that verifies binds the transaction. All clients of a service together keep their
  database well formed and do not lose each other's EVM rows: what a node has answered is stored when its client is idle, and
  a client can always come to that point. Rows are stored once per event id, which
  identifies the log. Chain identifiers round-trip. Other theorems state exactly where the code departs from its intent:
  redeem transactions are rejected, a reorganisation does not roll back, a failed request ends the polling or the recovery,
  the shared query loses blocks, a checkpoint is written before the logs it covers are stored, a nil record loses its batch, the health check blocks itself,
  one Bitcoin chain hides another.

  \<^bold>\<open>Loops and bounds.\<close> A loop whose end depends on the environment is a \<open>partial_function (option)\<close>: not returning is the value
  \<^const>\<open>None\<close> (\<open>fetch_loop\<close>, \<open>chunk_loop\<close>), and that it returns is proved. Loops of the program that never end are given by
  one round and by finite sequences of rounds of any length. No fuel is used.

  \<^bold>\<open>Parameters.\<close> Code outside the repository is an argument: the GORM client, the Ethereum and Bitcoin nodes and their ABI and hash
  functions, JSON decoding, the network and the clock. What a theorem needs of them is a named hypothesis or a locale
  (\<open>gorm_engine\<close>, \<open>accepting_engine\<close>, \<open>inserting_engine\<close>, \<open>checkpoint_store\<close>, \<open>hashed_engine\<close>, \<open>one_database\<close>, \<open>eth_strings\<close>, \<open>serves\<close>), shown satisfiable by the witnesses.

  \<^bold>\<open>Not modelled.\<close> The contract bindings under \<open>contracts/generated\<close> but for their event structs: generated code that forwards
  to go-ethereum, of which the program calls no method but the constructor and the ABI getter. The flags and signals of the
  command line (\<open>cobra\<close>, \<open>main.go\<close>) and the logger (\<open>config/logger.go\<close>), log messages, and \<open>pkg/utils/address.go\<close>, which is
  commented out.
\<close>

section \<open>Properties across components\<close>




definition second_network :: btc_config where
  "second_network = example_btc_network\<lparr>BtcNetwork := ''mainnet'', SourceChain := ''bitcoin|1''\<rparr>"

lemma two_networks:
  "\<exists>b1 b2 var. NewService example_world (\<lambda>_. Ok []) (\<lambda>_. Ok []) (\<lambda>_. Ok [example_btc_network, second_network]) ''cfg'' None =
      (Ok \<lparr>EvmClients = [], BtcClients = [b1, b2]\<rparr>, var)
    \<and> PostgresClient (btc_db b1) = mem_engine \<and> PostgresClient (btc_db b2) = mem_engine
    \<and> SourceChain (btc_cfg b2) = ''bitcoin|1''"
  by (simp add: NewService_def NewEvmClients_def NewBtcClients_def ReadJsonArrayConfig_def ParseJsonArrayConfig_def NewBtcClient_def
      NewDatabaseAdapter_def NewPostgresClient_def SetupDatabase_def mem_migrates example_world_def Let_def
      example_btc_network_def second_network_def)

text \<open>The first network stores a header at height 7.\<close>

definition first_header :: "model list" where
  "first_header = fst (StoreBlockHeader mem_engine example_lib (\<lambda>_. [1]) (NewBlockHeader 0 1 [] [] 0 0) 7 [])"

lemma first_header_latest: "Client_GetLatestIndexedHeight (Some mem_engine) config first_header = Ok 7"
  by (simp add: first_header_def StoreBlockHeader_def CreateBtcBlockHeader_def Client_GetLatestIndexedHeight_def
      GetLatestIndexedHeight_def mem_engine_def matching_def insert_row_def table_of_constructors)


end
